(* ===== verification/Prelude.thy ===== *)
theory Prelude
  imports Main "HOL-Library.Word"
begin

text \<open>
  Shared vocabulary of the development: names for the machine types, the \<open>Result\<close>
  type with the question-mark operator, and the list facts several components use.

  A Rust \<open>Result<T, E>\<close> is \<open>'e + 'a\<close> with \<open>Inl\<close> for \<open>Err\<close>; an \<open>Option\<close> is an
  \<open>option\<close>. A byte is a HOL \<open>char\<close> (which has exactly 256 values), a Rust \<open>str\<close> or
  \<open>String\<close> its list of UTF-8 bytes, so that literals read as in the source.
\<close>

named_theorems model_defs "definitions of the model that proofs unfold together"
named_theorems result_simps "how the question-mark operator meets Ok and Err"

type_synonym byte = char
type_synonym u16 = "16 word"
type_synonym u32 = "32 word"
type_synonym u64 = "64 word"
type_synonym usize = "64 word"
type_synonym i32 = "32 word"

section \<open>Results\<close>

text \<open>The question-mark operator: \<open>andThen r f\<close> is \<open>let x = r?; f x\<close>.\<close>

definition andThen :: "'e + 'a \<Rightarrow> ('a \<Rightarrow> 'e + 'b) \<Rightarrow> 'e + 'b" where
  "andThen r f = (case r of Inl e \<Rightarrow> Inl e | Inr x \<Rightarrow> f x)"

definition map_err :: "('e \<Rightarrow> 'f) \<Rightarrow> 'e + 'a \<Rightarrow> 'f + 'a" where
  "map_err g r = (case r of Inl e \<Rightarrow> Inl (g e) | Inr x \<Rightarrow> Inr x)"

definition ok_or :: "'e \<Rightarrow> 'a option \<Rightarrow> 'e + 'a" where
  "ok_or e x = (case x of None \<Rightarrow> Inl e | Some y \<Rightarrow> Inr y)"

definition is_ok :: "'e + 'a \<Rightarrow> bool" where
  "is_ok r \<longleftrightarrow> (case r of Inl _ \<Rightarrow> False | Inr _ \<Rightarrow> True)"

lemma andThen_simps [simp, result_simps]:
  "andThen (Inl e) f = Inl e"
  "andThen (Inr x) f = f x"
  by (simp_all add: andThen_def)

lemma andThen_Inr_iff [result_simps]:
  "andThen r f = Inr y \<longleftrightarrow> (\<exists>x. r = Inr x \<and> f x = Inr y)"
  by (cases r) auto

lemma andThen_Inl_iff [result_simps]:
  "andThen r f = Inl e \<longleftrightarrow> r = Inl e \<or> (\<exists>x. r = Inr x \<and> f x = Inl e)"
  by (cases r) auto

lemma map_err_simps [simp, result_simps]:
  "map_err g (Inl e) = Inl (g e)"
  "map_err g (Inr x) = Inr x"
  by (simp_all add: map_err_def)

lemma map_err_Inr_iff [simp]: "map_err g r = Inr x \<longleftrightarrow> r = Inr x"
  by (cases r) auto

lemma map_err_Inl_iff: "map_err g r = Inl e \<longleftrightarrow> (\<exists>d. r = Inl d \<and> e = g d)"
  by (cases r) auto

lemma ok_or_simps [simp, result_simps]:
  "ok_or e None = Inl e"
  "ok_or e (Some x) = Inr x"
  by (simp_all add: ok_or_def)

lemma ok_or_iff [result_simps]:
  "ok_or e x = Inr y \<longleftrightarrow> x = Some y"
  "ok_or e x = Inl d \<longleftrightarrow> x = None \<and> d = e"
  by (cases x; auto)+

lemma is_ok_simps [simp, result_simps]:
  "\<not> is_ok (Inl e)" "is_ok (Inr x)"
  by (simp_all add: is_ok_def)

lemma is_ok_iff: "is_ok r \<longleftrightarrow> (\<exists>x. r = Inr x)"
  by (cases r) auto

section \<open>64-bit words\<close>

lemma usize_bound: "unat (a :: usize) < 2 ^ 64"
  using unsigned_less [of a, where 'a = nat] by simp

lemma usize_of_nat: "n < 2 ^ 64 \<Longrightarrow> unat (of_nat n :: usize) = n"
  by (simp add: unsigned_of_nat take_bit_nat_eq_self)

lemma usize_max: "unat (- 1 :: usize) = 2 ^ 64 - 1"
  by (simp add: unsigned_minus_1_eq_mask mask_eq_exp_minus_1)

lemma usize_add: "unat a + unat b < 2 ^ 64 \<Longrightarrow> unat (a + b :: usize) = unat a + unat b"
  by (simp add: unat_word_ariths)

section \<open>Lists\<close>

text \<open>
  The three list operations the components share: \<open>Vec::retain\<close> followed by a push, a
  window of a vector, and the position of the first element with a property.
\<close>

definition position :: "('a \<Rightarrow> bool) \<Rightarrow> 'a list \<Rightarrow> nat option" where
  "position P xs = (if \<exists>x \<in> set xs. P x then Some (length (takeWhile (\<lambda>x. \<not> P x) xs)) else None)"

lemma position_None_iff [simp]: "position P xs = None \<longleftrightarrow> (\<forall>x \<in> set xs. \<not> P x)"
  by (simp add: position_def)

definition window :: "nat \<Rightarrow> nat \<Rightarrow> 'a list \<Rightarrow> 'a list" where
  "window i j xs = take (j - i) (drop i xs)"

lemma length_window [simp]: "length (window i j xs) = min (j - i) (length xs - i)"
  by (simp add: window_def min.commute)

lemma nth_window: "k < length (window i j xs) \<Longrightarrow> window i j xs ! k = xs ! (i + k)"
  by (auto simp: window_def)

lemma window_append: "i \<le> j \<Longrightarrow> j \<le> k \<Longrightarrow> window i j xs @ window j k xs = window i k xs"
proof -
  assume ij: "i \<le> j" and jk: "j \<le> k"
  have "window i k xs = take ((j - i) + (k - j)) (drop i xs)"
    using ij jk by (simp add: window_def)
  also have "\<dots> = window i j xs @ take (k - j) (drop (j - i) (drop i xs))"
    by (simp add: take_add window_def)
  also have "\<dots> = window i j xs @ window j k xs"
    using ij by (simp add: window_def add.commute)
  finally show ?thesis by simp
qed

lemma window_full [simp]: "length xs \<le> j \<Longrightarrow> window 0 j xs = xs"
  by (simp add: window_def)

lemma window_empty [simp]: "j \<le> i \<Longrightarrow> window i j xs = []"
  by (simp add: window_def)

definition retain :: "('a \<Rightarrow> bool) \<Rightarrow> 'a list \<Rightarrow> 'a list" where
  "retain P xs = filter P xs"

lemma retain_simps [simp]:
  "set (retain P xs) = {x \<in> set xs. P x}"
  "distinct xs \<Longrightarrow> distinct (retain P xs)"
  by (simp_all add: retain_def)

lemma length_retain_eq_iff: "length (retain P xs) = length xs \<longleftrightarrow> (\<forall>x \<in> set xs. P x)"
  unfolding retain_def
  by (metis filter_True length_filter_less nat_neq_iff)

end
