(* ===== verification/Rust_Text.thy ===== *)
theory Rust_Text
  imports Prelude
begin

text \<open>
  What the program uses of Rust's text library, written out over byte lists: UTF-8
  validation with the position and length of the first error (\<open>str::from_utf8\<close>), lossy
  decoding (\<open>String::from_utf8_lossy\<close>), \<open>trim\<close>, \<open>to_ascii_lowercase\<close>, decimal
  formatting of integers, \<open>parse\<close> of unsigned integers and \<open>CString::new\<close>.
  The lemmas say which bytes count as a \<open>str\<close>, that lossy decoding always yields one and
  changes nothing that already is one, and that printing and parsing numbers are inverse.
\<close>

section \<open>UTF-8\<close>

definition byte_val :: "byte \<Rightarrow> nat" where
  "byte_val c = of_char c"

definition is_cont :: "byte \<Rightarrow> bool" where
  "is_cont c \<longleftrightarrow> 128 \<le> byte_val c \<and> byte_val c \<le> 191"

text \<open>The second byte a three- or four-byte sequence may have after its first byte.\<close>

definition second3_ok :: "nat \<Rightarrow> nat \<Rightarrow> bool" where
  "second3_ok x y \<longleftrightarrow>
     (x = 0xE0 \<and> 0xA0 \<le> y \<and> y \<le> 0xBF) \<or> (0xE1 \<le> x \<and> x \<le> 0xEC \<and> 0x80 \<le> y \<and> y \<le> 0xBF) \<or>
     (x = 0xED \<and> 0x80 \<le> y \<and> y \<le> 0x9F) \<or> (0xEE \<le> x \<and> x \<le> 0xEF \<and> 0x80 \<le> y \<and> y \<le> 0xBF)"

definition second4_ok :: "nat \<Rightarrow> nat \<Rightarrow> bool" where
  "second4_ok x y \<longleftrightarrow>
     (x = 0xF0 \<and> 0x90 \<le> y \<and> y \<le> 0xBF) \<or> (0xF1 \<le> x \<and> x \<le> 0xF3 \<and> 0x80 \<le> y \<and> y \<le> 0xBF) \<or>
     (x = 0xF4 \<and> 0x80 \<le> y \<and> y \<le> 0x8F)"

text \<open>
  One step of the validator on a non-empty input: a scalar value of so many bytes, or an
  error with the number of bytes it spans (\<open>None\<close>: the input ends inside a sequence).
\<close>

datatype utf8_step = Scalar nat | Broken "nat option"

definition two_bytes :: "byte list \<Rightarrow> utf8_step" where
  "two_bytes bs = (case bs of [] \<Rightarrow> Broken None
     | c # _ \<Rightarrow> if is_cont c then Scalar 2 else Broken (Some 1))"

definition three_bytes :: "nat \<Rightarrow> byte list \<Rightarrow> utf8_step" where
  "three_bytes x bs = (case bs of [] \<Rightarrow> Broken None
     | c # cs \<Rightarrow> if \<not> second3_ok x (byte_val c) then Broken (Some 1)
         else (case cs of [] \<Rightarrow> Broken None
           | d # _ \<Rightarrow> if is_cont d then Scalar 3 else Broken (Some 2)))"

definition four_bytes :: "nat \<Rightarrow> byte list \<Rightarrow> utf8_step" where
  "four_bytes x bs = (case bs of [] \<Rightarrow> Broken None
     | c # cs \<Rightarrow> if \<not> second4_ok x (byte_val c) then Broken (Some 1)
         else (case cs of [] \<Rightarrow> Broken None
           | d # ds \<Rightarrow> if \<not> is_cont d then Broken (Some 2)
               else (case ds of [] \<Rightarrow> Broken None
                 | e # _ \<Rightarrow> if is_cont e then Scalar 4 else Broken (Some 3))))"

definition utf8_next :: "byte \<Rightarrow> byte list \<Rightarrow> utf8_step" where
  "utf8_next b bs =
     (let x = byte_val b in
      if x < 128 then Scalar 1
      else if 0xC2 \<le> x \<and> x \<le> 0xDF then two_bytes bs
      else if 0xE0 \<le> x \<and> x \<le> 0xEF then three_bytes x bs
      else if 0xF0 \<le> x \<and> x \<le> 0xF4 then four_bytes x bs
      else Broken (Some 1))"

text \<open>The validator: \<open>None\<close> when valid, else \<open>valid_up_to\<close> and \<open>error_len\<close>.\<close>

fun utf8_check :: "nat \<Rightarrow> byte list \<Rightarrow> (nat \<times> nat option) option" where
  "utf8_check off [] = None"
| "utf8_check off (b # bs) =
     (case utf8_next b bs of
        Scalar n \<Rightarrow> utf8_check (off + n) (drop (n - 1) bs)
      | Broken e \<Rightarrow> Some (off, e))"

definition valid_utf8 :: "byte list \<Rightarrow> bool" where
  "valid_utf8 bs \<longleftrightarrow> utf8_check 0 bs = None"

text \<open>U+FFFD, the replacement character.\<close>

definition replacement :: "byte list" where
  "replacement = [CHR 0xEF, CHR 0xBF, CHR 0xBD]"

fun from_utf8_lossy :: "byte list \<Rightarrow> string" where
  "from_utf8_lossy [] = []"
| "from_utf8_lossy (b # bs) =
     (case utf8_next b bs of
        Scalar n \<Rightarrow> b # take (n - 1) bs @ from_utf8_lossy (drop (n - 1) bs)
      | Broken None \<Rightarrow> replacement
      | Broken (Some n) \<Rightarrow> replacement @ from_utf8_lossy (drop (n - 1) bs))"

lemmas utf8_step_defs =
  utf8_next_def two_bytes_def three_bytes_def four_bytes_def Let_def

lemma sequence_Scalar:
  "two_bytes bs = Scalar n \<Longrightarrow> n = 2 \<and> 1 \<le> length bs"
  "three_bytes x bs = Scalar n \<Longrightarrow> n = 3 \<and> 2 \<le> length bs"
  "four_bytes x bs = Scalar n \<Longrightarrow> n = 4 \<and> 3 \<le> length bs"
  by (simp_all add: two_bytes_def three_bytes_def four_bytes_def Suc_le_eq
      split: if_splits list.splits)

lemma sequence_append:
  "two_bytes bs = Scalar n \<Longrightarrow> two_bytes (bs @ cs) = Scalar n"
  "three_bytes x bs = Scalar n \<Longrightarrow> three_bytes x (bs @ cs) = Scalar n"
  "four_bytes x bs = Scalar n \<Longrightarrow> four_bytes x (bs @ cs) = Scalar n"
  by (auto simp: two_bytes_def three_bytes_def four_bytes_def split: if_splits list.splits)

lemma sequence_take:
  "two_bytes bs = Scalar n \<Longrightarrow> two_bytes (take (n - 1) bs) = Scalar n"
  "three_bytes x bs = Scalar n \<Longrightarrow> three_bytes x (take (n - 1) bs) = Scalar n"
  "four_bytes x bs = Scalar n \<Longrightarrow> four_bytes x (take (n - 1) bs) = Scalar n"
  by (auto simp: two_bytes_def three_bytes_def four_bytes_def split: if_splits list.splits)

lemma utf8_next_Scalar:
  assumes "utf8_next b bs = Scalar n"
  shows "1 \<le> n" and "n \<le> Suc (length bs)"
  using assms by (auto simp: utf8_next_def Let_def dest: sequence_Scalar split: if_splits)

lemma utf8_next_append:
  "utf8_next b bs = Scalar n \<Longrightarrow> utf8_next b (bs @ cs) = Scalar n"
  unfolding utf8_next_def Let_def by (auto intro: sequence_append split: if_splits)

lemma utf8_next_take:
  "utf8_next b bs = Scalar n \<Longrightarrow> utf8_next b (take (n - 1) bs) = Scalar n"
  unfolding utf8_next_def Let_def by (auto intro: sequence_take [simplified] split: if_splits)

lemma utf8_check_shift:
  "utf8_check (off + k) bs = map_option (\<lambda>(i, e). (i + k, e)) (utf8_check off bs)"
proof (induction off bs rule: utf8_check.induct)
  case (2 off b bs)
  show ?case
  proof (cases "utf8_next b bs")
    case (Scalar n)
    have "off + k + n = off + n + k" by simp
    with 2 Scalar show ?thesis by (simp only: utf8_check.simps utf8_step.case)
  qed simp
qed simp

lemma utf8_check_offset: "utf8_check off bs = None \<longleftrightarrow> utf8_check 0 bs = None"
  using utf8_check_shift [of 0 off bs] by simp

lemma valid_utf8_Nil [simp]: "valid_utf8 []"
  by (simp add: valid_utf8_def)

lemma valid_utf8_Cons:
  "valid_utf8 (b # bs) \<longleftrightarrow> (\<exists>n. utf8_next b bs = Scalar n \<and> valid_utf8 (drop (n - 1) bs))"
  unfolding valid_utf8_def
  by (cases "utf8_next b bs") (auto dest: utf8_check_offset [THEN iffD1] intro: utf8_check_offset [THEN iffD2])

lemma valid_utf8_induct [consumes 1, case_names Nil Scalar]:
  assumes "valid_utf8 bs"
    and "P []"
    and "\<And>b bs n. utf8_next b bs = Scalar n \<Longrightarrow> valid_utf8 (drop (n - 1) bs) \<Longrightarrow>
      P (drop (n - 1) bs) \<Longrightarrow> P (b # bs)"
  shows "P bs"
  using assms(1)
proof (induction bs rule: length_induct)
  case (1 bs)
  show ?case
  proof (cases bs)
    case Nil
    then show ?thesis using assms(2) by simp
  next
    case (Cons b cs)
    with 1 obtain n where n: "utf8_next b cs = Scalar n" "valid_utf8 (drop (n - 1) cs)"
      by (auto simp: valid_utf8_Cons)
    with 1 Cons have "P (drop (n - 1) cs)" by simp
    with n show ?thesis unfolding Cons by (rule assms(3))
  qed
qed

lemma valid_utf8_append: "valid_utf8 xs \<Longrightarrow> valid_utf8 ys \<Longrightarrow> valid_utf8 (xs @ ys)"
proof (induction xs rule: valid_utf8_induct)
  case (Scalar b bs n)
  have "n - 1 \<le> length bs" using utf8_next_Scalar [OF Scalar(1)] by simp
  with Scalar show ?case
    by (auto simp: valid_utf8_Cons dest: utf8_next_append)
qed simp

lemma valid_utf8_scalar: "utf8_next b bs = Scalar n \<Longrightarrow> valid_utf8 (b # take (n - 1) bs)"
  using utf8_next_take [of b bs n] by (auto simp: valid_utf8_Cons)

lemma valid_utf8_ascii: "\<forall>c \<in> set bs. byte_val c < 128 \<Longrightarrow> valid_utf8 bs"
  by (induction bs) (auto simp: valid_utf8_Cons utf8_next_def)

definition ascii :: "byte list \<Rightarrow> bool" where
  "ascii s \<longleftrightarrow> (\<forall>c \<in> set s. byte_val c < 128)"

lemma ascii_simps [simp]:
  "ascii []" "ascii (c # s) \<longleftrightarrow> byte_val c < 128 \<and> ascii s" "ascii (s @ t) \<longleftrightarrow> ascii s \<and> ascii t"
  by (auto simp: ascii_def)

lemma ascii_valid: "ascii s \<Longrightarrow> valid_utf8 s"
  by (rule valid_utf8_ascii) (simp add: ascii_def)

lemma byte_val_Char [simp]: "byte_val (Char b0 b1 b2 b3 b4 b5 b6 b7) =
    of_char (Char b0 b1 b2 b3 b4 b5 b6 b7)"
  by (simp add: byte_val_def)

lemma valid_utf8_replacement: "valid_utf8 replacement"
  by (simp add: replacement_def valid_utf8_def utf8_step_defs byte_val_def second3_ok_def is_cont_def)

lemma from_utf8_lossy_valid: "valid_utf8 (from_utf8_lossy bs)"
proof (induction bs rule: from_utf8_lossy.induct)
  case (2 b bs)
  show ?case
  proof (cases "utf8_next b bs")
    case (Scalar n)
    with 2 have "valid_utf8 ((b # take (n - 1) bs) @ from_utf8_lossy (drop (n - 1) bs))"
      by (intro valid_utf8_append valid_utf8_scalar) simp_all
    with Scalar show ?thesis by simp
  next
    case (Broken e)
    with 2 show ?thesis
      by (cases e) (auto intro: valid_utf8_append valid_utf8_replacement)
  qed
qed simp

lemma from_utf8_lossy_id: "valid_utf8 bs \<Longrightarrow> from_utf8_lossy bs = bs"
  by (induction bs rule: valid_utf8_induct) auto

section \<open>Numbers as text\<close>

definition digit_char :: "nat \<Rightarrow> char" where
  "digit_char d = char_of (48 + d)"

definition is_digit :: "char \<Rightarrow> bool" where
  "is_digit c \<longleftrightarrow> 48 \<le> byte_val c \<and> byte_val c \<le> 57"

fun dec_nat :: "nat \<Rightarrow> string" where
  "dec_nat n = (if n < 10 then [digit_char n] else dec_nat (n div 10) @ [digit_char (n mod 10)])"

declare dec_nat.simps [simp del]

definition dec_int :: "int \<Rightarrow> string" where
  "dec_int i = (if i < 0 then CHR ''-'' # dec_nat (nat (- i)) else dec_nat (nat i))"

datatype int_error_kind = EmptyInt | InvalidDigit | PosOverflow

fun parse_digits :: "nat \<Rightarrow> nat \<Rightarrow> string \<Rightarrow> int_error_kind + nat" where
  "parse_digits m acc [] = Inr acc"
| "parse_digits m acc (c # cs) =
     (if \<not> is_digit c then Inl InvalidDigit
      else if m < acc * 10 + (byte_val c - 48) then Inl PosOverflow
      else parse_digits m (acc * 10 + (byte_val c - 48)) cs)"

text \<open>\<open>str::parse\<close> into an unsigned type whose greatest value is \<open>m\<close>.\<close>

definition parse_unsigned :: "nat \<Rightarrow> string \<Rightarrow> int_error_kind + nat" where
  "parse_unsigned m s =
     (case s of [] \<Rightarrow> Inl EmptyInt
      | c # cs \<Rightarrow>
          if cs = [] \<and> (c = CHR ''+'' \<or> c = CHR ''-'') then Inl InvalidDigit
          else if c = CHR ''+'' then parse_digits m 0 cs else parse_digits m 0 s)"

fun int_error_text :: "int_error_kind \<Rightarrow> string" where
  "int_error_text EmptyInt = ''cannot parse integer from empty string''"
| "int_error_text InvalidDigit = ''invalid digit found in string''"
| "int_error_text PosOverflow = ''number too large to fit in target type''"

lemma byte_val_digit: "d < 10 \<Longrightarrow> byte_val (digit_char d) = 48 + d"
  by (simp add: byte_val_def digit_char_def)

lemma is_digit_digit_char [simp]: "d < 10 \<Longrightarrow> is_digit (digit_char d)"
  by (simp add: is_digit_def byte_val_digit)

lemma dec_nat_digits: "\<forall>c \<in> set (dec_nat n). is_digit c"
proof (induction n rule: dec_nat.induct)
  case (1 n)
  then show ?case by (subst dec_nat.simps) auto
qed

lemma dec_nat_nonempty [simp]: "dec_nat n \<noteq> []"
  by (subst dec_nat.simps) simp

lemma parse_digits_append:
  "parse_digits m a (xs @ ys) = andThen (parse_digits m a xs) (\<lambda>b. parse_digits m b ys)"
  by (induction m a xs rule: parse_digits.induct) auto

lemma parse_digits_dec_nat: "n \<le> m \<Longrightarrow> parse_digits m 0 (dec_nat n) = Inr n"
proof (induction n rule: dec_nat.induct)
  case (1 n)
  show ?case
  proof (cases "n < 10")
    case True
    with 1 show ?thesis by (subst dec_nat.simps) (simp add: byte_val_digit)
  next
    case False
    with 1 have "parse_digits m 0 (dec_nat (n div 10)) = Inr (n div 10)" by simp
    with False 1 show ?thesis
      by (subst dec_nat.simps) (simp add: parse_digits_append byte_val_digit)
  qed
qed

lemma dec_nat_no_sign: "hd (dec_nat n) \<noteq> CHR ''+''" "hd (dec_nat n) \<noteq> CHR ''-''"
proof -
  have "is_digit (hd (dec_nat n))" using dec_nat_digits [of n] by (simp add: hd_in_set)
  then show "hd (dec_nat n) \<noteq> CHR ''+''" "hd (dec_nat n) \<noteq> CHR ''-''"
    by (auto simp: is_digit_def byte_val_def)
qed

lemma parse_unsigned_dec_nat: "n \<le> m \<Longrightarrow> parse_unsigned m (dec_nat n) = Inr n"
  using parse_digits_dec_nat [of n m] dec_nat_no_sign [of n]
  by (cases "dec_nat n") (auto simp: parse_unsigned_def)

lemma dec_nat_inject [simp]: "dec_nat m = dec_nat n \<longleftrightarrow> m = n"
proof
  assume eq: "dec_nat m = dec_nat n"
  have "parse_digits (max m n) 0 (dec_nat m) = Inr m" by (rule parse_digits_dec_nat) simp
  moreover have "parse_digits (max m n) 0 (dec_nat n) = Inr n" by (rule parse_digits_dec_nat) simp
  ultimately have "(Inr m :: int_error_kind + nat) = Inr n" unfolding eq by (rule subst)
  then show "m = n" by simp
qed simp

lemma parse_digits_bound: "parse_digits m a s = Inr n \<Longrightarrow> a \<le> m \<Longrightarrow> n \<le> m"
  by (induction m a s rule: parse_digits.induct) (auto split: if_splits)

lemma parse_unsigned_bound: "parse_unsigned m s = Inr n \<Longrightarrow> n \<le> m"
  by (auto simp: parse_unsigned_def split: list.splits if_splits dest: parse_digits_bound)

lemma dec_nat_ascii: "\<forall>c \<in> set (dec_nat n). byte_val c < 128"
  using dec_nat_digits [of n] by (auto simp: is_digit_def)

lemma ascii_dec_nat [simp]: "ascii (dec_nat n)"
  by (simp add: ascii_def dec_nat_ascii)

lemma valid_utf8_dec_nat [simp]: "valid_utf8 (dec_nat n)"
  by (rule ascii_valid) simp

section \<open>White space, case, NUL\<close>

text \<open>The UTF-8 encodings of the characters with the Unicode property White_Space.\<close>

definition is_space :: "byte list \<Rightarrow> bool" where
  "is_space cs =
     (case map byte_val cs of
        [a] \<Rightarrow> (0x09 \<le> a \<and> a \<le> 0x0D) \<or> a = 0x20
      | [a, b] \<Rightarrow> a = 0xC2 \<and> (b = 0x85 \<or> b = 0xA0)
      | [a, b, c] \<Rightarrow>
          (a = 0xE1 \<and> b = 0x9A \<and> c = 0x80) \<or>
          (a = 0xE2 \<and> b = 0x80 \<and> (c \<le> 0x8A \<and> 0x80 \<le> c \<or> c = 0xA8 \<or> c = 0xA9 \<or> c = 0xAF)) \<or>
          (a = 0xE2 \<and> b = 0x81 \<and> c = 0x9F) \<or> (a = 0xE3 \<and> b = 0x80 \<and> c = 0x80)
      | _ \<Rightarrow> False)"

definition first_space :: "(byte list \<Rightarrow> bool) \<Rightarrow> byte list \<Rightarrow> nat" where
  "first_space P s = (if P (take 1 s) then 1 else if P (take 2 s) then 2
     else if P (take 3 s) then 3 else 0)"

text \<open>Drop the characters in \<open>P\<close> from the front of the text.\<close>

function strip :: "(byte list \<Rightarrow> bool) \<Rightarrow> byte list \<Rightarrow> byte list" where
  "strip P s = (if s = [] \<or> first_space P s = 0 then s else strip P (drop (first_space P s) s))"
  by pat_completeness auto
termination
  by (relation "measure (\<lambda>(P, s). length s)") (auto simp: first_space_def)

declare strip.simps [simp del]

definition trim_start :: "string \<Rightarrow> string" where
  "trim_start s = strip is_space s"

definition trim_end :: "string \<Rightarrow> string" where
  "trim_end s = rev (strip (is_space \<circ> rev) (rev s))"

definition trim :: "string \<Rightarrow> string" where
  "trim s = trim_end (trim_start s)"

definition to_lower :: "byte \<Rightarrow> byte" where
  "to_lower c = (if 65 \<le> byte_val c \<and> byte_val c \<le> 90 then char_of (byte_val c + 32) else c)"

definition to_ascii_lowercase :: "string \<Rightarrow> string" where
  "to_ascii_lowercase s = map to_lower s"

text \<open>\<open>CString::new\<close>: the text, or the position of its first NUL byte.\<close>

definition cstring_new :: "string \<Rightarrow> nat + string" where
  "cstring_new s = (case position (\<lambda>c. c = CHR 0x00) s of None \<Rightarrow> Inr s | Some i \<Rightarrow> Inl i)"

definition ends_with :: "string \<Rightarrow> string \<Rightarrow> bool" where
  "ends_with s suf \<longleftrightarrow> length suf \<le> length s \<and> drop (length s - length suf) s = suf"

definition no_nul :: "string \<Rightarrow> bool" where
  "no_nul s \<longleftrightarrow> CHR 0x00 \<notin> set s"

lemma cstring_new_Inr [simp]: "cstring_new s = Inr t \<longleftrightarrow> t = s \<and> no_nul s"
  by (auto simp: cstring_new_def no_nul_def position_def)

lemma cstring_new_nul: "\<not> no_nul s \<Longrightarrow> \<exists>i. cstring_new s = Inl i"
  by (cases "cstring_new s") auto

lemma cstring_new_no_nul: "no_nul s \<Longrightarrow> cstring_new s = Inr s"
  by simp

lemma no_nul_simps [simp]:
  "no_nul []" "no_nul (c # s) \<longleftrightarrow> c \<noteq> CHR 0x00 \<and> no_nul s"
  "no_nul (s @ t) \<longleftrightarrow> no_nul s \<and> no_nul t"
  by (auto simp: no_nul_def)

lemma no_nul_dec_nat [simp]: "no_nul (dec_nat n)"
  using dec_nat_digits [of n] by (auto simp: no_nul_def is_digit_def byte_val_def)

lemma strip_Nil [simp]: "strip P [] = []"
  by (simp add: strip.simps)

lemma strip_stuck: "first_space P s = 0 \<Longrightarrow> strip P s = s"
  by (subst strip.simps) simp

lemma strip_Cons_space: "P [c] \<Longrightarrow> strip P (c # s) = strip P s"
  by (subst strip.simps) (simp add: first_space_def)

lemma first_space_append:
  assumes "s \<noteq> []" and "\<And>t. 2 \<le> length t \<Longrightarrow> last t = c \<Longrightarrow> \<not> P t"
  shows "first_space P (s @ [c]) = (if first_space P s \<le> length s then first_space P s else 0)"
    and "first_space P s \<le> length s"
proof -
  have long: "\<not> P (take k (s @ [c]))" if "length s < k" for k
    using that assms(1) by (intro assms(2)) (auto simp: Suc_le_eq neq_Nil_conv)
  have short: "take k (s @ [c]) = take k s" if "k \<le> length s" for k using that by simp
  have one: "1 \<le> length s" using assms(1) by (simp add: Suc_le_eq)
  show le: "first_space P s \<le> length s"
  proof (rule ccontr)
    assume "\<not> first_space P s \<le> length s"
    with one have "\<not> P (take 1 s)" "length s = 1 \<or> length s = 2" "P s"
      "length s = 2 \<longrightarrow> \<not> P (take 2 s)"
      by (auto simp: first_space_def split: if_splits)
    then show False by auto
  qed
  show "first_space P (s @ [c]) = (if first_space P s \<le> length s then first_space P s else 0)"
    using le long [of 2] long [of 3] short [of 1] short [of 2] short [of 3] one
    unfolding first_space_def by (cases "length s = 1"; cases "length s = 2") (auto split: if_splits)
qed

lemma strip_append_space:
  assumes "P [c]" and long: "\<And>t. 2 \<le> length t \<Longrightarrow> last t = c \<Longrightarrow> \<not> P t"
  shows "strip P (s @ [c]) = (if strip P s = [] then [] else strip P s @ [c])"
  using assms
proof (induction P s rule: strip.induct)
  case (1 P s)
  show ?case
  proof (cases "s = [] \<or> first_space P s = 0")
    case True
    then show ?thesis
      using 1(2) first_space_append(1) [OF _ 1(3), of s]
      by (auto simp: strip_Cons_space strip_stuck)
  next
    case False
    then have ne: "s \<noteq> []" and k: "first_space P s \<noteq> 0" by simp_all
    note le = first_space_append(2) [OF ne 1(3)]
    have "strip P (s @ [c]) = strip P (drop (first_space P s) (s @ [c]))"
      using k le first_space_append(1) [OF ne 1(3)] by (subst strip.simps) simp
    moreover have "strip P s = strip P (drop (first_space P s) s)"
      using ne k by (subst strip.simps) simp
    moreover have "strip P (drop (first_space P s) s @ [c]) =
        (if strip P (drop (first_space P s) s) = [] then [] else strip P (drop (first_space P s) s) @ [c])"
      using False 1(2,3) by (intro 1(1)) simp_all
    ultimately show ?thesis using le by simp
  qed
qed

text \<open>An ASCII white-space byte is never part of a longer white-space character.\<close>

lemma is_space_ascii:
  assumes "byte_val c < 128"
  shows "2 \<le> length t \<Longrightarrow> last t = c \<Longrightarrow> \<not> is_space t"
    and "2 \<le> length t \<Longrightarrow> last t = c \<Longrightarrow> \<not> (is_space \<circ> rev) t"
  using assms by (auto simp: is_space_def rev_map last_map split: list.splits)

lemma trim_space_left: "byte_val c < 128 \<Longrightarrow> is_space [c] \<Longrightarrow> trim (c # s) = trim s"
  by (simp add: trim_def trim_start_def strip_Cons_space)

lemma trim_space_right:
  assumes "byte_val c < 128" "is_space [c]"
  shows "trim (s @ [c]) = trim s"
  using assms strip_append_space [of is_space c s, OF _ is_space_ascii(1)]
  by (auto simp: trim_def trim_start_def trim_end_def strip_Cons_space)

lemma to_lower_idem [simp]: "to_lower (to_lower c) = to_lower c"
  by (auto simp: to_lower_def byte_val_def)

lemma to_ascii_lowercase_idem [simp]:
  "to_ascii_lowercase (to_ascii_lowercase s) = to_ascii_lowercase s"
  by (simp add: to_ascii_lowercase_def)

text \<open>Lower-case ASCII letters are left alone.\<close>

definition lower_alpha :: "string \<Rightarrow> bool" where
  "lower_alpha s \<longleftrightarrow> (\<forall>c \<in> set s. 97 \<le> byte_val c \<and> byte_val c \<le> 122)"

lemma is_space_hd: "is_space t \<Longrightarrow> t \<noteq> [] \<and> (byte_val (hd t) \<le> 32 \<or> 128 \<le> byte_val (hd t))"
  by (cases t) (auto simp: is_space_def split: list.splits)

lemma not_space_lower_alpha: "lower_alpha t \<Longrightarrow> \<not> is_space t"
proof
  assume t: "lower_alpha t" "is_space t"
  then have "hd t \<in> set t" using is_space_hd by (intro hd_in_set) blast
  with t(1) have "97 \<le> byte_val (hd t)" "byte_val (hd t) \<le> 122"
    unfolding lower_alpha_def by blast+
  with t(2) is_space_hd [of t] show False by linarith
qed

lemma lower_alpha_not_space:
  assumes "lower_alpha s"
  shows "\<not> is_space (take k s)" and "\<not> is_space (rev (take k (rev s)))"
proof -
  have "lower_alpha (take k s)" and "lower_alpha (rev (take k (rev s)))"
    using assms set_take_subset [of k s] set_take_subset [of k "rev s"]
    unfolding lower_alpha_def by auto
  then show "\<not> is_space (take k s)" "\<not> is_space (rev (take k (rev s)))"
    by (simp_all add: not_space_lower_alpha)
qed

lemma trim_lower_alpha: "lower_alpha s \<Longrightarrow> trim s = s"
  using lower_alpha_not_space [of s]
  by (simp add: trim_def trim_start_def trim_end_def strip_stuck first_space_def)

lemma to_ascii_lowercase_lower_alpha: "lower_alpha s \<Longrightarrow> to_ascii_lowercase s = s"
  by (auto simp: lower_alpha_def to_ascii_lowercase_def to_lower_def intro!: map_idI)

text \<open>The text of a \<open>Utf8Error\<close> and of a \<open>NulError\<close>.\<close>

definition utf8_error_text :: "nat \<times> nat option \<Rightarrow> string" where
  "utf8_error_text e = (case e of
       (up_to, Some n) \<Rightarrow> ''invalid utf-8 sequence of '' @ dec_nat n @ '' bytes from index '' @ dec_nat up_to
     | (up_to, None) \<Rightarrow> ''incomplete utf-8 byte sequence from index '' @ dec_nat up_to)"

definition nul_error_text :: "nat \<Rightarrow> string" where
  "nul_error_text i = ''nul byte found in provided data at position: '' @ dec_nat i"

text \<open>\<open>str::from_utf8\<close>.\<close>

definition from_utf8 :: "byte list \<Rightarrow> (nat \<times> nat option) + string" where
  "from_utf8 bs = (case utf8_check 0 bs of None \<Rightarrow> Inr bs | Some e \<Rightarrow> Inl e)"

lemma from_utf8_Inr [simp]: "from_utf8 bs = Inr s \<longleftrightarrow> s = bs \<and> valid_utf8 bs"
  by (auto simp: from_utf8_def valid_utf8_def split: option.splits)

end
