(* ===== verification/Abi.thy ===== *)
theory Abi
  imports Rust_Text
begin

text \<open>
  The C ABI between the extension and a runtime provider
  (\<open>crates/duckflight-extension-abi/src/lib.rs\<close>): status and protocol numbers, borrowed
  byte ranges, the caller-owned output buffer, the creation options and the table of
  entry points, with the \<open>repr(C)\<close> layout their sizes come from (64-bit pointers, as on
  every supported platform).

  A pointer is an option, \<open>None\<close> for null. A pointer the callee may write through is an
  option of the cell it points to, passed in and returned. A foreign call is a
  \<open>foreign\<close> tree: what the provider can do is call the callback it was given, see the
  status the callback returns, and in the end return; a model that handed the provider
  the callback's context would allow more than the ABI does.
\<close>

section \<open>Layout of repr(C) structures\<close>

definition align_up :: "nat \<Rightarrow> nat \<Rightarrow> nat" where
  "align_up a n = (n + a - 1) div a * a"

text \<open>Fields are given as pairs of size and alignment.\<close>

fun field_offsets :: "nat \<Rightarrow> (nat \<times> nat) list \<Rightarrow> nat list" where
  "field_offsets pos [] = []"
| "field_offsets pos ((sz, a) # fs) = align_up a pos # field_offsets (align_up a pos + sz) fs"

fun fields_end :: "nat \<Rightarrow> (nat \<times> nat) list \<Rightarrow> nat" where
  "fields_end pos [] = pos"
| "fields_end pos ((sz, a) # fs) = fields_end (align_up a pos + sz) fs"

definition struct_align :: "(nat \<times> nat) list \<Rightarrow> nat" where
  "struct_align fs = foldr (\<lambda>f m. max (snd f) m) fs 1"

definition struct_bytes :: "(nat \<times> nat) list \<Rightarrow> nat" where
  "struct_bytes fs = align_up (struct_align fs) (fields_end 0 fs)"

abbreviation "u32_field \<equiv> (4::nat, 4::nat)"
abbreviation "pointer_field \<equiv> (8::nat, 8::nat)"

section \<open>Status and protocol numbers\<close>

definition DUCKFLIGHT_CORE_ABI_V1 :: u32 where "DUCKFLIGHT_CORE_ABI_V1 = 1"

definition DUCKFLIGHT_CORE_API_SYMBOL_V1 :: "byte list" where
  "DUCKFLIGHT_CORE_API_SYMBOL_V1 = ''duckflight_core_api_v1'' @ [CHR 0x00]"

type_synonym status = i32
type_synonym abi_protocol = u32
type_synonym pointer = "nat option"
type_synonym core_handle = pointer

definition OK :: status where "OK = 0"
definition INVALID_ARGUMENT :: status where "INVALID_ARGUMENT = 1"
definition ABI_MISMATCH :: status where "ABI_MISMATCH = 2"
definition BUFFER_TOO_SMALL :: status where "BUFFER_TOO_SMALL = 3"
definition NOT_FOUND :: status where "NOT_FOUND = 4"
definition INTERNAL :: status where "INTERNAL = 5"

definition status_is_ok :: "status \<Rightarrow> bool" where
  "status_is_ok s \<longleftrightarrow> s = OK"

definition PGWIRE :: abi_protocol where "PGWIRE = 1"
definition FLIGHT_SQL :: abi_protocol where "FLIGHT_SQL = 2"
definition HTTP :: abi_protocol where "HTTP = 3"
definition QUACK :: abi_protocol where "QUACK = 4"

lemmas status_defs = OK_def INVALID_ARGUMENT_def ABI_MISMATCH_def BUFFER_TOO_SMALL_def
  NOT_FOUND_def INTERNAL_def
lemmas protocol_defs = PGWIRE_def FLIGHT_SQL_def HTTP_def QUACK_def

lemma status_is_ok_values [simp]:
  "status_is_ok OK" "\<not> status_is_ok INVALID_ARGUMENT" "\<not> status_is_ok ABI_MISMATCH"
  "\<not> status_is_ok BUFFER_TOO_SMALL" "\<not> status_is_ok NOT_FOUND" "\<not> status_is_ok INTERNAL"
  by (simp_all add: status_is_ok_def status_defs)

lemma protocol_values_distinct [simp]:
  "PGWIRE \<noteq> FLIGHT_SQL" "PGWIRE \<noteq> HTTP" "PGWIRE \<noteq> QUACK"
  "FLIGHT_SQL \<noteq> PGWIRE" "FLIGHT_SQL \<noteq> HTTP" "FLIGHT_SQL \<noteq> QUACK"
  "HTTP \<noteq> PGWIRE" "HTTP \<noteq> FLIGHT_SQL" "HTTP \<noteq> QUACK"
  "QUACK \<noteq> PGWIRE" "QUACK \<noteq> FLIGHT_SQL" "QUACK \<noteq> HTTP"
  by (simp_all add: protocol_defs)

section \<open>Borrowed bytes and output buffers\<close>

text \<open>
  \<open>bv_data\<close> holds the memory readable from the pointer on. A value is well formed when that
  memory covers \<open>bv_len\<close> bytes, which every sender owes its receiver.
\<close>

record bytes_v1 =
  bv_data :: "byte list option"
  bv_len :: nat

definition EMPTY :: bytes_v1 where
  "EMPTY = \<lparr>bv_data = None, bv_len = 0\<rparr>"

definition bytes_from_utf8 :: "string \<Rightarrow> bytes_v1" where
  "bytes_from_utf8 value = \<lparr>bv_data = Some value, bv_len = length value\<rparr>"

definition bytes_ok :: "bytes_v1 \<Rightarrow> bool" where
  "bytes_ok b \<longleftrightarrow> (case bv_data b of None \<Rightarrow> True | Some m \<Rightarrow> bv_len b \<le> length m)"

record output_buffer =
  ob_data :: "byte list option"
  ob_capacity :: nat
  ob_required :: "nat option"

section \<open>Creation options\<close>

record create_options =
  co_struct_size :: u32
  co_abi_version :: u32
  co_extension_info :: pointer
  co_extension_access :: pointer
  co_pool_size :: u32
  co_reserved :: u32

definition size_of_create_options :: nat where
  "size_of_create_options = struct_bytes
     [u32_field, u32_field, pointer_field, pointer_field, u32_field, u32_field]"

definition create_options_new :: "pointer \<Rightarrow> pointer \<Rightarrow> u32 \<Rightarrow> create_options" where
  "create_options_new extension_info extension_access pool_size =
     \<lparr>co_struct_size = of_nat size_of_create_options,
      co_abi_version = DUCKFLIGHT_CORE_ABI_V1,
      co_extension_info = extension_info,
      co_extension_access = extension_access,
      co_pool_size = pool_size,
      co_reserved = 0\<rparr>"

section \<open>Foreign calls\<close>

datatype ('v, 'r) foreign = Return 'r | Callback 'v "status \<Rightarrow> ('v, 'r) foreign"

text \<open>Run a foreign call with the caller's callback over the caller's context.\<close>

primrec run_foreign :: "('v, 'r) foreign \<Rightarrow> ('v \<Rightarrow> 'c \<Rightarrow> status \<times> 'c) \<Rightarrow> 'c \<Rightarrow> 'r \<times> 'c" where
  "run_foreign (Return r) f c = (r, c)"
| "run_foreign (Callback v k) f c = (case f v c of (s, c') \<Rightarrow> run_foreign (k s) f c')"

text \<open>What a callback keeps of its context holds when the call is over.\<close>

lemma run_foreign_keeps:
  assumes "P c" and "\<And>v c. P c \<Longrightarrow> P (snd (f v c))"
  shows "P (snd (run_foreign t f c))"
  using assms(1)
proof (induction t arbitrary: c)
  case (Callback v k)
  then show ?case using assms(2) [of c v] by (auto split: prod.splits)
qed simp

section \<open>The table of entry points\<close>

text \<open>
  \<open>'p\<close> is the state the provider keeps behind its handles. \<open>api_extent\<close> is the number of
  bytes readable at the table's address: a field may be read only when it lies within.
\<close>

type_synonym 'p create_fn =
  "create_options option \<Rightarrow> core_handle option \<Rightarrow> output_buffer option \<Rightarrow> 'p \<Rightarrow>
   status \<times> core_handle option \<times> output_buffer option \<times> 'p"
type_synonym 'p destroy_fn = "core_handle \<Rightarrow> 'p \<Rightarrow> 'p"
type_synonym 'p start_fn =
  "core_handle \<Rightarrow> abi_protocol \<Rightarrow> bytes_v1 \<Rightarrow> bytes_v1 \<Rightarrow> bool \<Rightarrow> output_buffer option \<Rightarrow> 'p \<Rightarrow>
   (bytes_v1, status \<times> output_buffer option \<times> 'p) foreign"
type_synonym 'p stop_fn =
  "core_handle \<Rightarrow> abi_protocol \<Rightarrow> bytes_v1 \<Rightarrow> bool option \<Rightarrow> output_buffer option \<Rightarrow> 'p \<Rightarrow>
   status \<times> bool option \<times> output_buffer option \<times> 'p"
type_synonym 'p list_fn =
  "core_handle \<Rightarrow> bool \<Rightarrow> output_buffer option \<Rightarrow> 'p \<Rightarrow>
   (abi_protocol \<times> bytes_v1, status \<times> output_buffer option \<times> 'p) foreign"

record 'p core_api =
  api_extent :: nat
  api_struct_size :: u32
  api_abi_version :: u32
  api_create :: "'p create_fn option"
  api_destroy :: "'p destroy_fn option"
  api_start :: "'p start_fn option"
  api_stop :: "'p stop_fn option"
  api_list :: "'p list_fn option"

definition core_api_fields :: "(nat \<times> nat) list" where
  "core_api_fields = [u32_field, u32_field, pointer_field, pointer_field, pointer_field,
     pointer_field, pointer_field]"

definition size_of_core_api :: nat where
  "size_of_core_api = struct_bytes core_api_fields"

definition offset_of_abi_version :: nat where
  "offset_of_abi_version = field_offsets 0 core_api_fields ! 1"

lemma abi_sizes [simp]:
  "size_of_create_options = 32" "size_of_core_api = 48" "offset_of_abi_version = 4"
  by (simp_all add: size_of_create_options_def size_of_core_api_def offset_of_abi_version_def
      core_api_fields_def struct_bytes_def struct_align_def align_up_def)

text \<open>A borrowed view made from a string is well formed and names exactly its bytes.\<close>

lemma bytes_from_utf8_simps [simp]:
  "bytes_ok (bytes_from_utf8 s)" "bv_len (bytes_from_utf8 s) = length s"
  "bv_data (bytes_from_utf8 s) = Some s"
  by (simp_all add: bytes_from_utf8_def bytes_ok_def)

end
