(* ===== verification/Protocol.thy ===== *)
theory Protocol
  imports Abi
begin

text \<open>
  The \<open>Protocol\<close> enum of \<open>src/lib.rs\<close> with its name and its parser, its numbers at the
  ABI (\<open>abi_protocol\<close>, \<open>protocol_name\<close> of \<open>src/dynamic_core.rs\<close>), and the boxed errors
  the extension passes around. The lemmas show that names, numbers and the parser agree,
  and that the parser ignores letter case and surrounding ASCII white space.
\<close>

section \<open>Errors\<close>

text \<open>
  A \<open>Box<dyn Error>\<close> is one of the error types the code boxes: its own
  \<open>DynamicCoreError\<close>, a formatted string, or the \<open>NulError\<close> of \<open>CString::new\<close>.
  \<open>Panic\<close> is not an error value of the code: it marks the branches where it panics (an
  \<open>unwrap\<close> of \<open>None\<close>), which unwind through every caller as an unhandled error does.
\<close>

datatype box_error = DynamicCoreError string | StringError string | NulError nat | Panic string

fun error_text :: "box_error \<Rightarrow> string" where
  "error_text (DynamicCoreError s) = s"
| "error_text (StringError s) = s"
| "error_text (NulError i) = nul_error_text i"
| "error_text (Panic s) = s"

section \<open>The protocol enum\<close>

datatype protocol = PgWire | FlightSql | Http | Quack

instantiation protocol :: enum
begin

definition enum_protocol :: "protocol list" where
  "enum_protocol = [PgWire, FlightSql, Http, Quack]"

definition enum_all_protocol :: "(protocol \<Rightarrow> bool) \<Rightarrow> bool" where
  "enum_all_protocol P \<longleftrightarrow> P PgWire \<and> P FlightSql \<and> P Http \<and> P Quack"

definition enum_ex_protocol :: "(protocol \<Rightarrow> bool) \<Rightarrow> bool" where
  "enum_ex_protocol P \<longleftrightarrow> P PgWire \<or> P FlightSql \<or> P Http \<or> P Quack"

instance
proof
  have all: "p \<in> set (enum_class.enum :: protocol list)" for p by (cases p) (simp_all add: enum_protocol_def)
  then show "UNIV = set (enum_class.enum :: protocol list)" by auto
  show "distinct (enum_class.enum :: protocol list)" by (simp add: enum_protocol_def)
  show "enum_class.enum_all P \<longleftrightarrow> Ball UNIV P" for P :: "protocol \<Rightarrow> bool"
    unfolding enum_all_protocol_def by (metis UNIV_I protocol.exhaust)
  show "enum_class.enum_ex P \<longleftrightarrow> Bex UNIV P" for P :: "protocol \<Rightarrow> bool"
    unfolding enum_ex_protocol_def by (metis UNIV_I protocol.exhaust)
qed

end

fun as_str :: "protocol \<Rightarrow> string" where
  "as_str PgWire = ''pgwire''"
| "as_str FlightSql = ''flight''"
| "as_str Http = ''http''"
| "as_str Quack = ''quack''"

definition protocol_parse :: "string \<Rightarrow> box_error + protocol" where
  "protocol_parse raw =
     (let s = to_ascii_lowercase (trim raw) in
      if s = ''pgwire'' \<or> s = ''postgres'' \<or> s = ''postgresql'' then Inr PgWire
      else if s = ''flight'' then Inr FlightSql
      else if s = ''http'' then Inr Http
      else if s = ''quack'' then Inr Quack
      else Inl (StringError (''unsupported DuckFlight extension protocol: '' @ s)))"

fun abi_protocol :: "protocol \<Rightarrow> abi_protocol" where
  "abi_protocol PgWire = PGWIRE"
| "abi_protocol FlightSql = FLIGHT_SQL"
| "abi_protocol Http = HTTP"
| "abi_protocol Quack = QUACK"

definition protocol_name :: "abi_protocol \<Rightarrow> string + string" where
  "protocol_name p =
     (if p = PGWIRE then Inr ''pgwire''
      else if p = FLIGHT_SQL then Inr ''flight''
      else if p = HTTP then Inr ''http''
      else if p = QUACK then Inr ''quack''
      else Inl (''runtime returned unsupported protocol '' @ dec_nat (unat p)))"

section \<open>Their agreement\<close>

lemma protocol_name_abi [simp]: "protocol_name (abi_protocol p) = Inr (as_str p)"
  by (cases p) (simp_all add: protocol_name_def)

lemma protocol_name_Inr: "protocol_name n = Inr s \<longleftrightarrow> (\<exists>p. n = abi_protocol p \<and> s = as_str p)"
proof
  assume "protocol_name n = Inr s"
  then have "n = abi_protocol PgWire \<and> s = as_str PgWire \<or>
      n = abi_protocol FlightSql \<and> s = as_str FlightSql \<or>
      n = abi_protocol Http \<and> s = as_str Http \<or> n = abi_protocol Quack \<and> s = as_str Quack"
    by (auto simp: protocol_name_def split: if_splits)
  then show "\<exists>p. n = abi_protocol p \<and> s = as_str p" by blast
qed auto

lemma abi_protocol_inject [simp]: "abi_protocol p = abi_protocol q \<longleftrightarrow> p = q"
  by (cases p; cases q) simp_all

lemma as_str_inject [simp]: "as_str p = as_str q \<longleftrightarrow> p = q"
  by (cases p; cases q) simp_all

lemma as_str_text [simp]: "valid_utf8 (as_str p)" "no_nul (as_str p)" "as_str p \<noteq> []"
  by (cases p; simp add: valid_utf8_Cons utf8_next_def byte_val_def)+

lemma lower_alpha_as_str: "lower_alpha (as_str p)"
  by (cases p) (simp_all add: lower_alpha_def)

lemma protocol_parse_as_str: "protocol_parse (as_str p) = Inr p"
  using lower_alpha_as_str [of p]
  by (cases p) (simp_all add: protocol_parse_def trim_lower_alpha to_ascii_lowercase_lower_alpha)

lemma protocol_parse_space:
  assumes "byte_val c < 128" "is_space [c]"
  shows "protocol_parse (c # s) = protocol_parse s" and "protocol_parse (s @ [c]) = protocol_parse s"
  using assms by (simp_all add: protocol_parse_def trim_space_left trim_space_right)

lemma protocol_parse_Inr:
  "protocol_parse s = Inr p \<longleftrightarrow>
     to_ascii_lowercase (trim s) \<in>
       (case p of PgWire \<Rightarrow> {''pgwire'', ''postgres'', ''postgresql''}
        | FlightSql \<Rightarrow> {''flight''} | Http \<Rightarrow> {''http''} | Quack \<Rightarrow> {''quack''})"
  by (cases p) (auto simp: protocol_parse_def Let_def split: if_splits)

end
