(* ===== verification/Diagnostics.thy ===== *)
theory Diagnostics
  imports Protocol
begin

text \<open>
  How \<open>src/dynamic_core.rs\<close> reads what a provider hands back: \<open>borrowed_string\<close>, the
  \<open>ErrorBuffer\<close> a diagnostic is written into and \<open>check_status\<close>, which turns a status
  and that buffer into an error. The lemmas cover every branch and show that no byte
  outside the reported diagnostic reaches the message.
\<close>

definition ERROR_CAPACITY :: nat where "ERROR_CAPACITY = 4096"

text \<open>
  \<open>slice::from_raw_parts\<close> reads \<open>len\<close> bytes from the pointer; for a well-formed value
  (\<open>bytes_ok\<close>) that is the prefix of its memory. Reading past it is undefined behaviour.
\<close>

definition borrowed_string :: "bytes_v1 \<Rightarrow> string + string" where
  "borrowed_string value =
     (if bv_len value = 0 then Inr []
      else case bv_data value of
             None \<Rightarrow> Inl ''runtime returned a null string pointer''
           | Some m \<Rightarrow>
               map_err (\<lambda>e. ''runtime returned invalid UTF-8: '' @ utf8_error_text e)
                 (from_utf8 (take (bv_len value) m)))"

record error_buffer =
  eb_bytes :: "byte list"
  eb_required :: nat

definition error_buffer_new :: error_buffer where
  "error_buffer_new = \<lparr>eb_bytes = replicate ERROR_CAPACITY (CHR 0x00), eb_required = 0\<rparr>"

text \<open>\<open>as_ffi\<close> points the foreign view at the buffer's own fields.\<close>

definition as_ffi :: "error_buffer \<Rightarrow> output_buffer" where
  "as_ffi eb = \<lparr>ob_data = Some (eb_bytes eb), ob_capacity = ERROR_CAPACITY,
                ob_required = Some (eb_required eb)\<rparr>"

text \<open>The same fields after a foreign call wrote through that view.\<close>

definition from_ffi :: "error_buffer \<Rightarrow> output_buffer option \<Rightarrow> error_buffer" where
  "from_ffi eb out = (case out of None \<Rightarrow> eb
     | Some ob \<Rightarrow> \<lparr>eb_bytes = (case ob_data ob of None \<Rightarrow> eb_bytes eb | Some m \<Rightarrow> m),
                   eb_required = (case ob_required ob of None \<Rightarrow> eb_required eb | Some n \<Rightarrow> n)\<rparr>)"

definition message :: "error_buffer \<Rightarrow> string option" where
  "message eb =
     (if length (eb_bytes eb) < eb_required eb then None
      else Some (from_utf8_lossy (take (eb_required eb) (eb_bytes eb))))"

definition status_text :: "status \<Rightarrow> string" where
  "status_text s = dec_int (sint s)"

definition status_detail :: "status \<Rightarrow> error_buffer \<Rightarrow> string" where
  "status_detail status error =
     (case message error of
        None \<Rightarrow> ''DuckFlight runtime failed with status '' @ status_text status @
                ''; diagnostic requires '' @ dec_nat (eb_required error) @
                '' bytes (buffer capacity '' @ dec_nat (length (eb_bytes error)) @ '')''
      | Some m \<Rightarrow>
          if m = [] then ''DuckFlight runtime failed with status '' @ status_text status else m)"

definition check_status :: "status \<Rightarrow> error_buffer \<Rightarrow> box_error + unit" where
  "check_status status error =
     (if status_is_ok status then Inr () else Inl (DynamicCoreError (status_detail status error)))"

section \<open>Lemmas\<close>

lemma borrowed_string_from_utf8 [simp]: "valid_utf8 s \<Longrightarrow> borrowed_string (bytes_from_utf8 s) = Inr s"
  by (simp add: borrowed_string_def)

lemma borrowed_string_EMPTY [simp]: "borrowed_string EMPTY = Inr []"
  by (simp add: borrowed_string_def EMPTY_def)

lemma borrowed_string_valid: "borrowed_string b = Inr s \<Longrightarrow> valid_utf8 s"
  by (auto simp: borrowed_string_def split: if_splits option.splits)

lemma borrowed_string_Inr:
  "borrowed_string b = Inr s \<longleftrightarrow>
     (if bv_len b = 0 then s = []
      else \<exists>m. bv_data b = Some m \<and> s = take (bv_len b) m \<and> valid_utf8 s)"
  by (auto simp: borrowed_string_def split: option.splits)

lemma check_status_Inr [simp]: "check_status s eb = Inr u \<longleftrightarrow> status_is_ok s"
  by (simp add: check_status_def)

lemma check_status_ok [simp]: "status_is_ok s \<Longrightarrow> check_status s eb = Inr ()"
  by (simp add: check_status_def)

lemma message_new [simp]: "message error_buffer_new = Some []"
  by (simp add: message_def error_buffer_new_def)

lemma length_new [simp]: "length (eb_bytes error_buffer_new) = ERROR_CAPACITY"
  by (simp add: error_buffer_new_def)

text \<open>Only the first \<open>required\<close> bytes of the buffer matter.\<close>

lemma status_detail_cong:
  assumes "eb_required a = eb_required b" "length (eb_bytes a) = length (eb_bytes b)"
    and "take (eb_required a) (eb_bytes a) = take (eb_required a) (eb_bytes b) \<or>
         length (eb_bytes a) < eb_required a"
  shows "status_detail s a = status_detail s b"
  using assms by (auto simp: status_detail_def message_def)

lemma ascii_status_text [simp]: "ascii (status_text s)"
  by (simp add: status_text_def dec_int_def)

lemma status_detail_valid: "valid_utf8 (status_detail s eb)"
  by (auto simp: status_detail_def message_def from_utf8_lossy_valid
      intro!: ascii_valid split: option.splits)

end
