(* ===== verification/Bundle.thy ===== *)
theory Bundle
  imports Diagnostics
begin

text \<open>
  The backing file of the embedded core (\<open>prepare_bundle\<close> and \<open>load_bundle\<close> of
  \<open>src/dynamic_core.rs\<close>): the memory file of Linux, and last the temporary file of other
  systems. The kernel and the dynamic loader are parameters: a record of
  system calls over their state \<open>'o\<close>. Dropping a Rust value is explicit: each function
  also returns the list of resources its early returns release, in order.
\<close>

type_synonym fd = nat
type_synonym errno = nat

record 'o kernel =
  memfd_create :: "string \<Rightarrow> u32 \<Rightarrow> 'o \<Rightarrow> (errno + fd) \<times> 'o"
  write_all :: "fd \<Rightarrow> byte list \<Rightarrow> 'o \<Rightarrow> (errno + unit) \<times> 'o"
  flush :: "fd \<Rightarrow> 'o \<Rightarrow> (errno + unit) \<times> 'o"
  add_seals :: "fd \<Rightarrow> u32 \<Rightarrow> 'o \<Rightarrow> (errno + unit) \<times> 'o"
  os_error_text :: "errno \<Rightarrow> string"

text \<open>A loaded library: its identity, and what resolving a symbol and calling it yields.\<close>

record 'p library =
  lib_id :: nat
  lib_api :: "byte list \<Rightarrow> string + 'p core_api option"

text \<open>What dropping a value releases.\<close>

datatype release = DestroyHandle core_handle | UnloadLibrary nat | CloseBundle fd

definition MFD_CLOEXEC :: u32 where "MFD_CLOEXEC = 1"
definition MFD_ALLOW_SEALING :: u32 where "MFD_ALLOW_SEALING = 2"
definition MFD_EXEC :: u32 where "MFD_EXEC = 16"
definition F_SEAL_SEAL :: u32 where "F_SEAL_SEAL = 1"
definition F_SEAL_SHRINK :: u32 where "F_SEAL_SHRINK = 2"
definition F_SEAL_GROW :: u32 where "F_SEAL_GROW = 4"
definition F_SEAL_WRITE :: u32 where "F_SEAL_WRITE = 8"
definition EINVAL :: errno where "EINVAL = 22"

unbundle bit_operations_syntax

definition bundle_flags :: u32 where
  "bundle_flags = MFD_CLOEXEC OR MFD_ALLOW_SEALING"

definition bundle_seals :: u32 where
  "bundle_seals = F_SEAL_WRITE OR F_SEAL_GROW OR F_SEAL_SHRINK OR F_SEAL_SEAL"

definition bundle_path :: "fd \<Rightarrow> string" where
  "bundle_path fd = ''/proc/self/fd/'' @ dec_nat fd"

text \<open>
  \<open>memfd_create\<close> with an explicit request for execution first; a kernel that does not know
  the flag answers \<open>EINVAL\<close> and is asked again without it.
\<close>

definition create_memfd :: "'o kernel \<Rightarrow> 'o \<Rightarrow> (errno + fd) \<times> 'o" where
  "create_memfd k s =
     (case memfd_create k ''duckflight-core'' (bundle_flags OR MFD_EXEC) s of
        (Inr fd, s') \<Rightarrow> (Inr fd, s')
      | (Inl e, s') \<Rightarrow>
          if e = EINVAL then memfd_create k ''duckflight-core'' bundle_flags s' else (Inl e, s'))"

definition write_bundle :: "'o kernel \<Rightarrow> fd \<Rightarrow> byte list \<Rightarrow> 'o \<Rightarrow> (errno + unit) \<times> 'o" where
  "write_bundle k fd bytes s =
     (case write_all k fd bytes s of
        (Inl e, s') \<Rightarrow> (Inl e, s')
      | (Inr _, s') \<Rightarrow> flush k fd s')"

definition prepare_bundle ::
  "'o kernel \<Rightarrow> byte list \<Rightarrow> 'o \<Rightarrow> (box_error + fd \<times> string) \<times> release list \<times> 'o" where
  "prepare_bundle k bytes s =
     (case create_memfd k s of
        (Inl e, s1) \<Rightarrow>
          (Inl (DynamicCoreError (''create executable bundled core memfd: '' @ os_error_text k e)), [], s1)
      | (Inr fd, s1) \<Rightarrow>
          (case write_bundle k fd bytes s1 of
             (Inl e, s2) \<Rightarrow>
               (Inl (DynamicCoreError (''write bundled core: '' @ os_error_text k e)), [CloseBundle fd], s2)
           | (Inr _, s2) \<Rightarrow>
               (case add_seals k fd bundle_seals s2 of
                  (Inl e, s3) \<Rightarrow>
                    (Inl (DynamicCoreError (''seal bundled core memfd: '' @ os_error_text k e)),
                     [CloseBundle fd], s3)
                | (Inr _, s3) \<Rightarrow> (Inr (fd, bundle_path fd), [], s3))))"

text \<open>\<open>Library::new\<close> on a path, over the same state.\<close>

type_synonym ('o, 'p) dlopen = "string \<Rightarrow> 'o \<Rightarrow> (string + 'p library) \<times> 'o"

definition load_bundle ::
  "'o kernel \<Rightarrow> ('o, 'p) dlopen \<Rightarrow> byte list \<Rightarrow> 'o \<Rightarrow>
     (box_error + 'p library \<times> fd) \<times> release list \<times> 'o" where
  "load_bundle k dlopen bytes s =
     (case prepare_bundle k bytes s of
        (Inl e, rel, s1) \<Rightarrow> (Inl e, rel, s1)
      | (Inr (fd, path), rel, s1) \<Rightarrow>
          (case dlopen path s1 of
             (Inl e, s2) \<Rightarrow>
               (Inl (DynamicCoreError (''load bundled core from '' @ from_utf8_lossy path @ '': '' @ e)),
                rel @ [CloseBundle fd], s2)
           | (Inr lib, s2) \<Rightarrow> (Inr (lib, fd), rel, s2)))"

section \<open>Lemmas\<close>

lemma prepare_bundle_Inr:
  assumes "prepare_bundle k bytes s = (Inr (fd, path), rel, s')"
  obtains s1 s2 where "create_memfd k s = (Inr fd, s1)" "write_bundle k fd bytes s1 = (Inr (), s2)"
    "add_seals k fd bundle_seals s2 = (Inr (), s')" "path = bundle_path fd" "rel = []"
  using assms by (auto simp: prepare_bundle_def split: prod.splits sum.splits)

text \<open>An error closes exactly the descriptor that was opened, if one was.\<close>

lemma prepare_bundle_Inl:
  assumes "prepare_bundle k bytes s = (Inl e, rel, s')"
  shows "case fst (create_memfd k s) of Inl _ \<Rightarrow> rel = [] | Inr fd \<Rightarrow> rel = [CloseBundle fd]"
  using assms by (auto simp: prepare_bundle_def split: prod.splits sum.splits)

lemma load_bundle_Inr:
  assumes "load_bundle k dlopen bytes s = (Inr (lib, fd), rel, s')"
  obtains s1 where "prepare_bundle k bytes s = (Inr (fd, bundle_path fd), [], s1)"
    "dlopen (bundle_path fd) s1 = (Inr lib, s')" "rel = []"
  using assms
  by (auto simp: load_bundle_def split: prod.splits sum.splits elim!: prepare_bundle_Inr)

lemma load_bundle_Inl:
  assumes "load_bundle k dlopen bytes s = (Inl e, rel, s')"
  shows "case fst (create_memfd k s) of Inl _ \<Rightarrow> rel = [] | Inr fd \<Rightarrow> rel = [CloseBundle fd]"
  using assms prepare_bundle_Inl [of k bytes s]
  by (auto simp: load_bundle_def split: prod.splits sum.splits elim!: prepare_bundle_Inr)

lemma bundle_seals_value [simp]: "bundle_seals = 15"
  by (simp add: bundle_seals_def F_SEAL_WRITE_def F_SEAL_GROW_def F_SEAL_SHRINK_def F_SEAL_SEAL_def)

section \<open>Systems without memory files\<close>

text \<open>
  Elsewhere than on Linux the bytes go to a named temporary file: it is neither opened for
  execution nor sealed, and dropping it closes and deletes it. The tempfile crate is the
  parameter \<open>new_file\<close>, which answers with a descriptor and the file's path.
\<close>

type_synonym 'o new_file = "'o \<Rightarrow> (string + fd \<times> string) \<times> 'o"

definition prepare_temporary ::
  "'o new_file \<Rightarrow> 'o kernel \<Rightarrow> byte list \<Rightarrow> 'o \<Rightarrow> (box_error + fd \<times> string) \<times> release list \<times> 'o" where
  "prepare_temporary new_file k bytes s =
     (case new_file s of
        (Inl e, s1) \<Rightarrow> (Inl (DynamicCoreError (''create temporary bundled core file: '' @ e)), [], s1)
      | (Inr (fd, path), s1) \<Rightarrow>
          (case write_bundle k fd bytes s1 of
             (Inl e, s2) \<Rightarrow>
               (Inl (DynamicCoreError (''write bundled core: '' @ os_error_text k e)), [CloseBundle fd], s2)
           | (Inr _, s2) \<Rightarrow> (Inr (fd, path), [], s2)))"

text \<open>What \<open>load_bundle\<close> does with either file.\<close>

definition load_prepared ::
  "('o, 'p) dlopen \<Rightarrow> (box_error + fd \<times> string) \<times> release list \<times> 'o \<Rightarrow>
     (box_error + 'p library \<times> fd) \<times> release list \<times> 'o" where
  "load_prepared dlopen prepared =
     (case prepared of
        (Inl e, rel, s1) \<Rightarrow> (Inl e, rel, s1)
      | (Inr (fd, path), rel, s1) \<Rightarrow>
          (case dlopen path s1 of
             (Inl e, s2) \<Rightarrow>
               (Inl (DynamicCoreError (''load bundled core from '' @ from_utf8_lossy path @ '': '' @ e)),
                rel @ [CloseBundle fd], s2)
           | (Inr lib, s2) \<Rightarrow> (Inr (lib, fd), rel, s2)))"

lemma load_bundle_prepared: "load_bundle k dlopen bytes s = load_prepared dlopen (prepare_bundle k bytes s)"
  by (simp add: load_bundle_def load_prepared_def)

lemma prepare_temporary_Inl:
  assumes "prepare_temporary new_file k bytes s = (Inl e, rel, s')"
  shows "case fst (new_file s) of Inl _ \<Rightarrow> rel = [] | Inr (fd, _) \<Rightarrow> rel = [CloseBundle fd]"
  using assms by (auto simp: prepare_temporary_def split: prod.splits sum.splits)

lemma prepare_temporary_Inr:
  assumes "prepare_temporary new_file k bytes s = (Inr (fd, path), rel, s')"
  shows "\<exists>s1. new_file s = (Inr (fd, path), s1) \<and> write_bundle k fd bytes s1 = (Inr (), s') \<and> rel = []"
  using assms by (auto simp: prepare_temporary_def split: prod.splits sum.splits)

text \<open>A failed load deletes the file it had created, and a successful one keeps it.\<close>

lemma load_temporary:
  assumes "load_prepared dlopen (prepare_temporary new_file k bytes s) = (r, rel, s')"
  shows "case (r, fst (new_file s)) of
      (Inr (lib, fd), Inr (fd', _)) \<Rightarrow> fd = fd' \<and> rel = []
    | (Inr _, Inl _) \<Rightarrow> False
    | (Inl _, Inr (fd, _)) \<Rightarrow> rel = [CloseBundle fd]
    | (Inl _, Inl _) \<Rightarrow> rel = []"
proof -
  obtain prep rel1 s1 where p: "prepare_temporary new_file k bytes s = (prep, rel1, s1)" by (metis prod_cases3)
  show ?thesis
  proof (cases prep)
    case (Inl e)
    with p assms prepare_temporary_Inl [of new_file k bytes s e rel1 s1] show ?thesis
      by (auto simp: load_prepared_def split: sum.splits)
  next
    case (Inr x)
    obtain fd path where x: "x = (fd, path)" by (cases x)
    from prepare_temporary_Inr [of new_file k bytes s fd path rel1 s1] p Inr x
    have "fst (new_file s) = Inr (fd, path)" "rel1 = []" by auto
    with assms p Inr x show ?thesis by (auto simp: load_prepared_def split: prod.splits sum.splits)
  qed
qed

end
