(* ===== verification/Dynamic_Core.thy ===== *)
theory Dynamic_Core
  imports Bundle
begin

text \<open>
  \<open>DynamicCore\<close> of \<open>src/dynamic_core.rs\<close>: validation of the provider's table, loading and
  creating a core, the three calls of the \<open>CoreRuntime\<close> trait with their callbacks, and
  the release of the handle, the library and the backing file.

  Validation reads through a raw pointer, so its result is an option: \<open>None\<close> is a read
  outside the table, which is undefined behaviour. A call returns the provider's new
  state with its result; a function that takes ownership of the library also returns what
  its early returns release, in Rust's drop order (the parameters of a function, and the
  names of a pattern, last declared first).
\<close>

section \<open>Validating the table\<close>

definition API_HEADER_SIZE :: nat where
  "API_HEADER_SIZE = offset_of_abi_version + 4"

definition read_struct_size :: "'p core_api \<Rightarrow> u32 option" where
  "read_struct_size api = (if 4 \<le> api_extent api then Some (api_struct_size api) else None)"

definition read_abi_version :: "'p core_api \<Rightarrow> u32 option" where
  "read_abi_version api =
     (if offset_of_abi_version + 4 \<le> api_extent api then Some (api_abi_version api) else None)"

definition abi_mismatch_text :: "u32 \<Rightarrow> string" where
  "abi_mismatch_text v = ''runtime ABI '' @ dec_nat (unat v) @ '' does not match extension ABI '' @
     dec_nat (unat DUCKFLIGHT_CORE_ABI_V1)"

definition validate_api_table_header :: "'p core_api option \<Rightarrow> (box_error + unit) option" where
  "validate_api_table_header ptr =
     (case ptr of
        None \<Rightarrow> Some (Inl (DynamicCoreError ''runtime returned a null API table''))
      | Some api \<Rightarrow> Option.bind (read_struct_size api) (\<lambda>struct_size.
          if struct_size < of_nat API_HEADER_SIZE
          then Some (Inl (DynamicCoreError ''runtime API header is truncated''))
          else Option.bind (read_abi_version api) (\<lambda>abi_version.
            if abi_version \<noteq> DUCKFLIGHT_CORE_ABI_V1
            then Some (Inl (DynamicCoreError (abi_mismatch_text abi_version)))
            else if struct_size < of_nat size_of_core_api
            then Some (Inl (DynamicCoreError ''runtime v1 API table is truncated''))
            else Some (Inr ()))))"

text \<open>A provider is honest about its table when the bytes it declares are readable.\<close>

definition api_readable :: "'p core_api \<Rightarrow> bool" where
  "api_readable api \<longleftrightarrow> 4 \<le> api_extent api \<and> unat (api_struct_size api) \<le> api_extent api"

section \<open>Creating a core\<close>

record 'p dynamic_core =
  dc_api :: "'p core_api"
  dc_handle :: core_handle
  dc_status_detail :: string
  dc_library :: nat
  dc_bundle_file :: "fd option"

text \<open>Dropping the owned parameters of \<open>initialize\<close>: the last one first.\<close>

definition drop_parameters :: "nat \<Rightarrow> fd option \<Rightarrow> release list" where
  "drop_parameters library bundle_file =
     (case bundle_file of None \<Rightarrow> [] | Some f \<Rightarrow> [CloseBundle f]) @ [UnloadLibrary library]"

definition table_complete :: "'p core_api \<Rightarrow> bool" where
  "table_complete api \<longleftrightarrow> api_destroy api \<noteq> None \<and> api_start api \<noteq> None \<and>
     api_stop api \<noteq> None \<and> api_list api \<noteq> None"

definition call_create ::
  "'p create_fn \<Rightarrow> pointer \<Rightarrow> pointer \<Rightarrow> 'p \<Rightarrow> (box_error + core_handle) \<times> 'p" where
  "call_create create info access p =
     (case create (Some (create_options_new info access 16)) (Some None)
             (Some (as_ffi error_buffer_new)) p of
        (status, out_handle, out, p') \<Rightarrow>
          (andThen (check_status status (from_ffi error_buffer_new out)) (\<lambda>_.
             let handle = (case out_handle of None \<Rightarrow> None | Some h \<Rightarrow> h) in
             if handle = None then Inl (DynamicCoreError ''runtime created a null handle'')
             else Inr handle), p'))"

definition initialize ::
  "'p core_api option \<Rightarrow> pointer \<Rightarrow> pointer \<Rightarrow> nat \<Rightarrow> fd option \<Rightarrow> string \<Rightarrow> 'p \<Rightarrow>
     ((box_error + 'p dynamic_core) \<times> release list \<times> 'p) option" where
  "initialize ptr info access library bundle_file detail p =
     (let fail = (\<lambda>e p'. Some (Inl e, drop_parameters library bundle_file, p')) in
      case validate_api_table_header ptr of
        None \<Rightarrow> None
      | Some (Inl e) \<Rightarrow> fail e p
      | Some (Inr _) \<Rightarrow>
          (case ptr of None \<Rightarrow> None
           | Some api \<Rightarrow>
               if api_extent api < size_of_core_api then None
               else case api_create api of
                 None \<Rightarrow> fail (DynamicCoreError ''runtime is missing create'') p
               | Some create \<Rightarrow>
                   if \<not> table_complete api
                   then fail (DynamicCoreError ''runtime v1 API table is incomplete'') p
                   else (case call_create create info access p of
                       (Inl e, p') \<Rightarrow> fail e p'
                     | (Inr handle, p') \<Rightarrow>
                         Some (Inr \<lparr>dc_api = api, dc_handle = handle, dc_status_detail = detail,
                                    dc_library = library, dc_bundle_file = bundle_file\<rparr>, [], p'))))"

text \<open>\<open>load\<close>: the library named by the environment, over a dynamic-loader parameter.\<close>

definition load ::
  "(string \<Rightarrow> string + 'p library) \<Rightarrow> string \<Rightarrow> pointer \<Rightarrow> pointer \<Rightarrow> 'p \<Rightarrow>
     ((box_error + 'p dynamic_core) \<times> release list \<times> 'p) option" where
  "load dlopen path info access p =
     (case dlopen path of
        Inl e \<Rightarrow> Some (Inl (DynamicCoreError
            (''load configured runtime library '' @ from_utf8_lossy path @ '': '' @ e)), [], p)
      | Inr lib \<Rightarrow>
          (case lib_api lib DUCKFLIGHT_CORE_API_SYMBOL_V1 of
             Inl e \<Rightarrow> Some (Inl (DynamicCoreError
                 (''resolve duckflight_core_api_v1 in configured runtime '' @ from_utf8_lossy path @
                  '': '' @ e)), [UnloadLibrary (lib_id lib)], p)
           | Inr ptr \<Rightarrow>
               initialize ptr info access (lib_id lib) None ''external core loaded'' p))"

text \<open>
  \<open>load_bundled\<close>: the embedded bytes. When the symbol is missing, the pattern's two
  names are dropped, the descriptor before the library.
\<close>

definition load_bundled ::
  "'o kernel \<Rightarrow> ('o, 'p) dlopen \<Rightarrow> byte list \<Rightarrow> pointer \<Rightarrow> pointer \<Rightarrow> 'o \<Rightarrow> 'p \<Rightarrow>
     ((box_error + 'p dynamic_core) \<times> release list \<times> 'p) option \<times> 'o" where
  "load_bundled k dlopen core info access s p =
     (case load_bundle k dlopen core s of
        (Inl e, rel, s') \<Rightarrow> (Some (Inl e, rel, p), s')
      | (Inr (lib, bundle), rel, s') \<Rightarrow>
          (case lib_api lib DUCKFLIGHT_CORE_API_SYMBOL_V1 of
             Inl e \<Rightarrow> (Some (Inl (DynamicCoreError (''resolve bundled core API: '' @ e)),
                 rel @ drop_parameters (lib_id lib) (Some bundle), p), s')
           | Inr ptr \<Rightarrow>
               (map_option (\<lambda>(r, rel', p'). (r, rel @ rel', p'))
                  (initialize ptr info access (lib_id lib) (Some bundle) ''bundled core loaded'' p), s')))"

text \<open>
  Dropping a core: \<open>Drop::drop\<close> destroys the handle, then the fields go in the order of
  their declaration, the library before the backing file.
\<close>

definition drop_dynamic_core :: "'p dynamic_core \<Rightarrow> 'p \<Rightarrow> release list \<times> 'p" where
  "drop_dynamic_core dc p =
     (let (rel, p') = (case api_destroy (dc_api dc) of
                None \<Rightarrow> ([], p)
              | Some destroy \<Rightarrow> ([DestroyHandle (dc_handle dc)], destroy (dc_handle dc) p))
      in (rel @ [UnloadLibrary (dc_library dc)] @
            (case dc_bundle_file dc of None \<Rightarrow> [] | Some f \<Rightarrow> [CloseBundle f]), p'))"

section \<open>The runtime's calls\<close>

definition unwrap_panic :: box_error where
  "unwrap_panic = Panic ''called `Option::unwrap()` on a `None` value''"

text \<open>The callback of \<open>start\<close>: keep the last address received, or why it was refused.\<close>

definition receive :: "bytes_v1 \<Rightarrow> string + string \<Rightarrow> status \<times> (string + string)" where
  "receive value previous =
     (let output = borrowed_string value
      in (if is_ok output then OK else INVALID_ARGUMENT, output))"

definition dynamic_start ::
  "'p dynamic_core \<Rightarrow> protocol \<Rightarrow> string \<Rightarrow> string \<Rightarrow> 'p \<Rightarrow> (box_error + string) \<times> 'p" where
  "dynamic_start dc protocol address config_file p =
     (case api_start (dc_api dc) of
        None \<Rightarrow> (Inl unwrap_panic, p)
      | Some start \<Rightarrow>
          (case run_foreign
                  (start (dc_handle dc) (abi_protocol protocol) (bytes_from_utf8 address)
                     (bytes_from_utf8 config_file) True (Some (as_ffi error_buffer_new)) p)
                  receive (Inl ''runtime did not return a server address'') of
             ((status, out, p'), output) \<Rightarrow>
               (andThen (check_status status (from_ffi error_buffer_new out)) (\<lambda>_.
                  map_err DynamicCoreError output), p')))"

definition dynamic_stop ::
  "'p dynamic_core \<Rightarrow> protocol \<Rightarrow> string \<Rightarrow> 'p \<Rightarrow> (box_error + bool) \<times> 'p" where
  "dynamic_stop dc protocol address p =
     (case api_stop (dc_api dc) of
        None \<Rightarrow> (Inl unwrap_panic, p)
      | Some stop \<Rightarrow>
          (case stop (dc_handle dc) (abi_protocol protocol) (bytes_from_utf8 address) (Some False)
                  (Some (as_ffi error_buffer_new)) p of
             (status, out_stopped, out, p') \<Rightarrow>
               (andThen (check_status status (from_ffi error_buffer_new out)) (\<lambda>_.
                  Inr (out_stopped = Some True)), p')))"

text \<open>The callback of \<open>list\<close>: collect the servers; once one is refused the result is an error.\<close>

definition visit ::
  "abi_protocol \<times> bytes_v1 \<Rightarrow> string + (string \<times> string) list \<Rightarrow>
     status \<times> (string + (string \<times> string) list)" where
  "visit server output =
     (case (protocol_name (fst server), borrowed_string (snd server)) of
        (Inr protocol, Inr address) \<Rightarrow>
          (case output of
             Inr servers \<Rightarrow> (OK, Inr (servers @ [(protocol, address)]))
           | Inl e \<Rightarrow> (INTERNAL, Inl e))
      | (Inl e, _) \<Rightarrow> (INVALID_ARGUMENT, Inl e)
      | (Inr _, Inl e) \<Rightarrow> (INVALID_ARGUMENT, Inl e))"

definition dynamic_snapshots ::
  "'p dynamic_core \<Rightarrow> 'p \<Rightarrow> (box_error + (string \<times> string) list) \<times> 'p" where
  "dynamic_snapshots dc p =
     (case api_list (dc_api dc) of
        None \<Rightarrow> (Inl unwrap_panic, p)
      | Some list_servers \<Rightarrow>
          (case run_foreign
                  (list_servers (dc_handle dc) True (Some (as_ffi error_buffer_new)) p)
                  visit (Inr []) of
             ((status, out, p'), output) \<Rightarrow>
               (andThen (check_status status (from_ffi error_buffer_new out)) (\<lambda>_.
                  map_err DynamicCoreError output), p')))"

record core_status =
  cs_loaded :: bool
  cs_detail :: string

definition dynamic_status :: "'p dynamic_core \<Rightarrow> core_status" where
  "dynamic_status dc = \<lparr>cs_loaded = True, cs_detail = dc_status_detail dc\<rparr>"

section \<open>Lemmas: validation and creation\<close>

lemma API_HEADER_SIZE_value [simp]: "API_HEADER_SIZE = 8"
  by (simp add: API_HEADER_SIZE_def)

lemma validate_null [simp]: "validate_api_table_header None =
    Some (Inl (DynamicCoreError ''runtime returned a null API table''))"
  by (simp add: validate_api_table_header_def)

lemma validate_ok_iff:
  "validate_api_table_header ptr = Some (Inr u) \<longleftrightarrow>
     (\<exists>api. ptr = Some api \<and> 8 \<le> api_extent api \<and>
        api_abi_version api = DUCKFLIGHT_CORE_ABI_V1 \<and> 48 \<le> api_struct_size api)"
  by (cases ptr)
    (auto simp: validate_api_table_header_def read_struct_size_def read_abi_version_def
      bind_eq_Some_conv not_less split: if_splits elim: order_trans [rotated])

lemma validate_in_bounds:
  assumes "api_readable api"
  shows "validate_api_table_header (Some api) \<noteq> None"
proof -
  have "8 \<le> api_extent api" if "\<not> api_struct_size api < 8"
    using that assms by (simp add: api_readable_def word_less_nat_alt)
  with assms show ?thesis
    by (auto simp: validate_api_table_header_def read_struct_size_def read_abi_version_def
        api_readable_def)
qed

lemma struct_size_extent: "api_readable api \<Longrightarrow> 48 \<le> api_struct_size api \<Longrightarrow> 48 \<le> api_extent api"
  by (simp add: api_readable_def word_le_nat_alt)

text \<open>A core that \<open>initialize\<close> made: a complete table and a handle.\<close>

definition core_ready :: "'p dynamic_core \<Rightarrow> bool" where
  "core_ready dc \<longleftrightarrow> api_create (dc_api dc) \<noteq> None \<and> table_complete (dc_api dc) \<and> dc_handle dc \<noteq> None"

lemma call_create_Inr: "call_create f i a p = (Inr h, p') \<Longrightarrow> h \<noteq> None"
  by (auto simp: call_create_def Let_def andThen_Inr_iff split: prod.splits if_splits)

lemma initialize_Inr:
  assumes "initialize ptr info access lib bundle detail p = Some (Inr dc, rel, p')"
  shows "core_ready dc" "rel = []" "ptr = Some (dc_api dc)" "dc_library dc = lib"
    "dc_bundle_file dc = bundle" "dc_status_detail dc = detail"
    "api_abi_version (dc_api dc) = DUCKFLIGHT_CORE_ABI_V1" "48 \<le> api_struct_size (dc_api dc)"
  using assms
  by (auto simp: initialize_def Let_def core_ready_def validate_ok_iff dest: call_create_Inr
      split: option.splits sum.splits if_splits prod.splits)

lemma initialize_Inl:
  assumes "initialize ptr info access lib bundle detail p = Some (Inl e, rel, p')"
  shows "rel = drop_parameters lib bundle"
  using assms
  by (auto simp: initialize_def Let_def split: option.splits sum.splits if_splits prod.splits)

lemma initialize_in_bounds:
  assumes "\<forall>api. ptr = Some api \<longrightarrow> api_readable api"
  shows "initialize ptr info access lib bundle detail p \<noteq> None"
proof (cases ptr)
  case (Some api)
  with assms have r: "api_readable api" by simp
  obtain v where v: "validate_api_table_header (Some api) = Some v"
    using validate_in_bounds [OF r] by blast
  then show ?thesis using Some struct_size_extent [OF r] validate_ok_iff [of "Some api"]
    by (cases v) (auto simp: initialize_def Let_def split: option.splits sum.splits prod.splits)
qed (simp add: initialize_def Let_def)

section \<open>Lemmas: calls and callbacks\<close>

primrec sent :: "('v, 'r) foreign \<Rightarrow> ('v \<Rightarrow> 'c \<Rightarrow> status \<times> 'c) \<Rightarrow> 'c \<Rightarrow> 'v list" where
  "sent (Return r) f c = []"
| "sent (Callback v k) f c = v # sent (k (fst (f v c))) f (snd (f v c))"

lemma receive_snd: "snd (receive v c) = borrowed_string v"
  by (simp add: receive_def Let_def)

lemma receive_result: "snd (run_foreign t receive c) =
    (if sent t receive c = [] then c else borrowed_string (last (sent t receive c)))"
proof (induction t arbitrary: c)
  case (Callback v k)
  then show ?case by (simp add: case_prod_beta receive_snd)
qed simp

lemma visit_Inl: "output = Inl e \<Longrightarrow> \<exists>e'. snd (visit server output) = Inl e'"
  by (auto simp: visit_def split: sum.splits)

lemma visit_Inr: "visit server output = (s, Inr l) \<longleftrightarrow>
    (\<exists>l0 pr a. output = Inr l0 \<and> protocol_name (fst server) = Inr pr \<and>
       borrowed_string (snd server) = Inr a \<and> l = l0 @ [(pr, a)] \<and> s = OK)"
  by (auto simp: visit_def split: sum.splits)

lemma visit_accept: "protocol_name n = Inr pr \<Longrightarrow> borrowed_string b = Inr a \<Longrightarrow>
    visit (n, b) (Inr l) = (OK, Inr (l @ [(pr, a)]))"
  by (simp add: visit_def)

lemma visit_refused: "\<not> is_ok output \<Longrightarrow> \<not> is_ok (snd (run_foreign t visit output))"
  by (rule run_foreign_keeps [where P = "\<lambda>c. \<not> is_ok c"])
    (auto simp: is_ok_def visit_def split: sum.splits)

text \<open>The servers a provider reported, read with the extension's own decoders.\<close>

definition reads_as :: "abi_protocol \<times> bytes_v1 \<Rightarrow> string \<times> string \<Rightarrow> bool" where
  "reads_as server row \<longleftrightarrow>
     protocol_name (fst server) = Inr (fst row) \<and> borrowed_string (snd server) = Inr (snd row)"

lemma visit_result:
  "snd (run_foreign t visit (Inr l0)) = Inr l \<Longrightarrow>
     \<exists>rows. l = l0 @ rows \<and> list_all2 reads_as (sent t visit (Inr l0)) rows"
proof (induction t arbitrary: l0)
  case (Callback v k)
  obtain s c where v: "visit v (Inr l0) = (s, c)" by (cases "visit v (Inr l0)")
  with Callback.prems have run: "snd (run_foreign (k s) visit c) = Inr l" by simp
  then have "is_ok c" using visit_refused [of c "k s"] by (auto simp: is_ok_def split: sum.splits)
  then obtain l1 where c: "c = Inr l1" by (auto simp: is_ok_iff)
  with v obtain pr a where pa: "reads_as v (pr, a)" "l1 = l0 @ [(pr, a)]"
    by (auto simp: visit_Inr reads_as_def)
  from Callback.IH [OF rangeI, of s l1] run c obtain rows where
    "l = l1 @ rows" "list_all2 reads_as (sent (k s) visit (Inr l1)) rows" by auto
  with pa v c show ?case by (intro exI [of _ "(pr, a) # rows"]) auto
qed simp

lemma visit_result_complete:
  "\<not> is_ok (snd (run_foreign t visit (Inr l0))) \<Longrightarrow>
     \<exists>server \<in> set (sent t visit (Inr l0)). \<nexists>row. reads_as server row"
proof (induction t arbitrary: l0)
  case (Callback v k)
  obtain s c where v: "visit v (Inr l0) = (s, c)" by (cases "visit v (Inr l0)")
  show ?case
  proof (cases c)
    case (Inl e)
    with v have "\<nexists>row. reads_as v row"
      by (auto simp: visit_def reads_as_def split: sum.splits)
    then show ?thesis by simp
  next
    case (Inr l1)
    with Callback.IH [OF rangeI, of s l1] Callback.prems v show ?thesis by auto
  qed
qed simp

end
