(* ===== verification/Core_Runtime.thy ===== *)
theory Core_Runtime
  imports Dynamic_Core
begin

text \<open>
  The \<open>CoreRuntime\<close> trait of \<open>src/lib.rs\<close>: a record of its methods (the trait object's
  vtable) over the implementor's state, its two implementors \<open>UnavailableCore\<close> and
  \<open>DynamicCore\<close>, and the contract the table functions rely on as the locale
  \<open>server_runtime\<close>: the runtime keeps a list of servers, \<open>start\<close> registers the address it
  returns, \<open>stop\<close> removes a server and says whether it was there, \<open>snapshots\<close> reports the
  list. The unavailable core meets the contract with an empty list; the mock core of the
  repository's tests meets it through the ABI (theory \<open>Mock_Core\<close>).
\<close>

record 's core_runtime =
  rt_start :: "protocol \<Rightarrow> string \<Rightarrow> string \<Rightarrow> 's \<Rightarrow> (box_error + string) \<times> 's"
  rt_stop :: "protocol \<Rightarrow> string \<Rightarrow> 's \<Rightarrow> (box_error + bool) \<times> 's"
  rt_snapshots :: "'s \<Rightarrow> (box_error + (string \<times> string) list) \<times> 's"
  rt_status :: core_status

section \<open>The unavailable core\<close>

definition unavailable_error :: "string \<Rightarrow> box_error" where
  "unavailable_error detail = StringError (''DuckFlight core runtime is unavailable: '' @ detail)"

definition unavailable_core :: "string \<Rightarrow> 's core_runtime" where
  "unavailable_core detail =
     \<lparr>rt_start = (\<lambda>_ _ _ s. (Inl (unavailable_error detail), s)),
      rt_stop = (\<lambda>_ _ s. (Inl (unavailable_error detail), s)),
      rt_snapshots = (\<lambda>s. (Inr [], s)),
      rt_status = \<lparr>cs_loaded = False, cs_detail = detail\<rparr>\<rparr>"

section \<open>The dynamic core as a trait object\<close>

definition dynamic_runtime :: "'p dynamic_core \<Rightarrow> 'p core_runtime" where
  "dynamic_runtime dc =
     \<lparr>rt_start = dynamic_start dc, rt_stop = dynamic_stop dc,
      rt_snapshots = dynamic_snapshots dc, rt_status = dynamic_status dc\<rparr>"

lemma core_runtime_simps [simp]:
  "rt_start (unavailable_core d) pr a c s = (Inl (unavailable_error d), s)"
  "rt_stop (unavailable_core d) pr a s = (Inl (unavailable_error d), s)"
  "rt_snapshots (unavailable_core d) s = (Inr [], s)"
  "rt_status (unavailable_core d) = \<lparr>cs_loaded = False, cs_detail = d\<rparr>"
  "rt_start (dynamic_runtime dc) = dynamic_start dc"
  "rt_stop (dynamic_runtime dc) = dynamic_stop dc"
  "rt_snapshots (dynamic_runtime dc) = dynamic_snapshots dc"
  "rt_status (dynamic_runtime dc) = dynamic_status dc"
  by (simp_all add: unavailable_core_def dynamic_runtime_def)

section \<open>The contract\<close>

definition register :: "protocol \<times> string \<Rightarrow> (protocol \<times> string) list \<Rightarrow> (protocol \<times> string) list" where
  "register server servers = retain (\<lambda>x. x \<noteq> server) servers @ [server]"

definition unregister :: "protocol \<times> string \<Rightarrow> (protocol \<times> string) list \<Rightarrow> (protocol \<times> string) list" where
  "unregister server servers = retain (\<lambda>x. x \<noteq> server) servers"

definition server_row :: "protocol \<times> string \<Rightarrow> string \<times> string" where
  "server_row server = (as_str (fst server), snd server)"

lemma server_row_inject [simp]: "server_row x = server_row y \<longleftrightarrow> x = y"
  by (cases x; cases y) (auto simp: server_row_def)

lemma set_register [simp]: "set (register x xs) = insert x (set xs)"
  by (auto simp: register_def)

lemma set_unregister [simp]: "set (unregister x xs) = set xs - {x}"
  by (auto simp: unregister_def)

lemma distinct_register: "distinct xs \<Longrightarrow> distinct (register x xs)"
  by (simp add: register_def)

lemma distinct_unregister: "distinct xs \<Longrightarrow> distinct (unregister x xs)"
  by (simp add: unregister_def)

lemma unregister_absent: "x \<notin> set xs \<Longrightarrow> unregister x xs = xs"
  by (auto simp: unregister_def retain_def filter_id_conv)

lemma unregister_register: "unregister x (register x xs) = unregister x xs"
  by (simp add: unregister_def register_def retain_def)

locale server_runtime =
  fixes rt :: "'s core_runtime"
    and listed :: "'s \<Rightarrow> (protocol \<times> string) list"
    and invar :: "'s \<Rightarrow> bool"
  assumes start_Inr: "invar s \<Longrightarrow> rt_start rt p a c s = (Inr b, s') \<Longrightarrow>
      invar s' \<and> valid_utf8 b \<and> listed s' = register (p, b) (listed s)"
    and start_Inl: "invar s \<Longrightarrow> rt_start rt p a c s = (Inl e, s') \<Longrightarrow>
      invar s' \<and> listed s' = listed s"
    and stop_Inr: "invar s \<Longrightarrow> rt_stop rt p a s = (Inr x, s') \<Longrightarrow>
      invar s' \<and> listed s' = unregister (p, a) (listed s) \<and> (x \<longleftrightarrow> (p, a) \<in> set (listed s))"
    and stop_Inl: "invar s \<Longrightarrow> rt_stop rt p a s = (Inl e, s') \<Longrightarrow>
      invar s' \<and> listed s' = listed s"
    and snapshots_rows: "invar s \<Longrightarrow> rt_snapshots rt s = (Inr (map server_row (listed s)), s)"
    and listed_distinct: "invar s \<Longrightarrow> distinct (listed s)"
begin

text \<open>Whatever the outcome of a call, the invariant holds afterwards.\<close>

lemma start_invar: "invar s \<Longrightarrow> rt_start rt p a c s = (r, s') \<Longrightarrow> invar s'"
  using start_Inr start_Inl by (cases r) blast+

lemma stop_invar: "invar s \<Longrightarrow> rt_stop rt p a s = (r, s') \<Longrightarrow> invar s'"
  using stop_Inr stop_Inl by (cases r) blast+

text \<open>A started server can be stopped once: the second stop finds nothing.\<close>

lemma start_then_stop:
  assumes "invar s" "rt_start rt p a c s = (Inr b, s1)" "rt_stop rt p b s1 = (Inr x, s2)"
  shows "x" and "listed s2 = unregister (p, b) (listed s)"
  using start_Inr [OF assms(1,2)] stop_Inr [OF _ assms(3)]
  by (simp_all add: unregister_register)

lemma stop_twice:
  assumes "invar s" "rt_stop rt p a s = (Inr x, s1)" "rt_stop rt p a s1 = (Inr y, s2)"
  shows "\<not> y" and "listed s2 = listed s1"
  using stop_Inr [OF assms(1,2)] stop_Inr [OF _ assms(3)]
  by (simp_all add: unregister_absent)

lemma snapshots_after_start:
  assumes "invar s" "rt_start rt p a c s = (Inr b, s1)"
  shows "\<exists>rows. rt_snapshots rt s1 = (Inr rows, s1) \<and> set rows = insert (as_str p, b) (server_row ` set (listed s))
     \<and> distinct rows"
  using start_Inr [OF assms] snapshots_rows [of s1] listed_distinct [of s1]
  by (auto simp: distinct_map inj_on_def server_row_def)

end

interpretation unavailable: server_runtime "unavailable_core d" "\<lambda>_. []" "\<lambda>_. True" for d
  by unfold_locales simp_all

end
