(* ===== verification/Mock_Core.thy ===== *)
theory Mock_Core
  imports Core_Runtime
begin

text \<open>
  The runtime provider of the repository's tests (\<open>test/mock_core/src/lib.rs\<close>), the one
  provider whose source is public: its state is a heap of cores, each a list of servers,
  behind the opaque handles. Its entry points are modelled with their null checks, their
  error boundary and the diagnostics they write. The mutex is not modelled: no panic
  happens while it is held, so it is never poisoned. The last section shows that a
  \<open>DynamicCore\<close> over this provider meets the runtime contract.
\<close>

section \<open>State and helpers\<close>

record mock_heap =
  mh_next :: nat
  mh_core :: "nat \<Rightarrow> (abi_protocol \<times> string) list option"

definition borrowed_str :: "bytes_v1 \<Rightarrow> string \<Rightarrow> string + string" where
  "borrowed_str value name =
     (if bv_len value = 0 then Inr []
      else case bv_data value of
             None \<Rightarrow> Inl (name @ '' pointer is null with non-zero length'')
           | Some m \<Rightarrow>
               map_err (\<lambda>e. name @ '' is not valid UTF-8: '' @ utf8_error_text e)
                 (from_utf8 (take (bv_len value) m)))"

definition write_output :: "output_buffer option \<Rightarrow> string \<Rightarrow> status \<times> output_buffer option" where
  "write_output out value =
     (case out of
        None \<Rightarrow> (BUFFER_TOO_SMALL, None)
      | Some ob \<Rightarrow>
          (let ob = (if ob_required ob = None then ob else ob\<lparr>ob_required := Some (length value)\<rparr>) in
           if ob_capacity ob < length value \<or> (value \<noteq> [] \<and> ob_data ob = None)
           then (BUFFER_TOO_SMALL, Some ob)
           else if value \<noteq> []
           then (OK, Some (ob\<lparr>ob_data := map_option (\<lambda>m. value @ drop (length value) m) (ob_data ob)\<rparr>))
           else (OK, Some ob)))"

definition report_error :: "output_buffer option \<Rightarrow> status \<Rightarrow> string \<Rightarrow> status \<times> output_buffer option" where
  "report_error out status text = (status, snd (write_output out text))"

text \<open>What an operation did: returned a \<open>Result\<close>, or panicked.\<close>

datatype outcome = Finished "string + status" | Panicked

definition with_error_boundary :: "output_buffer option \<Rightarrow> outcome \<Rightarrow> status \<times> output_buffer option" where
  "with_error_boundary error operation =
     (case operation of
        Finished (Inr status) \<Rightarrow> (status, error)
      | Finished (Inl text) \<Rightarrow> report_error error INTERNAL text
      | Panicked \<Rightarrow> report_error error INTERNAL ''mock core panicked across an FFI operation'')"

definition handle_ref :: "core_handle \<Rightarrow> string + nat" where
  "handle_ref handle = ok_or ''mock core handle is null'' handle"

text \<open>A live handle has a core; reading through a dangling one is undefined in the code.\<close>

definition core_servers :: "mock_heap \<Rightarrow> nat \<Rightarrow> (abi_protocol \<times> string) list" where
  "core_servers heap h = (case mh_core heap h of Some servers \<Rightarrow> servers | None \<Rightarrow> [])"

definition set_servers :: "nat \<Rightarrow> (abi_protocol \<times> string) list \<Rightarrow> mock_heap \<Rightarrow> mock_heap" where
  "set_servers h servers heap = heap\<lparr>mh_core := (mh_core heap)(h \<mapsto> servers)\<rparr>"

definition validate_protocol :: "abi_protocol \<Rightarrow> string + unit" where
  "validate_protocol p =
     (if p = PGWIRE \<or> p = FLIGHT_SQL \<or> p = HTTP \<or> p = QUACK then Inr ()
      else Inl (''unsupported protocol value '' @ dec_nat (unat p)))"

text \<open>\<open>None\<close> is the \<open>unreachable!\<close> branch.\<close>

definition bound_address :: "abi_protocol \<Rightarrow> string \<Rightarrow> string option" where
  "bound_address p address =
     (if ends_with address '':0''
      then if p = PGWIRE then Some ''127.0.0.1:15432''
        else if p = FLIGHT_SQL then Some ''127.0.0.1:15051''
        else if p = HTTP then Some ''127.0.0.1:18080''
        else if p = QUACK then Some ''127.0.0.1:18081''
        else None
      else Some address)"

section \<open>Entry points\<close>

definition mock_create :: "mock_heap create_fn" where
  "mock_create options out_handle error heap =
     (case (options, out_handle) of
        (Some opts, Some _) \<Rightarrow>
          if co_struct_size opts < of_nat size_of_create_options
          then (case report_error error ABI_MISMATCH
                  ''create options are smaller than DuckflightCoreCreateOptionsV1'' of
                  (st, error') \<Rightarrow> (st, Some None, error', heap))
          else if co_abi_version opts \<noteq> DUCKFLIGHT_CORE_ABI_V1
          then (case report_error error ABI_MISMATCH
                  (''unsupported DuckFlight core ABI '' @ dec_nat (unat (co_abi_version opts)) @
                   ''; expected '' @ dec_nat (unat DUCKFLIGHT_CORE_ABI_V1)) of
                  (st, error') \<Rightarrow> (st, Some None, error', heap))
          else (OK, Some (Some (mh_next heap)), error,
                set_servers (mh_next heap) [] (heap\<lparr>mh_next := Suc (mh_next heap)\<rparr>))
      | _ \<Rightarrow> (case report_error error INVALID_ARGUMENT
                ''create options and output handle are required'' of
                (st, error') \<Rightarrow> (st, out_handle, error', heap)))"

definition mock_destroy :: "mock_heap destroy_fn" where
  "mock_destroy handle heap =
     (case handle of None \<Rightarrow> heap | Some h \<Rightarrow> heap\<lparr>mh_core := (mh_core heap)(h := None)\<rparr>)"

text \<open>
  The part of \<open>start\<close> before the callback: the core, and the address it will listen on
  (the outer option is the panic of \<open>bound_address\<close>).
\<close>

definition start_request ::
  "core_handle \<Rightarrow> abi_protocol \<Rightarrow> bytes_v1 \<Rightarrow> bytes_v1 \<Rightarrow> bool \<Rightarrow> string + nat \<times> string option" where
  "start_request handle protocol address config_file receiver =
     andThen (handle_ref handle) (\<lambda>h.
     andThen (validate_protocol protocol) (\<lambda>_.
     andThen (borrowed_str address ''address'') (\<lambda>a.
     andThen (borrowed_str config_file ''config_file'') (\<lambda>_.
     if \<not> receiver then Inl ''address receiver is required''
     else Inr (h, bound_address protocol a)))))"

definition mock_start :: "mock_heap start_fn" where
  "mock_start handle protocol address config_file receiver error heap =
     (case start_request handle protocol address config_file receiver of
        Inl text \<Rightarrow> (case with_error_boundary error (Finished (Inl text)) of
            (st, error') \<Rightarrow> Return (st, error', heap))
      | Inr (h, None) \<Rightarrow> (case with_error_boundary error Panicked of
            (st, error') \<Rightarrow> Return (st, error', heap))
      | Inr (h, Some actual) \<Rightarrow>
          (let servers = retain (\<lambda>item. item \<noteq> (protocol, actual)) (core_servers heap h);
               heap' = set_servers h (servers @ [(protocol, actual)]) heap
           in Callback (bytes_from_utf8 actual) (\<lambda>status.
                case with_error_boundary error (Finished (Inr status)) of
                  (st, error') \<Rightarrow> Return (st, error', heap'))))"

definition stop_request :: "core_handle \<Rightarrow> abi_protocol \<Rightarrow> bytes_v1 \<Rightarrow> string + nat \<times> string" where
  "stop_request handle protocol address =
     andThen (handle_ref handle) (\<lambda>h.
     andThen (validate_protocol protocol) (\<lambda>_.
     andThen (borrowed_str address ''address'') (\<lambda>a. Inr (h, a))))"

definition mock_stop :: "mock_heap stop_fn" where
  "mock_stop handle protocol address out_stopped error heap =
     (if out_stopped = None
      then (case report_error error INVALID_ARGUMENT ''stop output pointer is required'' of
              (st, error') \<Rightarrow> (st, None, error', heap))
      else case stop_request handle protocol address of
        Inl text \<Rightarrow> (case with_error_boundary error (Finished (Inl text)) of
            (st, error') \<Rightarrow> (st, out_stopped, error', heap))
      | Inr (h, a) \<Rightarrow>
          (let before = core_servers heap h;
               servers = retain (\<lambda>item. fst item \<noteq> protocol \<or> snd item \<noteq> a) before
           in (OK, Some (length servers \<noteq> length before), error, set_servers h servers heap)))"

text \<open>The loop of \<open>list\<close>: stop at the first status that is not OK.\<close>

fun visit_servers ::
  "(abi_protocol \<times> string) list \<Rightarrow> (status \<Rightarrow> 'r) \<Rightarrow> (abi_protocol \<times> bytes_v1, 'r) foreign" where
  "visit_servers [] finish = Return (finish OK)"
| "visit_servers ((protocol, address) # rest) finish =
     Callback (protocol, bytes_from_utf8 address) (\<lambda>status.
       if status_is_ok status then visit_servers rest finish else Return (finish status))"

definition list_request :: "core_handle \<Rightarrow> bool \<Rightarrow> string + nat" where
  "list_request handle visitor =
     andThen (handle_ref handle) (\<lambda>h.
       if \<not> visitor then Inl ''server visitor is required'' else Inr h)"

definition mock_list :: "mock_heap list_fn" where
  "mock_list handle visitor error heap =
     (case list_request handle visitor of
        Inl text \<Rightarrow> (case with_error_boundary error (Finished (Inl text)) of
            (st, error') \<Rightarrow> Return (st, error', heap))
      | Inr h \<Rightarrow> visit_servers (core_servers heap h) (\<lambda>status.
            case with_error_boundary error (Finished (Inr status)) of
              (st, error') \<Rightarrow> (st, error', heap)))"

definition API_V1 :: "mock_heap core_api" where
  "API_V1 = \<lparr>api_extent = size_of_core_api, api_struct_size = of_nat size_of_core_api,
     api_abi_version = DUCKFLIGHT_CORE_ABI_V1, api_create = Some mock_create,
     api_destroy = Some mock_destroy, api_start = Some mock_start, api_stop = Some mock_stop,
     api_list = Some mock_list\<rparr>"

definition mock_library :: "nat \<Rightarrow> mock_heap library" where
  "mock_library i = \<lparr>lib_id = i, lib_api = (\<lambda>symbol.
     if symbol = DUCKFLIGHT_CORE_API_SYMBOL_V1 then Inr (Some API_V1)
     else Inl ''undefined symbol'')\<rparr>"

section \<open>Lemmas\<close>

lemma borrowed_str_from_utf8:
  "borrowed_str (bytes_from_utf8 s) name =
     (if valid_utf8 s then Inr s
      else Inl (name @ '' is not valid UTF-8: '' @ utf8_error_text (the (utf8_check 0 s))))"
  by (cases "s = []") (auto simp: borrowed_str_def from_utf8_def valid_utf8_def split: option.splits)

lemma validate_protocol_abi [simp]: "validate_protocol (abi_protocol p) = Inr ()"
  by (cases p) (simp_all add: validate_protocol_def)

definition ephemeral :: "protocol \<Rightarrow> string" where
  "ephemeral p = (case p of PgWire \<Rightarrow> ''127.0.0.1:15432'' | FlightSql \<Rightarrow> ''127.0.0.1:15051''
     | Http \<Rightarrow> ''127.0.0.1:18080'' | Quack \<Rightarrow> ''127.0.0.1:18081'')"

definition bound :: "protocol \<Rightarrow> string \<Rightarrow> string" where
  "bound p a = (if ends_with a '':0'' then ephemeral p else a)"

lemma bound_address_abi [simp]: "bound_address (abi_protocol p) a = Some (bound p a)"
  by (cases p) (simp_all add: bound_address_def bound_def ephemeral_def)

lemma ascii_ephemeral [simp]: "ascii (ephemeral p)"
  by (cases p) (simp_all add: ephemeral_def)

lemma valid_bound: "valid_utf8 a \<Longrightarrow> valid_utf8 (bound p a)"
  by (simp add: bound_def ascii_valid)

text \<open>A diagnostic the provider reports comes back as the error's text when it fits.\<close>

lemma report_error_round_trip:
  assumes "valid_utf8 m" "m \<noteq> []" "length m \<le> ERROR_CAPACITY" "\<not> status_is_ok s"
  shows "check_status s (from_ffi error_buffer_new
      (snd (report_error (Some (as_ffi error_buffer_new)) s m))) = Inl (DynamicCoreError m)"
  using assms
  by (simp add: report_error_def write_output_def as_ffi_def from_ffi_def check_status_def
      status_detail_def message_def error_buffer_new_def Let_def from_utf8_lossy_id)

lemma report_error_too_long:
  assumes "ERROR_CAPACITY < length m" "\<not> status_is_ok s"
  shows "check_status s (from_ffi error_buffer_new
      (snd (report_error (Some (as_ffi error_buffer_new)) s m))) =
    Inl (DynamicCoreError (''DuckFlight runtime failed with status '' @ status_text s @
      ''; diagnostic requires '' @ dec_nat (length m) @ '' bytes (buffer capacity '' @
      dec_nat ERROR_CAPACITY @ '')''))"
  using assms
  by (simp add: report_error_def write_output_def as_ffi_def from_ffi_def check_status_def
      status_detail_def message_def error_buffer_new_def Let_def)

section \<open>A dynamic core over the mock provider\<close>

definition mock_core :: "nat \<Rightarrow> nat \<Rightarrow> mock_heap dynamic_core" where
  "mock_core lib h = \<lparr>dc_api = API_V1, dc_handle = Some h, dc_status_detail = ''external core loaded'',
     dc_library = lib, dc_bundle_file = None\<rparr>"

definition abi_protocols :: "abi_protocol set" where
  "abi_protocols = {PGWIRE, FLIGHT_SQL, HTTP, QUACK}"

definition protocol_of :: "abi_protocol \<Rightarrow> protocol" where
  "protocol_of n = (if n = PGWIRE then PgWire else if n = FLIGHT_SQL then FlightSql
     else if n = HTTP then Http else Quack)"

lemma protocol_of_abi [simp]: "protocol_of (abi_protocol p) = p"
  by (cases p) (simp_all add: protocol_of_def)

lemma abi_protocol_of [simp]: "n \<in> abi_protocols \<Longrightarrow> abi_protocol (protocol_of n) = n"
  by (auto simp: abi_protocols_def protocol_of_def)

lemma abi_protocol_in [simp]: "abi_protocol p \<in> abi_protocols"
  by (cases p) (simp_all add: abi_protocols_def)

lemma protocol_of_inject:
  "n \<in> abi_protocols \<Longrightarrow> m \<in> abi_protocols \<Longrightarrow> protocol_of n = protocol_of m \<longleftrightarrow> n = m"
  by (metis abi_protocol_of)

definition mock_listed :: "nat \<Rightarrow> mock_heap \<Rightarrow> (protocol \<times> string) list" where
  "mock_listed h heap = map (\<lambda>(n, a). (protocol_of n, a)) (core_servers heap h)"

definition mock_invar :: "nat \<Rightarrow> mock_heap \<Rightarrow> bool" where
  "mock_invar h heap \<longleftrightarrow> mh_core heap h \<noteq> None \<and> distinct (core_servers heap h) \<and>
     (\<forall>(n, a) \<in> set (core_servers heap h). n \<in> abi_protocols \<and> valid_utf8 a)"

lemma core_servers_set [simp]:
  "core_servers (set_servers h ss heap) h' = (if h' = h then ss else core_servers heap h')"
  by (simp add: core_servers_def set_servers_def)

lemma retain_protocol_of:
  assumes "\<forall>(n, a) \<in> set ss. n \<in> abi_protocols"
  shows "map (\<lambda>(n, a). (protocol_of n, a)) (retain (\<lambda>x. x \<noteq> (abi_protocol p, b)) ss) =
     retain (\<lambda>x. x \<noteq> (p, b)) (map (\<lambda>(n, a). (protocol_of n, a)) ss)"
  using assms
  by (induction ss) (auto simp: retain_def dest: arg_cong [where f = abi_protocol])

lemma mock_start_eq:
  assumes "valid_utf8 a" "valid_utf8 c"
  shows "dynamic_start (mock_core lib h) p a c heap =
    (Inr (bound p a), set_servers h (retain (\<lambda>x. x \<noteq> (abi_protocol p, bound p a)) (core_servers heap h) @
        [(abi_protocol p, bound p a)]) heap)"
  using assms valid_bound [OF assms(1), of p]
  by (simp add: dynamic_start_def mock_core_def API_V1_def mock_start_def start_request_def
      handle_ref_def borrowed_str_from_utf8 receive_def Let_def with_error_boundary_def)

text \<open>Requests the extension itself can only send with text arguments that are not UTF-8.\<close>

lemma mock_start_invalid:
  assumes "\<not> (valid_utf8 a \<and> valid_utf8 c)"
  shows "\<exists>e. dynamic_start (mock_core lib h) p a c heap = (Inl e, heap)"
  using assms
  by (auto simp: dynamic_start_def mock_core_def API_V1_def mock_start_def start_request_def
      handle_ref_def borrowed_str_from_utf8 with_error_boundary_def report_error_def check_status_def)

lemma mock_stop_eq:
  assumes "valid_utf8 a"
  shows "dynamic_stop (mock_core lib h) p a heap =
    (Inr (\<exists>x \<in> set (core_servers heap h). x = (abi_protocol p, a)),
     set_servers h (retain (\<lambda>x. x \<noteq> (abi_protocol p, a)) (core_servers heap h)) heap)"
proof -
  have "(\<lambda>x. fst x \<noteq> abi_protocol p \<or> snd x \<noteq> a) = (\<lambda>x. x \<noteq> (abi_protocol p, a))" by auto
  then show ?thesis using assms
    by (auto simp: dynamic_stop_def mock_core_def API_V1_def mock_stop_def stop_request_def
        handle_ref_def borrowed_str_from_utf8 Let_def length_retain_eq_iff
        intro: bexI [where x = "(abi_protocol p, a)"])
qed

lemma mock_stop_invalid:
  assumes "\<not> valid_utf8 a"
  shows "\<exists>e. dynamic_stop (mock_core lib h) p a heap = (Inl e, heap)"
  using assms
  by (auto simp: dynamic_stop_def mock_core_def API_V1_def mock_stop_def stop_request_def
      handle_ref_def borrowed_str_from_utf8 with_error_boundary_def report_error_def check_status_def)

lemma run_visit_servers:
  assumes "\<forall>(n, a) \<in> set ss. n \<in> abi_protocols \<and> valid_utf8 a"
  shows "run_foreign (visit_servers ss finish) visit (Inr rows) =
     (finish OK, Inr (rows @ map (\<lambda>(n, a). (as_str (protocol_of n), a)) ss))"
  using assms
proof (induction ss finish arbitrary: rows rule: visit_servers.induct)
  case (2 n a rest finish)
  then have "protocol_name n = Inr (as_str (protocol_of n))"
    using protocol_name_abi [of "protocol_of n"] by simp
  with 2(2) 2(1) [OF status_is_ok_values(1)] show ?case by (simp add: visit_accept)
qed simp

lemma mock_snapshots_eq:
  assumes "mock_invar h heap"
  shows "dynamic_snapshots (mock_core lib h) heap = (Inr (map server_row (mock_listed h heap)), heap)"
  using assms
  by (auto simp: dynamic_snapshots_def mock_core_def API_V1_def mock_list_def list_request_def
      handle_ref_def with_error_boundary_def run_visit_servers mock_invar_def mock_listed_def
      server_row_def)

lemma mock_start_contract:
  assumes inv: "mock_invar h heap" and "dynamic_start (mock_core lib h) p a c heap = (Inr b, heap')"
  shows "mock_invar h heap' \<and> valid_utf8 b \<and> mock_listed h heap' = register (p, b) (mock_listed h heap)"
proof -
  have v: "valid_utf8 a" "valid_utf8 c" using assms(2) mock_start_invalid [of a c lib h p heap] by auto
  with assms(2) mock_start_eq [OF v, of lib h p heap] have b: "b = bound p a" and
    heap': "heap' = set_servers h (retain (\<lambda>x. x \<noteq> (abi_protocol p, b)) (core_servers heap h) @
        [(abi_protocol p, b)]) heap" by auto
  have "\<forall>(n, a) \<in> set (core_servers heap h). n \<in> abi_protocols"
    using inv by (auto simp: mock_invar_def)
  then have "mock_listed h heap' = register (p, b) (mock_listed h heap)"
    by (simp add: heap' mock_listed_def register_def retain_protocol_of)
  moreover have "mock_invar h heap'"
    using inv v by (auto simp: heap' b mock_invar_def set_servers_def valid_bound core_servers_def)
  ultimately show ?thesis using v b by (simp add: valid_bound)
qed

lemma mock_stop_contract:
  assumes inv: "mock_invar h heap" and "dynamic_stop (mock_core lib h) p a heap = (Inr x, heap')"
  shows "mock_invar h heap' \<and> mock_listed h heap' = unregister (p, a) (mock_listed h heap) \<and>
    (x \<longleftrightarrow> (p, a) \<in> set (mock_listed h heap))"
proof -
  have v: "valid_utf8 a" using assms(2) mock_stop_invalid [of a lib h p heap] by auto
  with assms(2) mock_stop_eq [OF v, of lib h p heap] have
    x: "x \<longleftrightarrow> (abi_protocol p, a) \<in> set (core_servers heap h)" and
    heap': "heap' = set_servers h (retain (\<lambda>x. x \<noteq> (abi_protocol p, a)) (core_servers heap h)) heap"
    by auto
  have np: "\<forall>(n, a) \<in> set (core_servers heap h). n \<in> abi_protocols"
    using inv by (auto simp: mock_invar_def)
  then have "mock_listed h heap' = unregister (p, a) (mock_listed h heap)"
    by (simp add: heap' mock_listed_def unregister_def retain_protocol_of)
  moreover have "mock_invar h heap'"
    using inv by (auto simp: heap' mock_invar_def set_servers_def core_servers_def)
  moreover have "x \<longleftrightarrow> (p, a) \<in> set (mock_listed h heap)"
    using np unfolding x mock_listed_def
    by (force simp: image_iff protocol_of_inject [of "abi_protocol p", simplified])
  ultimately show ?thesis by blast
qed

lemma mock_listed_distinct:
  assumes "mock_invar h heap"
  shows "distinct (mock_listed h heap)"
proof -
  have "inj_on (\<lambda>(n, a). (protocol_of n, a)) (set (core_servers heap h))"
  proof (rule inj_onI)
    fix x y
    assume "x \<in> set (core_servers heap h)" "y \<in> set (core_servers heap h)"
      and eq: "(\<lambda>(n, a). (protocol_of n, a)) x = (\<lambda>(n, a). (protocol_of n, a)) y"
    then have "fst x \<in> abi_protocols" "fst y \<in> abi_protocols"
      using assms by (auto simp: mock_invar_def split_beta)
    with eq show "x = y" by (auto simp: split_beta protocol_of_inject prod_eq_iff)
  qed
  with assms show ?thesis by (simp add: mock_listed_def distinct_map mock_invar_def)
qed

lemma mock_start_refused:
  assumes "mock_invar h s" "dynamic_start (mock_core lib h) p a c s = (Inl e, s')"
  shows "mock_invar h s' \<and> mock_listed h s' = mock_listed h s"
proof -
  have "s' = s"
    using assms mock_start_invalid [of a c lib h p s] mock_start_eq [of a c lib h p s]
    by (cases "valid_utf8 a \<and> valid_utf8 c") auto
  with assms show ?thesis by simp
qed

lemma mock_stop_refused:
  assumes "mock_invar h s" "dynamic_stop (mock_core lib h) p a s = (Inl e, s')"
  shows "mock_invar h s' \<and> mock_listed h s' = mock_listed h s"
proof -
  have "s' = s"
    using assms mock_stop_invalid [of a lib h p s] mock_stop_eq [of a lib h p s]
    by (cases "valid_utf8 a") auto
  with assms show ?thesis by simp
qed

interpretation mock: server_runtime "dynamic_runtime (mock_core lib h)" "mock_listed h" "mock_invar h"
  for lib h
proof (unfold_locales, unfold core_runtime_simps, goal_cases)
  case (1 s p a c b s') then show ?case by (rule mock_start_contract)
next
  case (2 s p a c e s') then show ?case by (rule mock_start_refused)
next
  case (3 s p a x s') then show ?case by (rule mock_stop_contract)
next
  case (4 s p a e s') then show ?case by (rule mock_stop_refused)
next
  case (5 s) then show ?case by (rule mock_snapshots_eq)
next
  case (6 s) then show ?case by (rule mock_listed_distinct)
qed

text \<open>The core a load of the mock library makes: a fresh handle with no servers.\<close>

lemma load_mock:
  assumes "mh_core heap (mh_next heap) = None"
  shows "\<exists>heap'. load (\<lambda>_. Inr (mock_library i)) path info access heap =
      Some (Inr (mock_core i (mh_next heap)), [], heap') \<and>
    mock_invar (mh_next heap) heap' \<and> mock_listed (mh_next heap) heap' = []"
proof -
  have v: "validate_api_table_header (Some API_V1) = Some (Inr ())"
    by (simp add: validate_ok_iff API_V1_def)
  show ?thesis
    by (simp add: load_def mock_library_def initialize_def v Let_def)
      (simp add: API_V1_def table_complete_def call_create_def mock_create_def create_options_new_def
        mock_core_def mock_invar_def mock_listed_def set_servers_def core_servers_def)
qed

end
