(* ===== verification/Table_Functions.thy ===== *)
theory Table_Functions
  imports Mock_Core
begin

text \<open>
  The table functions of \<open>src/lib.rs\<close>: the four \<open>..._serve\<close> functions (one definition, as
  the macro \<open>define_serve!\<close> is), \<open>duckflight_stop\<close>, \<open>duckflight_servers\<close> with its
  pagination over DuckDB's output vectors, and \<open>duckflight_core_status\<close>.

  A call of \<open>func\<close> takes the function's own state (the \<open>done\<close> flag, or the offset, both
  atomics read and written in one step), the runtime's state and the output chunk, and
  returns its result with all three. DuckDB and its vectors are not modelled beyond a
  chunk: a capacity, the cells written and the length set. Offsets are 64-bit words.
\<close>

section \<open>Output chunks\<close>

datatype cell = Varchar string | Boolean bool | UBigint u64

datatype logical_type = VarcharType | BooleanType | UBigintType

record data_chunk =
  ch_capacity :: usize
  ch_cell :: "nat \<Rightarrow> nat \<Rightarrow> cell option"
  ch_len :: usize

definition empty_chunk :: "usize \<Rightarrow> data_chunk" where
  "empty_chunk cap = \<lparr>ch_capacity = cap, ch_cell = (\<lambda>_ _. None), ch_len = 0\<rparr>"

definition write_cell :: "nat \<Rightarrow> nat \<Rightarrow> cell \<Rightarrow> data_chunk \<Rightarrow> data_chunk" where
  "write_cell column row v ch = ch\<lparr>ch_cell := (ch_cell ch)(column := (ch_cell ch column)(row := Some v))\<rparr>"

text \<open>What DuckDB reads of a chunk: its first \<open>len\<close> rows.\<close>

definition chunk_rows :: "nat \<Rightarrow> data_chunk \<Rightarrow> cell option list list" where
  "chunk_rows columns ch =
     map (\<lambda>row. map (\<lambda>column. ch_cell ch column row) [0..<columns]) [0..<unat (ch_len ch)]"

definition set_string :: "data_chunk \<Rightarrow> nat \<Rightarrow> nat \<Rightarrow> string \<Rightarrow> (box_error + unit) \<times> data_chunk" where
  "set_string output column row value =
     (if unat (ch_capacity output) \<le> row
      then (Inl (StringError (''DuckFlight attempted to write row '' @ dec_nat row @
              '' beyond output vector capacity '' @ dec_nat (unat (ch_capacity output)))), output)
      else case cstring_new value of
             Inl i \<Rightarrow> (Inl (NulError i), output)
           | Inr s \<Rightarrow> (Inr (), write_cell column row (Varchar s) output))"

definition saturating_add :: "usize \<Rightarrow> usize \<Rightarrow> usize" where
  "saturating_add a b = (if unat a + unat b < 2 ^ 64 then a + b else - 1)"

definition chunk_bounds :: "usize \<Rightarrow> usize \<Rightarrow> usize \<Rightarrow> (usize \<times> usize) option" where
  "chunk_bounds rows start capacity =
     (if rows \<le> start \<or> capacity = 0 then None
      else Some (start, min (saturating_add start capacity) rows))"

section \<open>Serve functions\<close>

record serve_bind_data =
  sb_address :: string
  sb_config_file :: string

definition serve_columns :: "(string \<times> logical_type) list" where
  "serve_columns = [(''protocol'', VarcharType), (''address'', VarcharType)]"

definition serve_parameters :: "logical_type list" where
  "serve_parameters = [VarcharType, VarcharType]"

text \<open>\<open>bind\<close> reads the two parameters DuckDB has checked against \<open>parameters\<close>.\<close>

definition serve_bind :: "string \<times> string \<Rightarrow> (string \<times> logical_type) list \<times> serve_bind_data" where
  "serve_bind parameters =
     (serve_columns, \<lparr>sb_address = fst parameters, sb_config_file = snd parameters\<rparr>)"

type_synonym 's func_result = "(box_error + unit) \<times> bool \<times> 's \<times> data_chunk"

definition serve_func ::
  "protocol \<Rightarrow> 's core_runtime \<Rightarrow> serve_bind_data \<Rightarrow> bool \<Rightarrow> 's \<Rightarrow> data_chunk \<Rightarrow> 's func_result" where
  "serve_func protocol core bind done s output =
     (if done then (Inr (), True, s, output\<lparr>ch_len := 0\<rparr>)
      else case rt_start core protocol (sb_address bind) (sb_config_file bind) s of
        (Inl e, s') \<Rightarrow> (Inl e, True, s', output)
      | (Inr address, s') \<Rightarrow>
          (case set_string output 0 0 (as_str protocol) of
             (Inl e, output') \<Rightarrow> (Inl e, True, s', output')
           | (Inr _, output') \<Rightarrow>
               (case set_string output' 1 0 address of
                  (Inl e, output'') \<Rightarrow> (Inl e, True, s', output'')
                | (Inr _, output'') \<Rightarrow> (Inr (), True, s', output''\<lparr>ch_len := 1\<rparr>))))"

section \<open>duckflight_stop\<close>

record stop_bind_data =
  st_protocol :: string
  st_address :: string

definition stop_columns :: "(string \<times> logical_type) list" where
  "stop_columns = [(''status'', VarcharType)]"

definition stop_bind :: "string \<times> string \<Rightarrow> (string \<times> logical_type) list \<times> stop_bind_data" where
  "stop_bind parameters =
     (stop_columns, \<lparr>st_protocol = fst parameters, st_address = snd parameters\<rparr>)"

definition stop_status :: "bool \<Rightarrow> protocol \<Rightarrow> string \<Rightarrow> string" where
  "stop_status stopped protocol address =
     (if stopped then ''stopped '' @ as_str protocol @ '' server on '' @ address
      else ''no '' @ as_str protocol @ '' server on '' @ address)"

definition stop_func ::
  "'s core_runtime \<Rightarrow> stop_bind_data \<Rightarrow> bool \<Rightarrow> 's \<Rightarrow> data_chunk \<Rightarrow> 's func_result" where
  "stop_func core bind done s output =
     (if done then (Inr (), True, s, output\<lparr>ch_len := 0\<rparr>)
      else case protocol_parse (st_protocol bind) of
        Inl e \<Rightarrow> (Inl e, True, s, output)
      | Inr protocol \<Rightarrow>
          (case rt_stop core protocol (st_address bind) s of
             (Inl e, s') \<Rightarrow> (Inl e, True, s', output)
           | (Inr stopped, s') \<Rightarrow>
               (case set_string output 0 0 (stop_status stopped protocol (st_address bind)) of
                  (Inl e, output') \<Rightarrow> (Inl e, True, s', output')
                | (Inr _, output') \<Rightarrow> (Inr (), True, s', output'\<lparr>ch_len := 1\<rparr>))))"

section \<open>duckflight_servers\<close>

record server_list_init =
  sl_snapshots :: "(string \<times> string) list"
  sl_offset :: usize

definition init_server_list :: "'s core_runtime \<Rightarrow> 's \<Rightarrow> (box_error + server_list_init) \<times> 's" where
  "init_server_list core s =
     (case rt_snapshots core s of
        (r, s') \<Rightarrow> (andThen r (\<lambda>rows. Inr \<lparr>sl_snapshots = rows, sl_offset = 0\<rparr>), s'))"

fun write_rows :: "nat \<Rightarrow> (string \<times> string) list \<Rightarrow> data_chunk \<Rightarrow> (box_error + unit) \<times> data_chunk" where
  "write_rows row [] output = (Inr (), output)"
| "write_rows row ((protocol, address) # rest) output =
     (case set_string output 0 row protocol of
        (Inl e, output') \<Rightarrow> (Inl e, output')
      | (Inr _, output') \<Rightarrow>
          (case set_string output' 1 row address of
             (Inl e, output'') \<Rightarrow> (Inl e, output'')
           | (Inr _, output'') \<Rightarrow> write_rows (Suc row) rest output''))"

text \<open>\<open>fetch_add\<close> claims a window and advances the offset, wrapping, in one step.\<close>

definition server_list_func ::
  "server_list_init \<Rightarrow> data_chunk \<Rightarrow> (box_error + unit) \<times> server_list_init \<times> data_chunk" where
  "server_list_func init output =
     (let capacity = ch_capacity output;
          start = sl_offset init;
          init' = init\<lparr>sl_offset := start + capacity\<rparr>
      in case chunk_bounds (of_nat (length (sl_snapshots init))) start capacity of
           None \<Rightarrow> (Inr (), init', output\<lparr>ch_len := 0\<rparr>)
         | Some (first, until) \<Rightarrow>
             (case write_rows 0 (window (unat first) (unat until) (sl_snapshots init)) output of
                (Inl e, output') \<Rightarrow> (Inl e, init', output')
              | (Inr _, output') \<Rightarrow> (Inr (), init', output'\<lparr>ch_len := until - first\<rparr>)))"

section \<open>duckflight_core_status\<close>

definition core_status_columns :: "(string \<times> logical_type) list" where
  "core_status_columns =
     [(''loaded'', BooleanType), (''abi_version'', UBigintType), (''detail'', VarcharType)]"

text \<open>The first two cells are written through mutable slices, whose index 0 is checked.\<close>

definition core_status_func ::
  "'s core_runtime \<Rightarrow> bool \<Rightarrow> data_chunk \<Rightarrow> (box_error + unit) \<times> bool \<times> data_chunk" where
  "core_status_func core done output =
     (if done then (Inr (), True, output\<lparr>ch_len := 0\<rparr>)
      else if ch_capacity output = 0
      then (Inl (Panic ''index out of bounds: the len is 0 but the index is 0''), True, output)
      else
        let status = rt_status core;
            output1 = write_cell 0 0 (Boolean (cs_loaded status)) output;
            output2 = write_cell 1 0 (UBigint (ucast DUCKFLIGHT_CORE_ABI_V1)) output1
        in case set_string output2 2 0 (cs_detail status) of
             (Inl e, output3) \<Rightarrow> (Inl e, True, output3)
           | (Inr _, output3) \<Rightarrow> (Inr (), True, output3\<lparr>ch_len := 1\<rparr>))"

section \<open>Lemmas: cells and strings\<close>

lemma write_cell_simps [simp]:
  "ch_cell (write_cell c r v ch) c' r' = (if c' = c \<and> r' = r then Some v else ch_cell ch c' r')"
  "ch_capacity (write_cell c r v ch) = ch_capacity ch"
  "ch_len (write_cell c r v ch) = ch_len ch"
  by (simp_all add: write_cell_def)

lemma set_string_ok [simp]:
  "row < unat (ch_capacity ch) \<Longrightarrow> no_nul v \<Longrightarrow> set_string ch c row v = (Inr (), write_cell c row (Varchar v) ch)"
  by (simp add: set_string_def cstring_new_no_nul)

lemma set_string_cases:
  "set_string ch c row v = (r, ch') \<Longrightarrow>
     (if row < unat (ch_capacity ch) \<and> no_nul v
      then r = Inr () \<and> ch' = write_cell c row (Varchar v) ch
      else \<not> is_ok r \<and> ch' = ch)"
  using cstring_new_nul [of v]
  by (cases "no_nul v") (auto simp: set_string_def cstring_new_no_nul split: if_splits)

lemma chunk_rows_len [simp]: "length (chunk_rows n ch) = unat (ch_len ch)"
  by (simp add: chunk_rows_def)

lemma chunk_rows_one: "ch_len ch = 1 \<Longrightarrow> chunk_rows n ch = [map (\<lambda>c. ch_cell ch c 0) [0..<n]]"
  by (simp add: chunk_rows_def)

section \<open>Lemmas: pagination\<close>

lemma unat_saturating_add: "unat (saturating_add a b) = min (unat a + unat b) (2 ^ 64 - 1)"
  by (simp add: saturating_add_def usize_add usize_max)

lemma chunk_bounds_Some:
  assumes "chunk_bounds rows start capacity = Some (first, until)"
  shows "first = start" "start < rows" "capacity \<noteq> 0"
    "unat until = min (unat start + unat capacity) (unat rows)"
    "unat first < unat until" "unat (until - first) = unat until - unat first"
    "unat (until - first) \<le> unat capacity"
proof -
  show b: "first = start" "start < rows" "capacity \<noteq> 0"
    using assms by (auto simp: chunk_bounds_def split: if_splits)
  have u: "until = min (saturating_add start capacity) rows"
    using assms by (auto simp: chunk_bounds_def split: if_splits)
  have "unat until = min (unat (saturating_add start capacity)) (unat rows)"
    unfolding u by (simp add: min_def word_le_nat_alt)
  then show n: "unat until = min (unat start + unat capacity) (unat rows)"
    using usize_bound [of rows] by (simp add: unat_saturating_add)
  have "0 < unat capacity" using b(3) by (simp add: unat_gt_0)
  then show lt: "unat first < unat until" using b(1,2) n by (simp add: word_less_nat_alt)
  then show d: "unat (until - first) = unat until - unat first"
    by (simp add: unat_sub word_le_nat_alt)
  show "unat (until - first) \<le> unat capacity" using d n b(1) by simp
qed

lemma chunk_bounds_None:
  "chunk_bounds rows start capacity = None \<longleftrightarrow> unat rows \<le> unat start \<or> unat capacity = 0"
  by (auto simp: chunk_bounds_def word_le_nat_alt unat_eq_0)

definition row_cells :: "string \<times> string \<Rightarrow> cell option list" where
  "row_cells r = [Some (Varchar (fst r)), Some (Varchar (snd r))]"

definition rows_text :: "(string \<times> string) list \<Rightarrow> bool" where
  "rows_text rows \<longleftrightarrow> (\<forall>(a, b) \<in> set rows. no_nul a \<and> no_nul b)"

lemma rows_text_simps [simp]:
  "rows_text []" "rows_text (r # rs) \<longleftrightarrow> no_nul (fst r) \<and> no_nul (snd r) \<and> rows_text rs"
  by (auto simp: rows_text_def split: prod.splits)

lemma rows_text_window: "rows_text rows \<Longrightarrow> rows_text (window i j rows)"
  by (auto simp: rows_text_def window_def dest: in_set_takeD in_set_dropD)

lemma write_rows_ok:
  assumes "rows_text rows" "row + length rows \<le> unat (ch_capacity ch)"
  shows "\<exists>ch'. write_rows row rows ch = (Inr (), ch') \<and> ch_capacity ch' = ch_capacity ch \<and>
    (\<forall>c r. ch_cell ch' c r = (if row \<le> r \<and> r < row + length rows \<and> c < 2
        then row_cells (rows ! (r - row)) ! c else ch_cell ch c r))"
  using assms
proof (induction rows arbitrary: row ch)
  case (Cons r0 rest)
  obtain p a where r0: "r0 = (p, a)" by (cases r0)
  let ?ch = "write_cell 1 row (Varchar a) (write_cell 0 row (Varchar p) ch)"
  obtain ch' where ch': "write_rows (Suc row) rest ?ch = (Inr (), ch')"
    "ch_capacity ch' = ch_capacity ?ch"
    "\<And>c r. ch_cell ch' c r = (if Suc row \<le> r \<and> r < Suc row + length rest \<and> c < 2
        then row_cells (rest ! (r - Suc row)) ! c else ch_cell ?ch c r)"
    using Cons.IH [of "Suc row" ?ch] Cons.prems by auto
  have cells: "ch_cell ch' c r = (if row \<le> r \<and> r < row + length ((p, a) # rest) \<and> c < 2
        then row_cells (((p, a) # rest) ! (r - row)) ! c else ch_cell ch c r)" for c r
    by (cases "r = row")
      (auto simp: ch'(3) row_cells_def less_2_cases_iff Suc_le_eq nth_Cons')
  have "write_rows row ((p, a) # rest) ch = (Inr (), ch')"
    using ch'(1) Cons.prems by (simp add: r0)
  then show ?case
    unfolding r0 using ch'(2) by (intro exI [of _ ch'] conjI allI cells) simp_all
qed auto

lemma server_list_func_ok:
  assumes rows: "rows_text (sl_snapshots init)" and size: "length (sl_snapshots init) < 2 ^ 64"
    and "server_list_func init ch = (r, init', ch')"
  shows "r = Inr ()" and "init' = init\<lparr>sl_offset := sl_offset init + ch_capacity ch\<rparr>"
    and "chunk_rows 2 ch' = map row_cells (window (unat (sl_offset init))
      (unat (sl_offset init) + unat (ch_capacity ch)) (sl_snapshots init))"
proof -
  let ?rows = "sl_snapshots init" and ?start = "sl_offset init" and ?cap = "ch_capacity ch"
  have n: "unat (of_nat (length ?rows) :: usize) = length ?rows"
    using size by (rule usize_of_nat)
  have *: "r = Inr () \<and> init' = init\<lparr>sl_offset := ?start + ?cap\<rparr> \<and>
    chunk_rows 2 ch' = map row_cells (window (unat ?start) (unat ?start + unat ?cap) ?rows)"
  proof (cases "chunk_bounds (of_nat (length ?rows)) ?start ?cap")
    case None
    then have "length ?rows \<le> unat ?start \<or> unat ?cap = 0" by (simp add: chunk_bounds_None n)
    then have "window (unat ?start) (unat ?start + unat ?cap) ?rows = []" by (auto simp: window_def)
    with None assms(3) show ?thesis
      by (auto simp: server_list_func_def Let_def chunk_rows_def)
  next
    case (Some b)
    obtain first until where b: "b = (first, until)" by (cases b)
    note cb = chunk_bounds_Some [OF Some [unfolded b]]
    let ?w = "window (unat first) (unat until) ?rows"
    have len: "length ?w = unat (until - first)" using cb n by simp
    have "0 + length ?w \<le> unat ?cap" using len cb by simp
    with write_rows_ok [OF rows_text_window [OF rows]] obtain ch1 where
      w: "write_rows 0 ?w ch = (Inr (), ch1)" and
      c: "\<And>c r. ch_cell ch1 c r = (if 0 \<le> r \<and> r < 0 + length ?w \<and> c < 2
        then row_cells (?w ! (r - 0)) ! c else ch_cell ch c r)" by blast
    have ch': "ch' = ch1\<lparr>ch_len := until - first\<rparr>" and r: "r = Inr ()"
      and i: "init' = init\<lparr>sl_offset := ?start + ?cap\<rparr>"
      using assms(3) Some b w by (auto simp: server_list_func_def Let_def)
    have "chunk_rows 2 ch' = map row_cells ?w"
      unfolding chunk_rows_def ch'
      by (rule nth_equalityI) (use len c in \<open>auto simp: row_cells_def numeral_2_eq_2\<close>)
    moreover have "?w = window (unat ?start) (unat ?start + unat ?cap) ?rows"
      using cb n by (auto simp: window_def min_def)
    ultimately show ?thesis using r i by simp
  qed
  then show "r = Inr ()" "init' = init\<lparr>sl_offset := ?start + ?cap\<rparr>"
    "chunk_rows 2 ch' = map row_cells (window (unat ?start) (unat ?start + unat ?cap) ?rows)"
    by blast+
qed

text \<open>The rows that \<open>n\<close> successive calls emit into fresh vectors of one capacity.\<close>

primrec scan_servers :: "nat \<Rightarrow> usize \<Rightarrow> server_list_init \<Rightarrow> cell option list list" where
  "scan_servers 0 cap init = []"
| "scan_servers (Suc n) cap init =
     (case server_list_func init (empty_chunk cap) of
        (r, init', ch) \<Rightarrow> chunk_rows 2 ch @ scan_servers n cap init')"

lemma scan_servers_window:
  assumes "rows_text rows" "length rows < 2 ^ 64" "unat off + n * unat cap < 2 ^ 64"
  shows "scan_servers n cap \<lparr>sl_snapshots = rows, sl_offset = off\<rparr> =
    map row_cells (window (unat off) (unat off + n * unat cap) rows)"
  using assms(3)
proof (induction n arbitrary: off)
  case (Suc n)
  obtain r init' ch where f: "server_list_func \<lparr>sl_snapshots = rows, sl_offset = off\<rparr> (empty_chunk cap) =
      (r, init', ch)" by (metis prod_cases3)
  have u: "unat (off + cap) = unat off + unat cap"
    using Suc.prems by (simp add: unat_word_ariths)
  have "window (unat off) (unat off + unat cap) rows @
      window (unat off + unat cap) (unat off + unat cap + n * unat cap) rows =
      window (unat off) (unat off + unat cap + n * unat cap) rows"
    by (rule window_append) simp_all
  moreover have "scan_servers n cap \<lparr>sl_snapshots = rows, sl_offset = off + cap\<rparr> =
      map row_cells (window (unat off + unat cap) (unat off + unat cap + n * unat cap) rows)"
    using Suc by (simp add: u)
  ultimately show ?case
    using server_list_func_ok [OF _ _ f] assms(1,2) f
    by (simp add: empty_chunk_def add.assoc flip: map_append)
qed (simp add: window_def)

end
