(* ===== verification/Server_Control.thy ===== *)
theory Server_Control
  imports Table_Functions
begin

text \<open>
  What the server-control functions do to the servers of a runtime. Inside the locale
  \<open>server_runtime\<close>: each call's effect on the list of servers and the row it emits. An
  abstract registry (\<open>registry_step\<close>) then says all a caller may rely on, and every
  sequence of calls refines it.
\<close>

section \<open>The functions on any runtime\<close>

lemma serve_func_done: "serve_func p core bind True s ch = (Inr (), True, s, ch\<lparr>ch_len := 0\<rparr>)"
  by (simp add: serve_func_def)

lemma stop_func_done: "stop_func core bind True s ch = (Inr (), True, s, ch\<lparr>ch_len := 0\<rparr>)"
  by (simp add: stop_func_def)

lemma core_status_func_done: "core_status_func core True ch = (Inr (), True, ch\<lparr>ch_len := 0\<rparr>)"
  by (simp add: core_status_func_def)

lemma chunk_rows_serve:
  "ch_len ch = 1 \<Longrightarrow> ch_cell ch 0 0 = Some (Varchar a) \<Longrightarrow> ch_cell ch 1 0 = Some (Varchar b) \<Longrightarrow>
     chunk_rows 2 ch = [row_cells (a, b)]"
  by (simp add: chunk_rows_one row_cells_def numeral_2_eq_2)

text \<open>Every outcome of a first call, in terms of what the runtime's \<open>start\<close> returned.\<close>

lemma serve_func_cases:
  assumes "serve_func p core bind False s ch = (r, d, s', ch')"
  obtains (refused) e where "rt_start core p (sb_address bind) (sb_config_file bind) s = (Inl e, s')"
      "r = Inl e" "d"
  | (served) a where "rt_start core p (sb_address bind) (sb_config_file bind) s = (Inr a, s')"
      "no_nul a" "0 < unat (ch_capacity ch)" "r = Inr ()" "d" "chunk_rows 2 ch' = [row_cells (as_str p, a)]"
  | (unreported) a where "rt_start core p (sb_address bind) (sb_config_file bind) s = (Inr a, s')"
      "\<not> (no_nul a \<and> 0 < unat (ch_capacity ch))" "\<not> is_ok r" "d"
proof (cases "rt_start core p (sb_address bind) (sb_config_file bind) s")
  case (Pair r0 s0)
  show ?thesis
  proof (cases r0)
    case (Inl e)
    with Pair assms show ?thesis by (intro refused) (auto simp: serve_func_def)
  next
    case (Inr a)
    note start = Pair [unfolded Inr]
    show ?thesis
    proof (cases "no_nul a \<and> 0 < unat (ch_capacity ch)")
      case True
      with start assms show ?thesis
        by (intro served [of a]) (auto simp: serve_func_def intro!: chunk_rows_serve)
    next
      case False
      obtain r1 ch1 where one: "set_string ch 0 0 (as_str p) = (r1, ch1)" by fastforce
      obtain r2 ch2 where two: "set_string ch1 1 0 a = (r2, ch2)" by fastforce
      have "\<not> is_ok r1 \<or> \<not> is_ok r2"
        using False set_string_cases [OF one] set_string_cases [OF two] by (auto split: if_splits)
      with start assms one two False show ?thesis
        by (intro unreported [of a]) (auto simp: serve_func_def is_ok_def split: sum.splits)
    qed
  qed
qed

lemma stop_func_cases:
  assumes "stop_func core bind False s ch = (r, d, s', ch')"
  obtains (unsupported) e where "protocol_parse (st_protocol bind) = Inl e" "r = Inl e" "s' = s" "d"
  | (refused) p e where "protocol_parse (st_protocol bind) = Inr p"
      "rt_stop core p (st_address bind) s = (Inl e, s')" "r = Inl e" "d"
  | (answered) p x where "protocol_parse (st_protocol bind) = Inr p"
      "rt_stop core p (st_address bind) s = (Inr x, s')" "r = Inr ()" "d"
      "chunk_rows 1 ch' = [[Some (Varchar (stop_status x p (st_address bind)))]]"
  | (unreported) p x where "protocol_parse (st_protocol bind) = Inr p"
      "rt_stop core p (st_address bind) s = (Inr x, s')" "\<not> is_ok r" "d"
      "\<not> (no_nul (st_address bind) \<and> 0 < unat (ch_capacity ch))"
proof (cases "protocol_parse (st_protocol bind)")
  case (Inl e)
  with assms show ?thesis by (intro unsupported) (auto simp: stop_func_def)
next
  case (Inr p)
  note parse = this
  show ?thesis
  proof (cases "rt_stop core p (st_address bind) s")
    case (Pair r0 s0)
    show ?thesis
    proof (cases r0)
      case (Inl e)
      with Pair parse assms show ?thesis by (intro refused [of p e]) (auto simp: stop_func_def)
    next
      case (Inr x)
      have nul: "no_nul (stop_status x p (st_address bind)) \<longleftrightarrow> no_nul (st_address bind)"
        by (auto simp: stop_status_def)
      show ?thesis
      proof (cases "no_nul (st_address bind) \<and> 0 < unat (ch_capacity ch)")
        case True
        with Pair Inr parse assms nul show ?thesis
          by (intro answered [of p x]) (auto simp: stop_func_def chunk_rows_one)
      next
        case False
        obtain r1 ch1 where one: "set_string ch 0 0 (stop_status x p (st_address bind)) = (r1, ch1)"
          by fastforce
        then have "\<not> is_ok r1" using False nul set_string_cases [OF one] by (auto split: if_splits)
        with one False Pair Inr parse assms show ?thesis
          by (intro unreported [of p x]) (auto simp: stop_func_def is_ok_def split: sum.splits)
      qed
    qed
  qed
qed

section \<open>The abstract registry\<close>

datatype sql_call = Serve protocol string string | Stop string string

text \<open>One call over a fresh vector of the given capacity.\<close>

definition run_call :: "'s core_runtime \<Rightarrow> usize \<Rightarrow> sql_call \<Rightarrow> 's \<Rightarrow> (box_error + unit) \<times> bool \<times> 's \<times> data_chunk" where
  "run_call core cap call s =
     (case call of
        Serve p address config \<Rightarrow>
          serve_func p core (snd (serve_bind (address, config))) False s (empty_chunk cap)
      | Stop protocol address \<Rightarrow>
          stop_func core (snd (stop_bind (protocol, address))) False s (empty_chunk cap))"

primrec run_calls :: "'s core_runtime \<Rightarrow> usize \<Rightarrow> sql_call list \<Rightarrow> 's \<Rightarrow> 's" where
  "run_calls core cap [] s = s"
| "run_calls core cap (call # calls) s =
     (case run_call core cap call s of (r, d, s', ch) \<Rightarrow> run_calls core cap calls s')"

inductive registry_step :: "(protocol \<times> string) list \<Rightarrow> sql_call \<Rightarrow> (protocol \<times> string) list \<Rightarrow> bool" where
  started: "registry_step R (Serve p a c) (register (p, b) R)"
| stopped: "protocol_parse pr = Inr p \<Longrightarrow> registry_step R (Stop pr a) (unregister (p, a) R)"
| refused: "registry_step R call R"

inductive_cases registry_serveE: "registry_step R (Serve p a c) R'"
inductive_cases registry_stopE: "registry_step R (Stop pr a) R'"
inductive_simps registry_stop_simps: "registry_step R (Stop pr a) R'"

lemma registry_step_distinct: "registry_step R call R' \<Longrightarrow> distinct R \<Longrightarrow> distinct R'"
  by (induction rule: registry_step.induct) (simp_all add: distinct_register distinct_unregister)

text \<open>A server appears only by being served, and disappears only by being stopped.\<close>

lemma registry_step_new:
  "registry_step R call R' \<Longrightarrow> x \<in> set R' \<Longrightarrow> x \<notin> set R \<Longrightarrow> \<exists>a c. call = Serve (fst x) a c"
  by (induction rule: registry_step.induct) auto

lemma registry_step_gone:
  "registry_step R call R' \<Longrightarrow> x \<in> set R \<Longrightarrow> x \<notin> set R' \<Longrightarrow>
     \<exists>pr. call = Stop pr (snd x) \<and> protocol_parse pr = Inr (fst x)"
  by (induction rule: registry_step.induct) auto

inductive registry_run :: "(protocol \<times> string) list \<Rightarrow> sql_call list \<Rightarrow> (protocol \<times> string) list \<Rightarrow> bool" where
  Nil: "registry_run R [] R"
| Cons: "registry_step R call R1 \<Longrightarrow> registry_run R1 calls R2 \<Longrightarrow> registry_run R (call # calls) R2"

lemma registry_run_distinct: "registry_run R calls R' \<Longrightarrow> distinct R \<Longrightarrow> distinct R'"
  by (induction rule: registry_run.induct) (auto dest: registry_step_distinct)

lemma registry_run_new:
  "registry_run R calls R' \<Longrightarrow> x \<in> set R' \<Longrightarrow> x \<notin> set R \<Longrightarrow>
     \<exists>a c. Serve (fst x) a c \<in> set calls"
proof (induction rule: registry_run.induct)
  case (Cons R call R1 calls R2)
  show ?case
  proof (cases "x \<in> set R1")
    case True
    from registry_step_new [OF Cons(1) True Cons.prems(2)] show ?thesis by auto
  next
    case False
    from Cons.IH [OF Cons.prems(1) False] show ?thesis by auto
  qed
qed simp

lemma registry_run_gone:
  "registry_run R calls R' \<Longrightarrow> x \<in> set R \<Longrightarrow> x \<notin> set R' \<Longrightarrow>
     \<exists>pr. Stop pr (snd x) \<in> set calls \<and> protocol_parse pr = Inr (fst x)"
proof (induction rule: registry_run.induct)
  case (Cons R call R1 calls R2)
  show ?case
  proof (cases "x \<in> set R1")
    case True
    from Cons.IH [OF True Cons.prems(2)] show ?thesis by auto
  next
    case False
    from registry_step_gone [OF Cons(1) Cons.prems(1) False] show ?thesis by auto
  qed
qed simp

section \<open>Every runtime that meets the contract refines the registry\<close>

context server_runtime begin

lemma serve_registers:
  assumes "invar s" "serve_func p rt bind False s ch = (Inr u, d, s', ch')"
  shows "\<exists>b. listed s' = register (p, b) (listed s) \<and> invar s' \<and> valid_utf8 b \<and>
    chunk_rows 2 ch' = [row_cells (as_str p, b)]"
  using assms(2)
proof (cases rule: serve_func_cases)
  case (served a)
  with start_Inr [OF assms(1) served(1)] show ?thesis by blast
qed simp_all

lemma serve_then_listed:
  assumes "invar s" "serve_func p rt bind False s ch = (Inr u, d, s', ch')"
  shows "\<exists>b init. chunk_rows 2 ch' = [row_cells (as_str p, b)] \<and>
    init_server_list rt s' = (Inr init, s') \<and> sl_offset init = 0 \<and>
    (as_str p, b) \<in> set (sl_snapshots init) \<and> distinct (sl_snapshots init)"
proof -
  obtain b where b: "listed s' = register (p, b) (listed s)" "invar s'"
    "chunk_rows 2 ch' = [row_cells (as_str p, b)]"
    using serve_registers [OF assms] by blast
  moreover have "rt_snapshots rt s' = (Inr (map server_row (listed s')), s')"
    using b(2) by (rule snapshots_rows)
  moreover have "distinct (map server_row (listed s'))"
    using listed_distinct [OF b(2)] by (simp add: distinct_map inj_on_def)
  moreover have "(as_str p, b) \<in> set (map server_row (listed s'))"
    using b(1) by (simp add: server_row_def)
  ultimately show ?thesis by (intro exI [of _ b]) (simp add: init_server_list_def)
qed

lemma stop_reports:
  assumes "invar s" "stop_func rt bind False s ch = (Inr u, d, s', ch')"
  shows "\<exists>p. protocol_parse (st_protocol bind) = Inr p \<and> invar s' \<and>
    listed s' = unregister (p, st_address bind) (listed s) \<and>
    chunk_rows 1 ch' = [[Some (Varchar (stop_status ((p, st_address bind) \<in> set (listed s)) p (st_address bind)))]]"
  using assms(2)
proof (cases rule: stop_func_cases)
  case (answered p x)
  have "x \<longleftrightarrow> (p, st_address bind) \<in> set (listed s)"
    using stop_Inr [OF assms(1) answered(2)] by blast
  with answered(1,5) stop_Inr [OF assms(1) answered(2)] show ?thesis
    by (intro exI [of _ p]) simp
qed simp_all

lemma run_call_refines:
  assumes "invar s" "run_call rt cap call s = (r, d, s', ch)"
  shows "invar s' \<and> registry_step (listed s) call (listed s')"
proof (cases call)
  case (Serve p a c)
  with assms(2) have f: "serve_func p rt (snd (serve_bind (a, c))) False s (empty_chunk cap) = (r, d, s', ch)"
    by (simp add: run_call_def)
  from f show ?thesis
  proof (cases rule: serve_func_cases)
    case (refused e)
    with start_Inl [OF assms(1)] show ?thesis by (metis registry_step.refused)
  next
    case (served b)
    with start_Inr [OF assms(1)] Serve show ?thesis by (metis registry_step.started)
  next
    case (unreported b)
    with start_Inr [OF assms(1)] Serve show ?thesis by (metis registry_step.started)
  qed
next
  case (Stop pr a)
  with assms(2) have f: "stop_func rt \<lparr>st_protocol = pr, st_address = a\<rparr> False s (empty_chunk cap) = (r, d, s', ch)"
    by (simp add: run_call_def stop_bind_def)
  from f show ?thesis
  proof (cases rule: stop_func_cases)
    case (unsupported e)
    with assms(1) show ?thesis by (simp add: registry_step.refused)
  next
    case (refused p e)
    with stop_Inl [OF assms(1)] show ?thesis by (metis registry_step.refused)
  next
    case (answered p x)
    with stop_Inr [OF assms(1)] Stop show ?thesis
      by (metis registry_step.stopped stop_bind_data.select_convs)
  next
    case (unreported p x)
    with stop_Inr [OF assms(1)] Stop show ?thesis
      by (metis registry_step.stopped stop_bind_data.select_convs)
  qed
qed

lemma run_calls_refines:
  "invar s \<Longrightarrow> invar (run_calls rt cap calls s) \<and>
     registry_run (listed s) calls (listed (run_calls rt cap calls s))"
proof (induction calls arbitrary: s)
  case (Cons call calls)
  obtain r d s1 ch where c: "run_call rt cap call s = (r, d, s1, ch)" by (metis prod_cases4)
  with run_call_refines [OF Cons.prems c] Cons.IH [of s1] show ?case
    by (auto intro: registry_run.Cons)
qed (simp add: registry_run.Nil)

end

end
