(* ===== verification/Extension_Entry.thy ===== *)
theory Extension_Entry
  imports Server_Control
begin

text \<open>
  How the extension starts (\<open>src/lib.rs\<close>: \<open>register_extension\<close>,
  \<open>duckflight_init_c_api_internal\<close>, \<open>duckflight_init_c_api\<close>) and how its build script
  (\<open>build.rs\<close>) decides whether a core is embedded. DuckDB's side (API initialisation, the
  database pointer, the connection, registration) is a record of answers; an error of the
  duckdb crate is its text.
\<close>

section \<open>Registration\<close>

datatype table_function = ServeFunction protocol | StopFunction | ServerListFunction | CoreStatusFunction

definition table_functions :: "(string \<times> table_function) list" where
  "table_functions =
     [(''duckflight_pg_serve'', ServeFunction PgWire),
      (''duckflight_flight_serve'', ServeFunction FlightSql),
      (''duckflight_http_serve'', ServeFunction Http),
      (''duckflight_quack_serve'', ServeFunction Quack),
      (''duckflight_stop'', StopFunction),
      (''duckflight_servers'', ServerListFunction),
      (''duckflight_core_status'', CoreStatusFunction)]"

text \<open>The parameter types each function declares, \<open>None\<close> where it declares none.\<close>

fun parameters_of :: "table_function \<Rightarrow> logical_type list option" where
  "parameters_of (ServeFunction p) = Some serve_parameters"
| "parameters_of StopFunction = Some [VarcharType, VarcharType]"
| "parameters_of ServerListFunction = None"
| "parameters_of CoreStatusFunction = None"

text \<open>Register in order; the first refusal ends it, keeping what is registered so far.\<close>

fun register_all ::
  "(string \<Rightarrow> string + unit) \<Rightarrow> (string \<times> table_function) list \<Rightarrow>
     (box_error + unit) \<times> (string \<times> table_function) list" where
  "register_all reg [] = (Inr (), [])"
| "register_all reg (f # fs) =
     (case reg (fst f) of
        Inl e \<Rightarrow> (Inl (StringError e), [])
      | Inr _ \<Rightarrow> (case register_all reg fs of (r, regs) \<Rightarrow> (r, f # regs)))"

definition register_extension ::
  "(string \<Rightarrow> string + unit) \<Rightarrow> (box_error + unit) \<times> (string \<times> table_function) list" where
  "register_extension reg = register_all reg table_functions"

section \<open>Choosing the core\<close>

type_synonym 'p loaded = "(box_error + 'p dynamic_core) \<times> release list \<times> 'p"

text \<open>
  The build's configuration: with an embedded core the loader of its bytes, otherwise the
  value of \<open>DUCKFLIGHT_CORE_PATH\<close> and the loader of a path.
\<close>

datatype 'p core_source =
    Bundled "'p \<Rightarrow> 'p loaded option"
  | Configured "string option" "string \<Rightarrow> 'p \<Rightarrow> 'p loaded option"

definition core_or_unavailable :: "(box_error \<Rightarrow> string) \<Rightarrow> 'p loaded \<Rightarrow> 'p core_runtime \<times> 'p" where
  "core_or_unavailable why result =
     (case result of
        (Inr dc, _, p') \<Rightarrow> (dynamic_runtime dc, p')
      | (Inl e, _, p') \<Rightarrow> (unavailable_core (why e), p'))"

definition choose_core :: "'p core_source \<Rightarrow> 'p \<Rightarrow> ('p core_runtime \<times> 'p) option" where
  "choose_core source p =
     (case source of
        Bundled load_core \<Rightarrow>
          map_option (core_or_unavailable (\<lambda>e. ''bundled core failed to initialize: '' @ error_text e))
            (load_core p)
      | Configured None _ \<Rightarrow> Some (unavailable_core ''DUCKFLIGHT_CORE_PATH is not set'', p)
      | Configured (Some path) load_core \<Rightarrow>
          map_option (core_or_unavailable (\<lambda>_. ''configured runtime failed to load or initialize''))
            (load_core path p))"

section \<open>Initialisation\<close>

record duckdb_host =
  api_init :: "string \<Rightarrow> string + bool"
  get_database :: "pointer option"  \<comment> \<open>\<open>None\<close>: the function pointer itself is null\<close>
  open_connection :: "nat \<Rightarrow> string + unit"
  register_function :: "string \<Rightarrow> string + unit"
  has_set_error :: bool

text \<open>The result, what is registered, and the core it is registered with.\<close>

type_synonym 'p init_result =
  "(box_error + bool) \<times> (string \<times> table_function) list \<times> 'p core_runtime option \<times> 'p"

definition duckflight_init_c_api_internal ::
  "duckdb_host \<Rightarrow> 'p core_source \<Rightarrow> 'p \<Rightarrow> 'p init_result option" where
  "duckflight_init_c_api_internal host source p =
     (case api_init host ''v1.5.6'' of
        Inl e \<Rightarrow> Some (Inl (StringError e), [], None, p)
      | Inr False \<Rightarrow> Some (Inr False, [], None, p)
      | Inr True \<Rightarrow>
          (case get_database host of
             None \<Rightarrow> Some (Inl (StringError
                 ''get_database function pointer is null in duckdb_extension_access''), [], None, p)
           | Some None \<Rightarrow> Some (Inr False, [], None, p)
           | Some (Some database) \<Rightarrow>
               (case open_connection host database of
                  Inl e \<Rightarrow> Some (Inl (StringError e), [], None, p)
                | Inr _ \<Rightarrow>
                    map_option (\<lambda>(core, p').
                      (case register_extension (register_function host) of
                         (r, registered) \<Rightarrow>
                           (andThen r (\<lambda>_. Inr True), registered, Some core, p')))
                      (choose_core source p))))"

definition init_fallback_error :: string where
  "init_fallback_error = ''DuckFlight initialization failed and its error was not valid UTF-8''"

text \<open>The message handed to DuckDB for an error, if it takes one.\<close>

definition reported_error :: "duckdb_host \<Rightarrow> box_error \<Rightarrow> string option" where
  "reported_error host e =
     (if has_set_error host
      then Some (case cstring_new (error_text e) of Inr text \<Rightarrow> text | Inl _ \<Rightarrow> init_fallback_error)
      else None)"

definition duckflight_init_c_api ::
  "duckdb_host \<Rightarrow> 'p core_source \<Rightarrow> 'p \<Rightarrow> (bool \<times> string option) option" where
  "duckflight_init_c_api host source p =
     map_option (\<lambda>(r, _). case r of
         Inr initialized \<Rightarrow> (initialized, None)
       | Inl e \<Rightarrow> (False, reported_error host e))
       (duckflight_init_c_api_internal host source p)"

section \<open>The build script\<close>

record build_env =
  be_bundle_path :: "string option"
  be_is_file :: "string \<Rightarrow> bool"
  be_out_dir :: "string option"
  be_copy :: "string \<Rightarrow> string \<Rightarrow> string + unit"

datatype build_result = Directives "string list" | BuildPanic string

text \<open>\<open>PathBuf::join\<close> with a relative component.\<close>

definition path_join :: "string \<Rightarrow> string \<Rightarrow> string" where
  "path_join dir name = (if dir = [] \<or> ends_with dir ''/'' then dir @ name else dir @ ''/'' @ name)"

definition build_main :: "build_env \<Rightarrow> build_result" where
  "build_main env =
     (let always = [''cargo:rustc-check-cfg=cfg(duckflight_bundled_core)'',
                    ''cargo:rerun-if-env-changed=DUCKFLIGHT_CORE_BUNDLE_PATH''] in
      case be_bundle_path env of
        None \<Rightarrow> Directives always
      | Some source \<Rightarrow>
          if \<not> be_is_file env source
          then BuildPanic (''DuckFlight core bundle is missing: '' @ from_utf8_lossy source)
          else (case be_out_dir env of
              None \<Rightarrow> BuildPanic ''Cargo must provide OUT_DIR''
            | Some out \<Rightarrow>
                (let output = path_join out ''duckflight_core.bundle'' in
                 case be_copy env source output of
                   Inl e \<Rightarrow> BuildPanic (''copy DuckFlight core bundle '' @ from_utf8_lossy source @
                       '' to '' @ from_utf8_lossy output @ '': '' @ e)
                 | Inr _ \<Rightarrow> Directives (always @ [''cargo:rerun-if-changed='' @ from_utf8_lossy source,
                       ''cargo:rustc-cfg=duckflight_bundled_core'']))))"

section \<open>Lemmas\<close>

lemma register_all_Inr: "register_all reg fs = (Inr u, regs) \<Longrightarrow> regs = fs"
  by (induction reg fs arbitrary: regs rule: register_all.induct) (auto split: sum.splits prod.splits)

lemma register_all_Inl:
  "register_all reg fs = (Inl e, regs) \<Longrightarrow>
     \<exists>f rest m. fs = regs @ f # rest \<and> reg (fst f) = Inl m \<and> e = StringError m"
proof (induction reg fs arbitrary: regs rule: register_all.induct)
  case (2 reg f fs)
  show ?case
  proof (cases "reg (fst f)")
    case (Inl m)
    with 2 show ?thesis by auto
  next
    case (Inr u)
    with "2.prems" obtain d where "register_all reg fs = (Inl e, d)" "regs = f # d"
      by (auto split: prod.splits)
    with 2(1) [OF Inr] show ?thesis by fastforce
  qed
qed simp

lemma table_functions_distinct: "distinct (map fst table_functions)"
  by (simp add: table_functions_def)

text \<open>A core that cannot be loaded leaves an unavailable core, never a failed load.\<close>

lemma core_or_unavailable_cases:
  "core_or_unavailable why l = (core, p') \<Longrightarrow>
     (\<exists>dc. core = dynamic_runtime dc) \<or> (\<exists>d. core = unavailable_core d)"
  by (auto simp: core_or_unavailable_def split: prod.splits sum.splits)

lemma choose_core_cases:
  assumes "choose_core source p = Some (core, p')"
  shows "(\<exists>dc. core = dynamic_runtime dc \<and> cs_loaded (rt_status core)) \<or>
    (\<exists>d. core = unavailable_core d \<and> \<not> cs_loaded (rt_status core))"
proof -
  have "(\<exists>dc. core = dynamic_runtime dc) \<or> (\<exists>d. core = unavailable_core d)"
    using assms
    by (auto simp: choose_core_def split: core_source.splits option.splits
        dest: core_or_unavailable_cases)
  then show ?thesis by (auto simp: dynamic_status_def)
qed

lemma init_registers:
  assumes "duckflight_init_c_api_internal host source p = Some (Inr True, fs, core, p')"
  shows "fs = table_functions" and "core \<noteq> None"
proof -
  obtain r regs where reg: "register_all (register_function host) table_functions = (r, regs)"
    by fastforce
  have "fs = table_functions \<and> core \<noteq> None"
    using assms reg
    by (auto simp: duckflight_init_c_api_internal_def register_extension_def andThen_Inr_iff
        split: sum.splits bool.splits option.splits dest: register_all_Inr)
  then show "fs = table_functions" "core \<noteq> None" by simp_all
qed

lemma ascii_init_fallback: "no_nul init_fallback_error" "valid_utf8 init_fallback_error"
  by (auto simp: init_fallback_error_def intro!: ascii_valid)

lemma c_string_or:
  "(case cstring_new t of Inr text \<Rightarrow> text | Inl _ \<Rightarrow> d) = (if no_nul t then t else d)"
proof (cases "no_nul t")
  case True
  then show ?thesis by (simp only: cstring_new_no_nul sum.case if_True)
next
  case False
  with cstring_new_nul [OF False] show ?thesis by auto
qed

lemma reported_error_cases:
  "reported_error host e = (if has_set_error host then
     Some (if no_nul (error_text e) then error_text e else init_fallback_error) else None)"
  by (simp only: reported_error_def c_string_or)

end
