(* ===== verification/Table_Query.thy ===== *)
theory Table_Query
  imports Extension_Entry
begin

text \<open>
  A query of a table function as a whole (the four implementations of \<open>VTab\<close> in
  \<open>src/lib.rs\<close>): the trait's operations as a record over the function's bind data and state,
  the loop in which DuckDB calls \<open>bind\<close>, \<open>init\<close> and then \<open>func\<close> over fresh vectors until one
  comes back empty, and the lookup by name among the registered functions. The lemmas show
  that every query ends, that a control function answers with one row, and that the list of
  servers is complete whatever the vectors' capacity.
\<close>

section \<open>The trait\<close>

record ('b, 'i, 's) vtab =
  vt_parameters :: "logical_type list option"
  vt_bind :: "string list \<Rightarrow> (string \<times> logical_type) list \<times> 'b"
  vt_init :: "'s \<Rightarrow> (box_error + 'i) \<times> 's"
  vt_func :: "'b \<Rightarrow> 'i \<Rightarrow> 's \<Rightarrow> data_chunk \<Rightarrow> (box_error + unit) \<times> 'i \<times> 's \<times> data_chunk"

text \<open>\<open>EmitOnce\<close>: whether the row was emitted.\<close>

definition emit_once_new :: bool where
  "emit_once_new = False"

definition emit_once_init :: "'s \<Rightarrow> (box_error + bool) \<times> 's" where
  "emit_once_init s = (Inr emit_once_new, s)"

definition serve_vtab :: "protocol \<Rightarrow> 's core_runtime \<Rightarrow> (serve_bind_data, bool, 's) vtab" where
  "serve_vtab protocol core = \<lparr>vt_parameters = Some serve_parameters,
     vt_bind = (\<lambda>parameters. serve_bind (parameters ! 0, parameters ! 1)),
     vt_init = emit_once_init, vt_func = serve_func protocol core\<rparr>"

definition stop_parameters :: "logical_type list" where
  "stop_parameters = [VarcharType, VarcharType]"

definition stop_vtab :: "'s core_runtime \<Rightarrow> (stop_bind_data, bool, 's) vtab" where
  "stop_vtab core = \<lparr>vt_parameters = Some stop_parameters,
     vt_bind = (\<lambda>parameters. stop_bind (parameters ! 0, parameters ! 1)),
     vt_init = emit_once_init, vt_func = stop_func core\<rparr>"

text \<open>\<open>EmptyBindData\<close> is \<open>unit\<close>.\<close>

definition server_list_columns :: "(string \<times> logical_type) list" where
  "server_list_columns = [(''protocol'', VarcharType), (''address'', VarcharType)]"

definition server_list_bind :: "string list \<Rightarrow> (string \<times> logical_type) list \<times> unit" where
  "server_list_bind parameters = (server_list_columns, ())"

definition server_list_call :: "server_list_init \<Rightarrow> 's \<Rightarrow> data_chunk \<Rightarrow> (box_error + unit) \<times> server_list_init \<times> 's \<times> data_chunk" where
  "server_list_call init s output =
     (case server_list_func init output of (r, init', output') \<Rightarrow> (r, init', s, output'))"

definition server_list_vtab :: "'s core_runtime \<Rightarrow> (unit, server_list_init, 's) vtab" where
  "server_list_vtab core = \<lparr>vt_parameters = None, vt_bind = server_list_bind,
     vt_init = init_server_list core,
     vt_func = (\<lambda>_. server_list_call)\<rparr>"

definition core_status_bind :: "string list \<Rightarrow> (string \<times> logical_type) list \<times> unit" where
  "core_status_bind parameters = (core_status_columns, ())"

definition core_status_call :: "'s core_runtime \<Rightarrow> bool \<Rightarrow> 's \<Rightarrow> data_chunk \<Rightarrow> (box_error + unit) \<times> bool \<times> 's \<times> data_chunk" where
  "core_status_call core done s output =
     (case core_status_func core done output of (r, done', output') \<Rightarrow> (r, done', s, output'))"

text \<open>The trait's own \<open>parameters\<close> declares none.\<close>

definition core_status_vtab :: "'s core_runtime \<Rightarrow> (unit, bool, 's) vtab" where
  "core_status_vtab core = \<lparr>vt_parameters = None, vt_bind = core_status_bind, vt_init = emit_once_init,
     vt_func = (\<lambda>_. core_status_call core)\<rparr>"

section \<open>The query\<close>

type_synonym 's query_result = "((box_error + cell option list list) \<times> 's) option"

text \<open>Calls of \<open>func\<close> over fresh vectors until one is empty; an error ends the query.\<close>

fun scan :: "('i \<Rightarrow> 's \<Rightarrow> data_chunk \<Rightarrow> (box_error + unit) \<times> 'i \<times> 's \<times> data_chunk) \<Rightarrow>
    nat \<Rightarrow> usize \<Rightarrow> nat \<Rightarrow> 'i \<Rightarrow> 's \<Rightarrow> 's query_result" where
  "scan func columns cap 0 init s = None"
| "scan func columns cap (Suc n) init s =
     (case func init s (empty_chunk cap) of
        (Inl e, init', s', output) \<Rightarrow> Some (Inl e, s')
      | (Inr _, init', s', output) \<Rightarrow>
          if ch_len output = 0 then Some (Inr [], s')
          else map_option (\<lambda>(r, s''). (andThen r (\<lambda>rows. Inr (chunk_rows columns output @ rows)), s''))
            (scan func columns cap n init' s'))"

text \<open>A call with the wrong number of arguments does not reach the function.\<close>

definition arity :: "('b, 'i, 's) vtab \<Rightarrow> nat" where
  "arity vt = (case vt_parameters vt of None \<Rightarrow> 0 | Some types \<Rightarrow> length types)"

definition query_table :: "nat \<Rightarrow> usize \<Rightarrow> ('b, 'i, 's) vtab \<Rightarrow> string list \<Rightarrow> 's \<Rightarrow> 's query_result" where
  "query_table fuel cap vt parameters s =
     (if length parameters \<noteq> arity vt then Some (Inl (StringError ''no function matches the arguments''), s)
      else case vt_bind vt parameters of
        (columns, bind) \<Rightarrow>
          (case vt_init vt s of
             (Inl e, s') \<Rightarrow> Some (Inl e, s')
           | (Inr init, s') \<Rightarrow> scan (vt_func vt bind) (length columns) cap fuel init s'))"

definition run_function :: "nat \<Rightarrow> usize \<Rightarrow> 's core_runtime \<Rightarrow> table_function \<Rightarrow> string list \<Rightarrow> 's \<Rightarrow> 's query_result" where
  "run_function fuel cap core f parameters s =
     (case f of
        ServeFunction protocol \<Rightarrow> query_table fuel cap (serve_vtab protocol core) parameters s
      | StopFunction \<Rightarrow> query_table fuel cap (stop_vtab core) parameters s
      | ServerListFunction \<Rightarrow> query_table fuel cap (server_list_vtab core) parameters s
      | CoreStatusFunction \<Rightarrow> query_table fuel cap (core_status_vtab core) parameters s)"

definition sql_query :: "nat \<Rightarrow> usize \<Rightarrow> (string \<times> table_function) list \<Rightarrow> 's core_runtime \<Rightarrow>
    string \<Rightarrow> string list \<Rightarrow> 's \<Rightarrow> 's query_result" where
  "sql_query fuel cap registered core name parameters s =
     (case map_of registered name of
        None \<Rightarrow> Some (Inl (StringError ''no such table function''), s)
      | Some f \<Rightarrow> run_function fuel cap core f parameters s)"

section \<open>Lemmas: the record\<close>

lemma vtab_simps [simp]:
  "arity (serve_vtab p core) = 2" "arity (stop_vtab core) = 2"
  "arity (server_list_vtab core) = 0" "arity (core_status_vtab core) = 0"
  "vt_init (serve_vtab p core) s = (Inr False, s)" "vt_init (stop_vtab core) s = (Inr False, s)"
  "vt_init (core_status_vtab core) s = (Inr False, s)" "vt_init (server_list_vtab core) = init_server_list core"
  "vt_bind (serve_vtab p core) ps = (serve_columns, \<lparr>sb_address = ps ! 0, sb_config_file = ps ! 1\<rparr>)"
  "vt_bind (stop_vtab core) ps = (stop_columns, \<lparr>st_protocol = ps ! 0, st_address = ps ! 1\<rparr>)"
  "vt_bind (server_list_vtab core) ps = (server_list_columns, ())"
  "vt_bind (core_status_vtab core) ps = (core_status_columns, ())"
  "vt_func (serve_vtab p core) = serve_func p core" "vt_func (stop_vtab core) = stop_func core"
  "vt_func (server_list_vtab core) b = server_list_call" "vt_func (core_status_vtab core) b = core_status_call core"
  by (simp_all add: arity_def serve_vtab_def stop_vtab_def server_list_vtab_def core_status_vtab_def
      serve_parameters_def stop_parameters_def emit_once_init_def emit_once_new_def serve_bind_def stop_bind_def
      server_list_bind_def core_status_bind_def)

lemma column_counts [simp]:
  "length serve_columns = 2" "length stop_columns = 1" "length server_list_columns = 2" "length core_status_columns = 3"
  by (simp_all add: serve_columns_def stop_columns_def server_list_columns_def core_status_columns_def)

text \<open>The parameters the registration declares are those of the trait object it registers.\<close>

lemma parameters_of_vtab:
  "parameters_of (ServeFunction p) = vt_parameters (serve_vtab p core)"
  "parameters_of StopFunction = vt_parameters (stop_vtab core)"
  "parameters_of ServerListFunction = vt_parameters (server_list_vtab core)"
  "parameters_of CoreStatusFunction = vt_parameters (core_status_vtab core)"
  by (simp_all add: serve_vtab_def stop_vtab_def server_list_vtab_def core_status_vtab_def stop_parameters_def)

section \<open>Lemmas: functions that emit once\<close>

lemma scan_once:
  assumes "func False s (empty_chunk cap) = (r, True, s', ch)"
    and "\<And>s ch. func True s ch = (Inr (), True, s, ch\<lparr>ch_len := 0\<rparr>)"
  shows "scan func columns cap (Suc (Suc n)) False s =
    Some (andThen r (\<lambda>_. Inr (chunk_rows columns ch)), s')"
  using assms by (auto simp: chunk_rows_def split: sum.splits)

lemma serve_func_emits: "\<exists>r s' ch'. serve_func p core bind False s ch = (r, True, s', ch')"
  by (auto simp: serve_func_def split: prod.splits sum.splits)

lemma stop_func_emits: "\<exists>r s' ch'. stop_func core bind False s ch = (r, True, s', ch')"
  by (auto simp: stop_func_def split: prod.splits sum.splits)

lemma core_status_func_emits: "\<exists>r ch'. core_status_func core False ch = (r, True, ch')"
  by (auto simp: core_status_func_def Let_def split: prod.splits sum.splits)

lemma query_serve:
  assumes "serve_func p core \<lparr>sb_address = a, sb_config_file = c\<rparr> False s (empty_chunk cap) = (r, True, s', ch)"
  shows "run_function (Suc (Suc n)) cap core (ServeFunction p) [a, c] s =
    Some (andThen r (\<lambda>_. Inr (chunk_rows 2 ch)), s')"
  using scan_once [of "serve_func p core \<lparr>sb_address = a, sb_config_file = c\<rparr>", OF assms serve_func_done]
  by (simp add: run_function_def query_table_def del: scan.simps)

lemma query_stop:
  assumes "stop_func core \<lparr>st_protocol = p, st_address = a\<rparr> False s (empty_chunk cap) = (r, True, s', ch)"
  shows "run_function (Suc (Suc n)) cap core StopFunction [p, a] s =
    Some (andThen r (\<lambda>_. Inr (chunk_rows 1 ch)), s')"
  using scan_once [of "stop_func core \<lparr>st_protocol = p, st_address = a\<rparr>", OF assms stop_func_done]
  by (simp add: run_function_def query_table_def del: scan.simps)

lemma query_core_status:
  assumes "core_status_func core False (empty_chunk cap) = (r, True, ch)"
  shows "run_function (Suc (Suc n)) cap core CoreStatusFunction [] s =
    Some (andThen r (\<lambda>_. Inr (chunk_rows 3 ch)), s)"
  using scan_once [of "core_status_call core" s cap r s ch 3 n] assms
  by (simp add: run_function_def query_table_def core_status_call_def core_status_func_done del: scan.simps)

section \<open>Lemmas: the list of servers\<close>

text \<open>
  An offset that further calls may reach: within the rows the capacity was added without
  wrapping, since a vector of pairs of strings holds fewer than half of the addressable rows.
\<close>

definition offset_ok :: "usize \<Rightarrow> usize \<Rightarrow> bool" where
  "offset_ok cap off \<longleftrightarrow> off = 0 \<or> unat cap \<le> unat off"

lemma offset_add:
  assumes "offset_ok cap off" "unat off < n" "n < 2 ^ 63"
  shows "unat (off + cap) = unat off + unat cap" "offset_ok cap (off + cap)"
proof -
  have "unat off + unat cap < 2 ^ 64"
    using assms usize_bound [of cap] by (auto simp: offset_ok_def)
  then show *: "unat (off + cap) = unat off + unat cap" by (rule usize_add)
  show "offset_ok cap (off + cap)" by (simp add: offset_ok_def *)
qed

lemma scan_server_list:
  assumes "rows_text rows" "length rows < 2 ^ 63" "0 < unat cap"
    and "offset_ok cap off" "length rows - unat off < fuel"
  shows "scan server_list_call 2 cap fuel \<lparr>sl_snapshots = rows, sl_offset = off\<rparr> s =
    Some (Inr (map row_cells (drop (unat off) rows)), s)"
  using assms(4,5)
proof (induction fuel arbitrary: off)
  case (Suc n)
  let ?init = "\<lparr>sl_snapshots = rows, sl_offset = off\<rparr>" and ?w = "window (unat off) (unat off + unat cap) rows"
  obtain r init' ch where f: "server_list_func ?init (empty_chunk cap) = (r, init', ch)" by (metis prod_cases3)
  then have call: "server_list_call ?init s (empty_chunk cap) = (r, init', s, ch)"
    by (simp add: server_list_call_def)
  from f have ok: "r = Inr ()" "init' = \<lparr>sl_snapshots = rows, sl_offset = off + cap\<rparr>" "chunk_rows 2 ch = map row_cells ?w"
    using server_list_func_ok [OF _ _ f] assms(1,2) by (simp_all add: empty_chunk_def)
  have "length (chunk_rows 2 ch) = length ?w" by (simp add: ok(3))
  then have len: "unat (ch_len ch) = length ?w" by simp
  show ?case
  proof (cases "unat off < length rows")
    case False
    then have "?w = []" "drop (unat off) rows = []" by (simp_all add: window_def)
    with len have "ch_len ch = 0" by (simp add: unat_eq_0)
    with call ok \<open>drop (unat off) rows = []\<close> show ?thesis by simp
  next
    case True
    note off = offset_add [OF Suc.prems(1) True assms(2)]
    have "0 < length ?w" using True assms(3) by simp
    with len have "ch_len ch \<noteq> 0" by auto
    moreover have "scan server_list_call 2 cap n \<lparr>sl_snapshots = rows, sl_offset = off + cap\<rparr> s =
        Some (Inr (map row_cells (drop (unat off + unat cap) rows)), s)"
      using Suc.IH [OF off(2)] Suc.prems(2) True assms(3) by (simp add: off(1))
    moreover have "?w @ drop (unat off + unat cap) rows = drop (unat off) rows"
      by (simp add: window_def add.commute flip: drop_drop)
    ultimately show ?thesis
      using call ok by (simp flip: map_append)
  qed
qed simp

lemma query_server_list:
  assumes "rt_snapshots core s = (Inr rows, s')" "rows_text rows" "length rows < 2 ^ 63" "0 < unat cap" "length rows < fuel"
  shows "run_function fuel cap core ServerListFunction [] s = Some (Inr (map row_cells rows), s')"
  using scan_server_list [of rows cap 0 fuel s'] assms
  by (simp add: run_function_def query_table_def init_server_list_def offset_ok_def)

text \<open>Whatever the rows hold, the query ends, and with rows that are not text it is an error.\<close>

lemma write_rows_text: "write_rows row rows ch = (Inr u, ch') \<Longrightarrow> rows_text rows"
proof (induction row rows ch rule: write_rows.induct)
  case (2 row p a rest ch)
  obtain r1 ch1 where one: "set_string ch 0 row p = (r1, ch1)" by fastforce
  obtain r2 ch2 where two: "set_string ch1 1 row a = (r2, ch2)" by fastforce
  have "is_ok r1" "is_ok r2" "rows_text rest"
    using 2 one two by (auto split: sum.splits)
  with set_string_cases [OF one] set_string_cases [OF two] show ?case by (auto split: if_splits)
qed simp

lemma server_list_func_text:
  assumes "server_list_func init ch = (Inr u, init', ch')" "length (sl_snapshots init) < 2 ^ 64"
  shows "init' = init\<lparr>sl_offset := sl_offset init + ch_capacity ch\<rparr> \<and>
    rows_text (window (unat (sl_offset init)) (unat (sl_offset init) + unat (ch_capacity ch)) (sl_snapshots init)) \<and>
    unat (ch_len ch') = length (window (unat (sl_offset init)) (unat (sl_offset init) + unat (ch_capacity ch)) (sl_snapshots init))"
proof -
  let ?rows = "sl_snapshots init" and ?off = "sl_offset init" and ?cap = "ch_capacity ch"
  have n: "unat (of_nat (length ?rows) :: usize) = length ?rows" using assms(2) by (rule usize_of_nat)
  show ?thesis
  proof (cases "chunk_bounds (of_nat (length ?rows)) ?off ?cap")
    case None
    then have "window (unat ?off) (unat ?off + unat ?cap) ?rows = []"
      by (auto simp: chunk_bounds_None n window_def)
    with None assms(1) show ?thesis by (auto simp: server_list_func_def Let_def)
  next
    case (Some b)
    obtain first until where b: "b = (first, until)" by (cases b)
    note cb = chunk_bounds_Some [OF Some [unfolded b]]
    have "rows_text (window (unat first) (unat until) ?rows)"
      using assms(1) Some b by (auto simp: server_list_func_def Let_def split: prod.splits sum.splits dest: write_rows_text)
    moreover have "window (unat first) (unat until) ?rows = window (unat ?off) (unat ?off + unat ?cap) ?rows"
      using cb n by (auto simp: window_def min_def)
    moreover have "unat (until - first) = length (window (unat first) (unat until) ?rows)"
      using cb n by simp
    ultimately show ?thesis
      using assms(1) Some b by (auto simp: server_list_func_def Let_def split: prod.splits sum.splits)
  qed
qed

lemma scan_server_list_ends:
  assumes "length rows < 2 ^ 63" "offset_ok cap off" "length rows - unat off < fuel"
  shows "\<exists>r. scan server_list_call 2 cap fuel \<lparr>sl_snapshots = rows, sl_offset = off\<rparr> s = Some (r, s) \<and>
    (is_ok r \<longrightarrow> 0 < unat cap \<longrightarrow> rows_text (drop (unat off) rows))"
  using assms(2,3)
proof (induction fuel arbitrary: off)
  case (Suc n)
  let ?init = "\<lparr>sl_snapshots = rows, sl_offset = off\<rparr>" and ?w = "window (unat off) (unat off + unat cap) rows"
  obtain r init' ch where f: "server_list_func ?init (empty_chunk cap) = (r, init', ch)" by (metis prod_cases3)
  then have call: "server_list_call ?init s (empty_chunk cap) = (r, init', s, ch)"
    by (simp add: server_list_call_def)
  show ?case
  proof (cases r)
    case (Inl e)
    with call show ?thesis by (simp add: is_ok_def)
  next
    case (Inr u)
    note func = server_list_func_text [OF f [unfolded Inr]]
    have w: "init' = \<lparr>sl_snapshots = rows, sl_offset = off + cap\<rparr>" "rows_text ?w" "unat (ch_len ch) = length ?w"
      using func assms(1) by (simp_all add: empty_chunk_def)
    show ?thesis
    proof (cases "ch_len ch = 0")
      case True
      then have "0 < unat cap \<Longrightarrow> drop (unat off) rows = []" using w(3) by (auto split: if_splits)
      with call Inr True show ?thesis by (auto simp: is_ok_def)
    next
      case False
      then have "unat (ch_len ch) \<noteq> 0" by (simp add: unat_eq_0)
      then have room: "unat off < length rows" "0 < unat cap" using w(3) by auto
      note off = offset_add [OF Suc.prems(1) room(1) assms(1)]
      from room Suc.prems(2) off(1) have "length rows - unat (off + cap) < n" by linarith
      from Suc.IH [OF off(2) this] obtain r' where
        r': "scan server_list_call 2 cap n \<lparr>sl_snapshots = rows, sl_offset = off + cap\<rparr> s = Some (r', s)"
          "is_ok r' \<longrightarrow> 0 < unat cap \<longrightarrow> rows_text (drop (unat (off + cap)) rows)"
        by (elim exE conjE)
      have split: "drop (unat off) rows = ?w @ drop (unat (off + cap)) rows"
        unfolding off(1) by (simp add: window_def add.commute flip: drop_drop)
      have all: "rows_text (drop (unat off) rows)" if "rows_text (drop (unat (off + cap)) rows)"
        unfolding split using w(2) that by (auto simp: rows_text_def)
      have "scan server_list_call 2 cap (Suc n) ?init s =
          Some (andThen r' (\<lambda>rows. Inr (chunk_rows 2 ch @ rows)), s)"
        using call Inr w(1) r'(1) False by simp
      moreover have "is_ok r'" if "is_ok (andThen r' (\<lambda>rows. Inr (chunk_rows 2 ch @ rows)))"
        using that by (cases r') (simp_all add: is_ok_def)
      ultimately show ?thesis
        using r'(2) all room(2) by (intro exI [of _ "andThen r' (\<lambda>rows. Inr (chunk_rows 2 ch @ rows))"]) simp
    qed
  qed
qed simp

section \<open>Every query ends\<close>

text \<open>The names under which the functions are registered.\<close>

lemma map_of_table_functions:
  "map_of table_functions ''duckflight_servers'' = Some ServerListFunction"
  "map_of table_functions ''duckflight_stop'' = Some StopFunction"
  "map_of table_functions ''duckflight_core_status'' = Some CoreStatusFunction"
  by (simp_all add: table_functions_def)

definition serve_name :: "protocol \<Rightarrow> string" where
  "serve_name p = (case p of PgWire \<Rightarrow> ''duckflight_pg_serve'' | FlightSql \<Rightarrow> ''duckflight_flight_serve''
     | Http \<Rightarrow> ''duckflight_http_serve'' | Quack \<Rightarrow> ''duckflight_quack_serve'')"

lemma map_of_serve_name: "map_of table_functions (serve_name p) = Some (ServeFunction p)"
  by (cases p) (simp_all add: serve_name_def table_functions_def)

lemma set_string_len: "set_string ch c row v = (r, ch') \<Longrightarrow> ch_len ch' = ch_len ch"
  by (drule set_string_cases) (auto split: if_splits)

lemma single_row:
  "serve_func p core bind False s ch = (Inr u, d, s', ch') \<Longrightarrow> ch_len ch' = 1"
  "stop_func core sbind False s ch = (Inr u, d, s', ch') \<Longrightarrow> ch_len ch' = 1"
  "core_status_func core False ch = (Inr u, d, ch') \<Longrightarrow> ch_len ch' = 1"
  by (auto simp: serve_func_def stop_func_def core_status_func_def Let_def split: prod.splits sum.splits if_splits)

text \<open>A control function answers with one row of its columns, or with an error.\<close>

definition one_row :: "nat \<Rightarrow> box_error + cell option list list \<Rightarrow> bool" where
  "one_row columns r \<longleftrightarrow> (case r of Inl _ \<Rightarrow> True | Inr rows \<Rightarrow> length rows = 1 \<and> (\<forall>row \<in> set rows. length row = columns))"

lemma one_row_chunk: "ch_len ch = 1 \<or> \<not> is_ok r \<Longrightarrow> one_row n (andThen r (\<lambda>_. Inr (chunk_rows n ch)))"
  by (cases r) (auto simp: one_row_def chunk_rows_def is_ok_def)

lemma query_arity: "length parameters \<noteq> arity vt \<Longrightarrow>
    query_table fuel cap vt parameters s = Some (Inl (StringError ''no function matches the arguments''), s)"
  by (simp add: query_table_def)

lemma run_serve_ends:
  "\<exists>r s'. run_function (Suc (Suc n)) cap core (ServeFunction p) ps s = Some (r, s') \<and> one_row 2 r"
proof (cases "length ps = 2")
  case True
  then obtain a c where ps: "ps = [a, c]" by (auto simp: numeral_2_eq_2 length_Suc_conv)
  obtain r s' ch where f: "serve_func p core \<lparr>sb_address = a, sb_config_file = c\<rparr> False s (empty_chunk cap) = (r, True, s', ch)"
    using serve_func_emits [of p core "\<lparr>sb_address = a, sb_config_file = c\<rparr>" s "empty_chunk cap"] by auto
  have "ch_len ch = 1 \<or> \<not> is_ok r" using single_row(1) f by (cases r) (auto simp: is_ok_def)
  with query_serve [OF f] ps show ?thesis by (simp add: one_row_chunk)
qed (simp add: run_function_def query_arity one_row_def)

lemma run_stop_ends:
  "\<exists>r s'. run_function (Suc (Suc n)) cap core StopFunction ps s = Some (r, s') \<and> one_row 1 r"
proof (cases "length ps = 2")
  case True
  then obtain p a where ps: "ps = [p, a]" by (auto simp: numeral_2_eq_2 length_Suc_conv)
  obtain r s' ch where f: "stop_func core \<lparr>st_protocol = p, st_address = a\<rparr> False s (empty_chunk cap) = (r, True, s', ch)"
    using stop_func_emits [of core "\<lparr>st_protocol = p, st_address = a\<rparr>" s "empty_chunk cap"] by auto
  have "ch_len ch = 1 \<or> \<not> is_ok r" using single_row(2) f by (cases r) (auto simp: is_ok_def)
  with query_stop [OF f] ps show ?thesis by (simp add: one_row_chunk)
qed (simp add: run_function_def query_arity one_row_def)

lemma run_core_status_ends:
  "\<exists>r. run_function (Suc (Suc n)) cap core CoreStatusFunction ps s = Some (r, s) \<and> one_row 3 r"
proof (cases ps)
  case Nil
  obtain r ch where f: "core_status_func core False (empty_chunk cap) = (r, True, ch)"
    using core_status_func_emits by blast
  have "ch_len ch = 1 \<or> \<not> is_ok r" using single_row(3) f by (cases r) (auto simp: is_ok_def)
  with query_core_status [OF f] Nil show ?thesis by (simp add: one_row_chunk)
qed (simp add: run_function_def query_arity one_row_def)

lemma run_server_list_ends:
  assumes "case fst (rt_snapshots core s) of Inr rows \<Rightarrow> length rows < 2 ^ 63 \<and> length rows < fuel | Inl _ \<Rightarrow> True"
  shows "\<exists>r s'. run_function fuel cap core ServerListFunction ps s = Some (r, s')"
proof (cases ps)
  case Nil
  obtain r s' where snap: "rt_snapshots core s = (r, s')" by fastforce
  show ?thesis
  proof (cases r)
    case (Inr rows)
    then obtain r' where "scan server_list_call 2 cap fuel \<lparr>sl_snapshots = rows, sl_offset = 0\<rparr> s' = Some (r', s')"
      using scan_server_list_ends [of rows cap 0 fuel s'] assms snap by (auto simp: offset_ok_def)
    with Nil Inr snap show ?thesis by (simp add: run_function_def query_table_def init_server_list_def)
  qed (use Nil snap in \<open>simp add: run_function_def query_table_def init_server_list_def\<close>)
qed (simp add: run_function_def query_arity)

lemma run_function_ends:
  assumes "case fst (rt_snapshots core s) of Inr rows \<Rightarrow> length rows < 2 ^ 63 \<and> length rows < fuel | Inl _ \<Rightarrow> True"
    and "2 \<le> fuel"
  shows "\<exists>r s'. run_function fuel cap core f ps s = Some (r, s') \<and>
    (f \<noteq> ServerListFunction \<longrightarrow> (case r of Inl _ \<Rightarrow> True | Inr rows \<Rightarrow> length rows = 1))"
proof -
  obtain n where n: "fuel = Suc (Suc n)" using assms(2) by (metis Suc_le_D numeral_2_eq_2 Suc_le_mono)
  have one: "one_row k r \<Longrightarrow> (case r of Inl _ \<Rightarrow> True | Inr rows \<Rightarrow> length rows = 1)" for k r
    by (simp add: one_row_def split: sum.splits)
  show ?thesis
  proof (cases f)
    case (ServeFunction p)
    with run_serve_ends [of n cap core p ps s] one show ?thesis unfolding n by blast
  next
    case StopFunction
    with run_stop_ends [of n cap core ps s] one show ?thesis unfolding n by blast
  next
    case ServerListFunction
    with run_server_list_ends [OF assms(1)] show ?thesis by blast
  next
    case CoreStatusFunction
    with run_core_status_ends [of n cap core ps s] one show ?thesis unfolding n by blast
  qed
qed

text \<open>The list of servers as a query: complete and in order, or an error.\<close>

lemma query_server_list_total:
  assumes "rt_snapshots core s = (Inr rows, s')" "length rows < 2 ^ 63" "length rows < fuel" "0 < unat cap"
  shows "\<exists>r. run_function fuel cap core ServerListFunction [] s = Some (r, s') \<and>
    (if rows_text rows then r = Inr (map row_cells rows) else \<not> is_ok r)"
proof (cases "rows_text rows")
  case True
  then show ?thesis using query_server_list [OF assms(1) True assms(2,4,3)] by simp
next
  case False
  with scan_server_list_ends [of rows cap 0 fuel s'] assms show ?thesis
    by (auto simp: run_function_def query_table_def init_server_list_def offset_ok_def)
qed

section \<open>Queries on any runtime\<close>

context server_runtime
begin

lemma query_serve_registers:
  assumes "invar s" "run_function (Suc (Suc n)) cap rt (ServeFunction p) [a, c] s = Some (Inr out, s1)"
  shows "\<exists>b. out = [row_cells (as_str p, b)] \<and> listed s1 = register (p, b) (listed s) \<and> invar s1 \<and> no_nul b \<and> valid_utf8 b"
proof -
  let ?bind = "\<lparr>sb_address = a, sb_config_file = c\<rparr>"
  obtain r s' ch where f: "serve_func p rt ?bind False s (empty_chunk cap) = (r, True, s', ch)"
    using serve_func_emits [of p rt ?bind s "empty_chunk cap"] by auto
  from query_serve [OF f, of n] assms(2) have r: "r = Inr ()" "out = chunk_rows 2 ch" "s' = s1"
    by (cases r; simp)+
  from f show ?thesis
  proof (cases rule: serve_func_cases)
    case (served b)
    with start_Inr [OF assms(1) served(1)] r show ?thesis by auto
  qed (use r in simp_all)
qed

lemma query_servers:
  assumes "invar s" "\<forall>(p, b) \<in> set (listed s). no_nul b" "length (listed s) < 2 ^ 63" "length (listed s) < fuel" "0 < unat cap"
  shows "run_function fuel cap rt ServerListFunction [] s = Some (Inr (map (row_cells \<circ> server_row) (listed s)), s)"
proof -
  have "no_nul (as_str p)" for p by (cases p) (simp_all add: no_nul_def)
  then have "rows_text (map server_row (listed s))" using assms(2) by (auto simp: rows_text_def server_row_def)
  from query_server_list [OF snapshots_rows [OF assms(1)] this] assms(3-5) show ?thesis by simp
qed

lemma query_stop_unregisters:
  assumes "invar s" "run_function (Suc (Suc n)) cap rt StopFunction [as_str p, a] s = Some (Inr out, s1)"
  shows "out = [[Some (Varchar (stop_status ((p, a) \<in> set (listed s)) p a))]] \<and>
    listed s1 = unregister (p, a) (listed s) \<and> invar s1"
proof -
  let ?bind = "\<lparr>st_protocol = as_str p, st_address = a\<rparr>"
  obtain r s' ch where f: "stop_func rt ?bind False s (empty_chunk cap) = (r, True, s', ch)"
    using stop_func_emits [of rt ?bind s "empty_chunk cap"] by auto
  from query_stop [OF f, of n] assms(2) have r: "r = Inr ()" "out = chunk_rows 1 ch" "s' = s1"
    by (cases r; simp)+
  from stop_reports [OF assms(1) f [unfolded r(1)]] r show ?thesis
    by (simp add: protocol_parse_as_str)
qed

end

end
