(* ===== verification/Extension_Properties.thy ===== *)
theory Extension_Properties
  imports Table_Query
begin

text \<open>
  The properties of the extension, its ABI boundary and the mock provider, each a few steps
  over the lemmas of the component theories, with a concrete instance where it has
  hypotheses. The examples share one provider, the mock library, and a kernel whose calls
  succeed or fail as its state says.
\<close>

section \<open>Concrete instances\<close>

definition fresh_heap :: mock_heap where
  "fresh_heap = \<lparr>mh_next = 0, mh_core = (\<lambda>_. None)\<rparr>"

definition truncated_api :: "mock_heap core_api" where
  "truncated_api = API_V1\<lparr>api_extent := 8, api_struct_size := 8\<rparr>"

text \<open>A kernel that knows \<open>MFD_EXEC\<close> or not, and seals or not.\<close>

definition sample_kernel :: "bool \<Rightarrow> bool \<Rightarrow> unit kernel" where
  "sample_kernel knows seals = \<lparr>
     memfd_create = (\<lambda>_ flags s. (if flags = bundle_flags OR MFD_EXEC \<and> \<not> knows then Inl EINVAL else Inr 5, s)),
     write_all = (\<lambda>_ _ s. (Inr (), s)), flush = (\<lambda>_ s. (Inr (), s)),
     add_seals = (\<lambda>_ _ s. (if seals then Inr () else Inl 1, s)),
     os_error_text = (\<lambda>_. ''error'')\<rparr>"

definition sample_dlopen :: "(unit, mock_heap) dlopen" where
  "sample_dlopen path s = (Inr (mock_library 7), s)"

lemmas sample_defs = sample_kernel_def sample_dlopen_def fresh_heap_def truncated_api_def
  bundle_flags_def MFD_EXEC_def MFD_CLOEXEC_def MFD_ALLOW_SEALING_def EINVAL_def

section \<open>The ABI boundary\<close>

text \<open>The table a provider returns is accepted exactly when its pointer is not null, it
  declares version 1 and at least the 48 bytes of the v1 table, and its header can be read.\<close>

theorem validate_accepts_exactly_v1:
  "validate_api_table_header ptr = Some (Inr ()) \<longleftrightarrow>
     (\<exists>api. ptr = Some api \<and> 8 \<le> api_extent api \<and>
        api_abi_version api = DUCKFLIGHT_CORE_ABI_V1 \<and> 48 \<le> api_struct_size api)"
  by (rule validate_ok_iff)

text \<open>C6: No read outside the provider's table: when the bytes a table declares are readable,
  however few they are, neither its validation nor the initialisation of a core reads
  beyond them.\<close>

theorem table_reads_in_bounds:
  assumes "api_readable api"
  shows "validate_api_table_header (Some api) \<noteq> None \<and>
    initialize (Some api) info access lib bundle detail p \<noteq> None"
  using validate_in_bounds [OF assms] initialize_in_bounds [of "Some api"] assms by simp

theorem table_reads_in_bounds_witness:
  "api_readable truncated_api \<and>
   initialize (Some truncated_api) None None 0 None ''d'' fresh_heap \<noteq> None"
  using table_reads_in_bounds [of truncated_api] by (simp add: api_readable_def truncated_api_def API_V1_def)

text \<open>C18: A core is created only over an accepted table with all five entry points and with a
  handle that is not null; it then owns the library and the backing file, and nothing has
  been released.\<close>

theorem initialize_creates_ready_core:
  assumes "initialize ptr info access lib bundle detail p = Some (Inr dc, rel, p')"
  shows "validate_api_table_header ptr = Some (Inr ()) \<and> core_ready dc \<and> ptr = Some (dc_api dc) \<and>
    dc_library dc = lib \<and> dc_bundle_file dc = bundle \<and> rel = []"
proof -
  have "validate_api_table_header ptr = Some (Inr ())"
    using assms by (auto simp: initialize_def Let_def split: option.splits sum.splits)
  with initialize_Inr [OF assms] show ?thesis by simp
qed

theorem initialize_creates_ready_core_witness:
  "core_ready (mock_core 7 0) \<and> validate_api_table_header (Some API_V1) = Some (Inr ())"
proof -
  obtain heap where "load (\<lambda>_. Inr (mock_library 7)) ''core.so'' None None fresh_heap =
      Some (Inr (mock_core 7 0), [], heap)"
    using load_mock [of fresh_heap 7 "''core.so''" None None] by (auto simp: fresh_heap_def)
  then have "initialize (Some API_V1) None None 7 None ''external core loaded'' fresh_heap =
      Some (Inr (mock_core 7 0), [], heap)"
    by (simp add: load_def mock_library_def)
  from initialize_creates_ready_core [OF this] show ?thesis by simp
qed

text \<open>C29: Every error of the initialisation releases the library and the backing file it was
  given, each exactly once, and leaves the provider untouched unless its \<open>create\<close> was called.\<close>

theorem initialize_error_releases:
  assumes "initialize ptr info access lib bundle detail p = Some (Inl e, rel, p')"
  shows "rel = drop_parameters lib bundle \<and>
    (p' = p \<or> (\<exists>api create. ptr = Some api \<and> api_create api = Some create \<and> table_complete api \<and>
       p' = snd (call_create create info access p)))"
  using assms initialize_Inl [OF assms]
  by (auto simp: initialize_def Let_def split: option.splits sum.splits if_splits prod.splits)

theorem initialize_error_releases_witness:
  "\<exists>e. initialize (Some truncated_api) None None 3 (Some 5) ''d'' fresh_heap =
     Some (Inl e, [CloseBundle 5, UnloadLibrary 3], fresh_heap)"
proof -
  obtain e where "initialize (Some truncated_api) None None 3 (Some 5) ''d'' fresh_heap =
     Some (Inl e, drop_parameters 3 (Some 5), fresh_heap)"
    by (auto simp: initialize_def Let_def validate_api_table_header_def read_struct_size_def
        read_abi_version_def truncated_api_def API_V1_def)
  from initialize_error_releases [OF this] this show ?thesis by (simp add: drop_parameters_def)
qed

text \<open>C19: Over its whole life a bundled core frees what it took in the safe order: the handle
  first, then the library, and the descriptor of the sealed file only after the library is
  unloaded.\<close>

theorem bundled_core_drop_order:
  assumes "load_bundled k dlopen core info access s p = (Some (Inr dc, rel, p'), s')"
  shows "\<exists>fd lib. fst (load_bundle k dlopen core s) = Inr (lib, fd) \<and> fst (create_memfd k s) = Inr fd \<and>
    rel = [] \<and> fst (drop_dynamic_core dc p') =
      [DestroyHandle (dc_handle dc), UnloadLibrary (lib_id lib), CloseBundle fd]"
proof -
  obtain lib fd rel1 where l: "load_bundle k dlopen core s = (Inr (lib, fd), rel1, s')"
    using assms by (auto simp: load_bundled_def split: prod.splits sum.splits option.splits)
  from l have "rel1 = []" by (rule load_bundle_Inr)
  with l assms obtain ptr rel2 where
    i: "initialize ptr info access (lib_id lib) (Some fd) ''bundled core loaded'' p = Some (Inr dc, rel2, p')"
      "rel = rel2"
    by (auto simp: load_bundled_def split: sum.splits)
  have "fst (create_memfd k s) = Inr fd"
    using l by (auto elim!: load_bundle_Inr prepare_bundle_Inr)
  moreover have "api_destroy (dc_api dc) \<noteq> None"
    using initialize_Inr(1) [OF i(1)] by (simp add: core_ready_def table_complete_def)
  ultimately show ?thesis
    using initialize_Inr [OF i(1)] i(2) l
    by (intro exI [of _ fd] exI [of _ lib]) (auto simp: drop_dynamic_core_def)
qed

theorem bundled_core_drop_order_witness:
  "\<exists>dc. fst (load_bundled (sample_kernel True True) sample_dlopen ''elf'' None None () fresh_heap) =
      Some (Inr dc, [], set_servers 0 [] (fresh_heap\<lparr>mh_next := 1\<rparr>)) \<and>
    fst (drop_dynamic_core dc (set_servers 0 [] (fresh_heap\<lparr>mh_next := 1\<rparr>))) =
      [DestroyHandle (Some 0), UnloadLibrary 7, CloseBundle 5]"
proof -
  let ?dc = "\<lparr>dc_api = API_V1, dc_handle = Some 0, dc_status_detail = ''bundled core loaded'',
    dc_library = 7, dc_bundle_file = Some 5\<rparr>"
  have v: "validate_api_table_header (Some API_V1) = Some (Inr ())"
    by (simp add: validate_ok_iff API_V1_def)
  have i: "initialize (Some API_V1) None None 7 (Some 5) ''bundled core loaded'' fresh_heap =
      Some (Inr ?dc, [], set_servers 0 [] (fresh_heap\<lparr>mh_next := 1\<rparr>))"
    by (simp add: initialize_def v Let_def)
      (simp add: API_V1_def table_complete_def call_create_def mock_create_def create_options_new_def fresh_heap_def)
  have b: "fst (load_bundle (sample_kernel True True) sample_dlopen ''elf'' ()) = Inr (mock_library 7, 5)"
    by (simp add: load_bundle_def prepare_bundle_def create_memfd_def write_bundle_def
        sample_kernel_def sample_dlopen_def)
  have l: "load_bundled (sample_kernel True True) sample_dlopen ''elf'' None None () fresh_heap =
      (Some (Inr ?dc, [], set_servers 0 [] (fresh_heap\<lparr>mh_next := 1\<rparr>)), ())"
    by (simp add: load_bundled_def load_bundle_def prepare_bundle_def create_memfd_def write_bundle_def
        sample_kernel_def sample_dlopen_def mock_library_def i)
  from bundled_core_drop_order [OF l]
  have "fst (drop_dynamic_core ?dc (set_servers 0 [] (fresh_heap\<lparr>mh_next := 1\<rparr>))) =
      [DestroyHandle (Some 0), UnloadLibrary 7, CloseBundle 5]"
    by (auto simp: b mock_library_def)
  with l show ?thesis by (intro exI [of _ ?dc]) simp
qed

text \<open>C20: A bundled core that fails to load leaks nothing: without a memory file nothing is
  released; with one its descriptor is closed exactly once, and the library is unloaded
  exactly when it had been loaded.\<close>

theorem bundled_core_failure_releases:
  assumes "load_bundled k dlopen core info access s p = (Some (Inl e, rel, p'), s')"
  shows "case fst (create_memfd k s) of
      Inl _ \<Rightarrow> rel = []
    | Inr fd \<Rightarrow>
        (case fst (load_bundle k dlopen core s) of
           Inl _ \<Rightarrow> rel = [CloseBundle fd]
         | Inr (lib, _) \<Rightarrow> rel = [CloseBundle fd, UnloadLibrary (lib_id lib)])"
proof (cases "fst (load_bundle k dlopen core s)")
  case (Inl e')
  then obtain s1 where l: "load_bundle k dlopen core s = (Inl e', rel, s1)"
    using assms by (cases "load_bundle k dlopen core s") (auto simp: load_bundled_def)
  from load_bundle_Inl [OF l] l show ?thesis by (simp split: sum.splits)
next
  case (Inr lf)
  obtain lib fd where lf: "lf = (lib, fd)" by (cases lf)
  obtain rel1 s1 where l: "load_bundle k dlopen core s = (Inr (lib, fd), rel1, s1)"
    using Inr lf by (cases "load_bundle k dlopen core s") auto
  then have "rel1 = []" "fst (create_memfd k s) = Inr fd"
    by (auto elim!: load_bundle_Inr prepare_bundle_Inr)
  moreover from this have "rel = drop_parameters (lib_id lib) (Some fd)"
    using assms l initialize_Inl
    by (auto simp: load_bundled_def split: sum.splits)
  ultimately show ?thesis using l by (simp add: drop_parameters_def)
qed

theorem bundled_core_failure_releases_witness:
  "\<exists>e. load_bundled (sample_kernel False False) sample_dlopen ''elf'' None None () fresh_heap =
     (Some (Inl e, [CloseBundle 5], fresh_heap), ())"
proof -
  have m: "create_memfd (sample_kernel False False) () = (Inr 5, ())"
    by (simp add: create_memfd_def sample_defs)
  have b: "\<exists>e. load_bundle (sample_kernel False False) sample_dlopen ''elf'' () = (Inl e, [CloseBundle 5], ())"
    by (simp add: load_bundle_def prepare_bundle_def m) (simp add: write_bundle_def sample_kernel_def)
  then obtain e rel where l: "load_bundled (sample_kernel False False) sample_dlopen ''elf'' None None () fresh_heap =
      (Some (Inl e, rel, fresh_heap), ())" by (auto simp: load_bundled_def)
  from bundled_core_failure_releases [OF l] l m b show ?thesis by auto
qed

text \<open>The backing file is sealed against writing, growing, shrinking and unsealing, after
  the whole payload was written and flushed and before its path is handed out; a kernel
  without \<open>MFD_EXEC\<close> is asked again without it only when it answered \<open>EINVAL\<close>.\<close>

theorem bundle_sealed_before_use:
  assumes "prepare_bundle k bytes s = (Inr (fd, path), rel, s')"
  shows "path = ''/proc/self/fd/'' @ dec_nat fd \<and> rel = [] \<and>
    (\<exists>s1 s2 s3. write_all k fd bytes s1 = (Inr (), s2) \<and> flush k fd s2 = (Inr (), s3) \<and>
       add_seals k fd 15 s3 = (Inr (), s') \<and>
       (memfd_create k ''duckflight-core'' 19 s = (Inr fd, s1) \<or>
        (\<exists>s0. memfd_create k ''duckflight-core'' 19 s = (Inl EINVAL, s0) \<and>
           memfd_create k ''duckflight-core'' 3 s0 = (Inr fd, s1))))"
proof -
  obtain s1 s3 where c: "create_memfd k s = (Inr fd, s1)" and w: "write_bundle k fd bytes s1 = (Inr (), s3)"
    and a: "add_seals k fd bundle_seals s3 = (Inr (), s')" and "path = bundle_path fd" "rel = []"
    using assms by (rule prepare_bundle_Inr)
  moreover have "bundle_flags OR MFD_EXEC = 19" "bundle_flags = 3"
    by (simp_all add: bundle_flags_def MFD_EXEC_def MFD_CLOEXEC_def MFD_ALLOW_SEALING_def)
  ultimately show ?thesis
    by (auto simp: create_memfd_def write_bundle_def bundle_path_def split: prod.splits sum.splits if_splits)
qed

theorem bundle_sealed_before_use_witness:
  "prepare_bundle (sample_kernel False True) ''elf'' () = (Inr (5, ''/proc/self/fd/'' @ dec_nat 5), [], ())"
proof -
  have "\<exists>path. prepare_bundle (sample_kernel False True) ''elf'' () = (Inr (5, path), [], ())"
    by (simp add: prepare_bundle_def create_memfd_def write_bundle_def sample_defs)
  then obtain path where p: "prepare_bundle (sample_kernel False True) ''elf'' () = (Inr (5, path), [], ())" ..
  from bundle_sealed_before_use [OF p] p show ?thesis by simp
qed

section \<open>Calls through the table\<close>

text \<open>C21: A start succeeds exactly when the provider returns OK and the last address it handed
  to the callback is text; that address is the result, even if the provider called back
  several times, and none at all is an error.\<close>

theorem start_result:
  assumes "api_start (dc_api dc) = Some start"
    and "call = start (dc_handle dc) (abi_protocol protocol) (bytes_from_utf8 address)
      (bytes_from_utf8 config) True (Some (as_ffi error_buffer_new)) p"
    and "fst (run_foreign call receive (Inl ''runtime did not return a server address'')) = (status, out, p')"
    and "addresses = sent call receive (Inl ''runtime did not return a server address'')"
  shows "snd (dynamic_start dc protocol address config p) = p' \<and>
    (fst (dynamic_start dc protocol address config p) = Inr b \<longleftrightarrow>
      status_is_ok status \<and> addresses \<noteq> [] \<and> borrowed_string (last addresses) = Inr b)"
proof -
  let ?c0 = "Inl ''runtime did not return a server address''"
  have run: "run_foreign call receive ?c0 =
      ((status, out, p'), if addresses = [] then ?c0 else borrowed_string (last addresses))"
    unfolding assms(4) using assms(3) receive_result [of call ?c0] by (intro prod_eqI) simp_all
  have call: "dynamic_start dc protocol address config p =
      (andThen (check_status status (from_ffi error_buffer_new out)) (\<lambda>_.
         map_err DynamicCoreError (if addresses = [] then ?c0 else borrowed_string (last addresses))), p')"
    using assms(1,2) run by (simp add: dynamic_start_def)
  show ?thesis by (auto simp: call andThen_Inr_iff)
qed

theorem start_result_witness:
  "fst (dynamic_start (mock_core 7 0) PgWire ''127.0.0.1:5432'' '''' (set_servers 0 [] fresh_heap)) =
     Inr ''127.0.0.1:5432''"
proof -
  let ?call = "mock_start (Some 0) PGWIRE (bytes_from_utf8 ''127.0.0.1:5432'') (bytes_from_utf8 '''') True
    (Some (as_ffi error_buffer_new)) (set_servers 0 [] fresh_heap)"
  have a: "valid_utf8 ''127.0.0.1:5432''" "valid_utf8 ''''" by (simp_all add: ascii_valid)
  have c: "?call = Callback (bytes_from_utf8 ''127.0.0.1:5432'') (\<lambda>status. Return (status, Some (as_ffi error_buffer_new),
      set_servers 0 [(PGWIRE, ''127.0.0.1:5432'')] (set_servers 0 [] fresh_heap)))"
    using a by (simp add: mock_start_def start_request_def handle_ref_def validate_protocol_def
        borrowed_str_from_utf8 bound_address_def ends_with_def retain_def with_error_boundary_def)
  show ?thesis
    using start_result [of "mock_core 7 0" mock_start ?call PgWire "''127.0.0.1:5432''" "''''"
        "set_servers 0 [] fresh_heap" OK "Some (as_ffi error_buffer_new)"
        "set_servers 0 [(PGWIRE, ''127.0.0.1:5432'')] (set_servers 0 [] fresh_heap)"
        "[bytes_from_utf8 ''127.0.0.1:5432'']" "''127.0.0.1:5432''"] c a
    by (simp add: mock_core_def API_V1_def receive_def Let_def)
qed

text \<open>C22: Listing is all or nothing: when it succeeds, its rows are the servers the provider
  reported, in that order and each with a known protocol and a textual address; when the
  provider returns OK and it fails all the same, one of them was unreadable.\<close>

theorem snapshots_result:
  assumes "api_list (dc_api dc) = Some list_servers"
    and "call = list_servers (dc_handle dc) True (Some (as_ffi error_buffer_new)) p"
    and "fst (run_foreign call visit (Inr [])) = (status, out, p')"
  shows "case fst (dynamic_snapshots dc p) of
      Inr rows \<Rightarrow> status_is_ok status \<and> list_all2 reads_as (sent call visit (Inr [])) rows
    | Inl e \<Rightarrow> \<not> status_is_ok status \<or>
        (\<exists>server \<in> set (sent call visit (Inr [])). \<nexists>row. reads_as server row)"
proof -
  obtain r where run: "run_foreign call visit (Inr []) = ((status, out, p'), r)"
    using assms(3) by (cases "run_foreign call visit (Inr [])") auto
  have call: "dynamic_snapshots dc p =
      (andThen (check_status status (from_ffi error_buffer_new out)) (\<lambda>_. map_err DynamicCoreError r), p')"
    using assms(1,2) run by (simp add: dynamic_snapshots_def)
  show ?thesis
  proof (cases "status_is_ok status")
    case True
    show ?thesis
    proof (cases r)
      case (Inr rows)
      with run have "list_all2 reads_as (sent call visit (Inr [])) rows"
        using visit_result [of call "[]" rows] by simp
      with Inr True show ?thesis by (simp add: call)
    next
      case (Inl e)
      with run have "\<exists>server \<in> set (sent call visit (Inr [])). \<nexists>row. reads_as server row"
        using visit_result_complete [of call "[]"] by simp
      with Inl True show ?thesis by (simp add: call)
    qed
  next
    case False
    then obtain e where "check_status status (from_ffi error_buffer_new out) = Inl e"
      by (auto simp: check_status_def)
    with False show ?thesis by (simp add: call)
  qed
qed

theorem snapshots_result_witness:
  "fst (dynamic_snapshots (mock_core 7 0) (set_servers 0 [(HTTP, ''[::1]:80'')] fresh_heap)) =
     Inr [(''http'', ''[::1]:80'')]"
proof -
  let ?heap = "set_servers 0 [(HTTP, ''[::1]:80'')] fresh_heap"
  let ?call = "mock_list (Some 0) True (Some (as_ffi error_buffer_new)) ?heap"
  have a: "valid_utf8 ''[::1]:80''" by (simp add: ascii_valid)
  have c: "?call = Callback (HTTP, bytes_from_utf8 ''[::1]:80'') (\<lambda>status.
      if status_is_ok status then Return (OK, Some (as_ffi error_buffer_new), ?heap)
      else Return (status, Some (as_ffi error_buffer_new), ?heap))"
    by (simp add: mock_list_def list_request_def handle_ref_def with_error_boundary_def cong: if_cong)
  have v: "visit (HTTP, bytes_from_utf8 ''[::1]:80'') (Inr []) = (OK, Inr [(''http'', ''[::1]:80'')])"
    using a by (simp add: visit_def protocol_name_def)
  have l: "api_list (dc_api (mock_core 7 0)) = Some mock_list"
    and call: "?call = mock_list (dc_handle (mock_core 7 0)) True (Some (as_ffi error_buffer_new)) ?heap"
    by (simp_all add: mock_core_def API_V1_def)
  have f: "fst (run_foreign ?call visit (Inr [])) = (OK, Some (as_ffi error_buffer_new), ?heap)"
    and s: "sent ?call visit (Inr []) = [(HTTP, bytes_from_utf8 ''[::1]:80'')]"
    unfolding c by (simp_all add: v)
  have "case fst (dynamic_snapshots (mock_core 7 0) ?heap) of
      Inr rows \<Rightarrow> status_is_ok OK \<and> list_all2 reads_as [(HTTP, bytes_from_utf8 ''[::1]:80'')] rows
    | Inl e \<Rightarrow> \<not> status_is_ok OK \<or>
        (\<exists>server \<in> set [(HTTP, bytes_from_utf8 ''[::1]:80'')]. \<nexists>row. reads_as server row)"
    using snapshots_result [of "mock_core 7 0" mock_list ?call ?heap OK
        "Some (as_ffi error_buffer_new)" ?heap, OF l call f] by (simp only: s)
  moreover have "reads_as (HTTP, bytes_from_utf8 ''[::1]:80'') row \<longleftrightarrow> row = (''http'', ''[::1]:80'')" for row
    using a by (cases row) (auto simp: reads_as_def protocol_name_def)
  ultimately show ?thesis by (auto simp: list_all2_Cons1 split: sum.splits)
qed

text \<open>A status other than OK always becomes an error whose message is text, whatever bytes
  the provider left in the buffer.\<close>

theorem error_message_is_text:
  "(check_status status error = Inr () \<longleftrightarrow> status_is_ok status) \<and>
   (case check_status status error of Inr _ \<Rightarrow> True | Inl e \<Rightarrow> valid_utf8 (error_text e))"
  by (simp add: check_status_def status_detail_valid)

text \<open>C31: A diagnostic of at most 4096 bytes that the provider writes through the caller's buffer
  arrives unchanged as the message of the error.\<close>

theorem diagnostic_round_trip:
  assumes "valid_utf8 m" "m \<noteq> []" "length m \<le> ERROR_CAPACITY" "\<not> status_is_ok status"
  shows "check_status status (from_ffi error_buffer_new
      (snd (report_error (Some (as_ffi error_buffer_new)) status m))) = Inl (DynamicCoreError m)"
  using assms by (rule report_error_round_trip)

theorem diagnostic_round_trip_witness:
  "check_status INTERNAL (from_ffi error_buffer_new
      (snd (report_error (Some (as_ffi error_buffer_new)) INTERNAL ''boom''))) = Inl (DynamicCoreError ''boom'')"
  by (rule diagnostic_round_trip) (simp_all add: ascii_valid ERROR_CAPACITY_def)

text \<open>A longer diagnostic is never cut: the buffer is left alone, and the error names the
  status, the size required and the capacity instead.\<close>

theorem oversized_diagnostic:
  assumes "ERROR_CAPACITY < length m" "\<not> status_is_ok status"
  shows "check_status status (from_ffi error_buffer_new
      (snd (report_error (Some (as_ffi error_buffer_new)) status m))) =
    Inl (DynamicCoreError (''DuckFlight runtime failed with status '' @ status_text status @
      ''; diagnostic requires '' @ dec_nat (length m) @ '' bytes (buffer capacity '' @
      dec_nat ERROR_CAPACITY @ '')''))"
  using assms by (rule report_error_too_long)

theorem oversized_diagnostic_witness:
  "check_status INTERNAL (from_ffi error_buffer_new
      (snd (report_error (Some (as_ffi error_buffer_new)) INTERNAL (replicate 4097 (CHR ''x''))))) =
    Inl (DynamicCoreError (''DuckFlight runtime failed with status '' @ status_text INTERNAL @
      ''; diagnostic requires '' @ dec_nat 4097 @ '' bytes (buffer capacity '' @
      dec_nat ERROR_CAPACITY @ '')''))"
  using oversized_diagnostic [of "replicate 4097 (CHR ''x'')" INTERNAL]
  by (simp only: length_replicate) (simp add: ERROR_CAPACITY_def)

section \<open>Protocol names\<close>

text \<open>The three spellings of a protocol agree: its name parses back to it, with any ASCII
  white space around, and its ABI number is named the same; a number is named exactly when
  it belongs to a protocol.\<close>

theorem protocol_names_agree:
  "protocol_parse (as_str p) = Inr p \<and> protocol_parse (''  '' @ as_str p) = Inr p \<and>
   protocol_name (abi_protocol p) = Inr (as_str p) \<and>
   (protocol_name n = Inr s \<longleftrightarrow> (\<exists>q. n = abi_protocol q \<and> s = as_str q)) \<and>
   (abi_protocol p = abi_protocol q \<longleftrightarrow> p = q)"
proof -
  have "is_space [CHR '' '']" "byte_val (CHR '' '') < 128" by (simp_all add: is_space_def byte_val_def)
  then show ?thesis
    using protocol_parse_space(1) [of "CHR '' ''"]
    by (simp add: protocol_parse_as_str protocol_name_Inr)
qed

text \<open>A protocol argument is accepted exactly when, trimmed and in lower case, it is one of
  the six documented names, and PgWire has the three of them.\<close>

theorem protocol_parse_accepts:
  "protocol_parse s = Inr p \<longleftrightarrow>
     to_ascii_lowercase (trim s) \<in>
       (case p of PgWire \<Rightarrow> {''pgwire'', ''postgres'', ''postgresql''}
        | FlightSql \<Rightarrow> {''flight''} | Http \<Rightarrow> {''http''} | Quack \<Rightarrow> {''quack''})"
  by (rule protocol_parse_Inr)

section \<open>The table functions\<close>

text \<open>C30: One page of the server list never reaches past its vector or the rows: a range starts
  at the offset, is not empty, holds at most the capacity, and saturation at the top of the
  word neither wraps nor loses a row.\<close>

theorem chunk_bounds_safe:
  "case chunk_bounds rows start capacity of
     None \<Rightarrow> unat rows \<le> unat start \<or> unat capacity = 0
   | Some (first, until) \<Rightarrow> first = start \<and> unat first < unat until \<and> unat until \<le> unat rows \<and>
       unat (until - first) \<le> unat capacity \<and>
       (unat (until - first) = unat capacity \<or> until = rows)"
proof (cases "chunk_bounds rows start capacity")
  case None
  show ?thesis unfolding None using None [unfolded chunk_bounds_None] by simp
next
  case (Some b)
  obtain first until where b: "b = (first, until)" by (cases b)
  note cb = chunk_bounds_Some [OF Some [unfolded b]]
  have "until = rows" if "unat until = unat rows" using that by (simp add: word_unat_eq_iff)
  with cb Some b show ?thesis by (auto simp: min_def split: if_splits)
qed

text \<open>Paging loses and repeats nothing: \<open>n\<close> successive calls over vectors of any capacity
  emit together the first \<open>n\<close> times capacity servers of the snapshot, in its order.\<close>

theorem server_list_pages:
  assumes "rows_text rows" "length rows < 2 ^ 64" "n * unat cap < 2 ^ 64"
  shows "scan_servers n cap \<lparr>sl_snapshots = rows, sl_offset = 0\<rparr> =
    map row_cells (take (n * unat cap) rows)"
  using scan_servers_window [OF assms(1,2), of 0 n cap] assms(3) by (simp add: window_def)

theorem server_list_pages_witness:
  "scan_servers 2 2 \<lparr>sl_snapshots = [(''http'', ''a''), (''flight'', ''b''), (''quack'', ''c'')], sl_offset = 0\<rparr> =
     map row_cells [(''http'', ''a''), (''flight'', ''b''), (''quack'', ''c'')]"
  using server_list_pages [of "[(''http'', ''a''), (''flight'', ''b''), (''quack'', ''c'')]" 2 2] by simp

text \<open>Each function emits its single row once: every later call of the same query ends with
  no row and reaches neither the runtime nor the cells of the output.\<close>

theorem functions_emit_once:
  assumes "serve_func protocol core bind done s ch = (r, d, s', ch')"
    and "stop_func core sbind done s ch = (r2, d2, s2, ch2)"
    and "core_status_func core done ch = (r3, d3, ch3)"
  shows "d \<and> d2 \<and> d3 \<and> (done \<longrightarrow> s' = s \<and> s2 = s \<and>
    chunk_rows 2 ch' = [] \<and> chunk_rows 1 ch2 = [] \<and> chunk_rows 3 ch3 = [] \<and>
    ch_cell ch' = ch_cell ch \<and> ch_cell ch2 = ch_cell ch \<and> ch_cell ch3 = ch_cell ch)"
  using assms
  by (auto simp: serve_func_def stop_func_def core_status_func_def chunk_rows_def Let_def
      split: if_splits prod.splits sum.splits)

theorem functions_emit_once_witness:
  "let ch = empty_chunk 4 in
   serve_func Http (unavailable_core ''off'') \<lparr>sb_address = ''a'', sb_config_file = ''''\<rparr> True () ch =
     (Inr (), True, (), ch\<lparr>ch_len := 0\<rparr>) \<and> chunk_rows 2 (ch\<lparr>ch_len := 0\<rparr>) = []"
proof -
  have a: "serve_func Http (unavailable_core ''off'') \<lparr>sb_address = ''a'', sb_config_file = ''''\<rparr> True () (empty_chunk 4) =
     (Inr (), True, (), (empty_chunk 4)\<lparr>ch_len := 0\<rparr>)" by (rule serve_func_done)
  from functions_emit_once [OF a stop_func_done core_status_func_done] a show ?thesis by (simp add: Let_def)
qed

text \<open>C5: From load to shutdown over the mock provider: loading makes a core without servers; a
  start emits one row whose server the list then shows; stopping that server by the name of
  its protocol reports success and empties the list; stopping it again reports that it is
  not there.\<close>

theorem serve_list_stop_cycle:
  assumes "load (\<lambda>_. Inr (mock_library i)) path info access fresh_heap = Some (Inr dc, rel, h0)"
    and "serve_func p (dynamic_runtime dc) bind False h0 ch = (Inr (), d1, h1, ch1)"
    and "chunk_rows 2 ch1 = [row_cells (as_str p, b)]"
    and "stop_func (dynamic_runtime dc) \<lparr>st_protocol = as_str p, st_address = b\<rparr> False h1 ch = (Inr (), d2, h2, ch2)"
    and "stop_func (dynamic_runtime dc) \<lparr>st_protocol = as_str p, st_address = b\<rparr> False h2 ch = (Inr (), d3, h3, ch3)"
  shows "rt_snapshots (dynamic_runtime dc) h0 = (Inr [], h0) \<and>
    rt_snapshots (dynamic_runtime dc) h1 = (Inr [(as_str p, b)], h1) \<and>
    chunk_rows 1 ch2 = [[Some (Varchar (''stopped '' @ as_str p @ '' server on '' @ b))]] \<and>
    rt_snapshots (dynamic_runtime dc) h2 = (Inr [], h2) \<and>
    chunk_rows 1 ch3 = [[Some (Varchar (''no '' @ as_str p @ '' server on '' @ b))]]"
proof -
  have dc: "dc = mock_core i 0" and inv: "mock_invar 0 h0" and l0: "mock_listed 0 h0 = []"
    using load_mock [of fresh_heap i path info access] assms(1) by (auto simp: fresh_heap_def)
  let ?rt = "dynamic_runtime (mock_core i 0)"
  obtain b' where l1: "mock_listed 0 h1 = register (p, b') []" and inv1: "mock_invar 0 h1"
    and "chunk_rows 2 ch1 = [row_cells (as_str p, b')]"
    using mock.serve_registers [OF inv assms(2) [unfolded dc]] l0 by auto
  then have b: "b' = b" using assms(3) by (simp add: row_cells_def)
  have inv2: "mock_invar 0 h2" and l2: "mock_listed 0 h2 = []" and
    s2: "chunk_rows 1 ch2 = [[Some (Varchar (stop_status True p b))]]"
    using mock.stop_reports [OF inv1 assms(4) [unfolded dc]] l1 b
    by (auto simp: protocol_parse_as_str register_def unregister_def retain_def)
  have s3: "chunk_rows 1 ch3 = [[Some (Varchar (stop_status False p b))]]"
    using mock.stop_reports [OF inv2 assms(5) [unfolded dc]] l2 by (auto simp: protocol_parse_as_str)
  show ?thesis
    using mock.snapshots_rows [OF inv] mock.snapshots_rows [OF inv1] mock.snapshots_rows [OF inv2]
      l0 l1 l2 b s2 s3
    by (simp add: dc server_row_def register_def retain_def stop_status_def)
qed

theorem serve_list_stop_cycle_witness:
  "\<exists>dc h0 h1 h2 rel d ch2.
     load (\<lambda>_. Inr (mock_library 7)) ''core.so'' None None fresh_heap = Some (Inr dc, rel, h0) \<and>
     rt_snapshots (dynamic_runtime dc) h1 = (Inr [(''http'', ''127.0.0.1:18080'')], h1) \<and>
     stop_func (dynamic_runtime dc) \<lparr>st_protocol = ''http'', st_address = ''127.0.0.1:18080''\<rparr> False h1
       (empty_chunk 4) = (Inr (), d, h2, ch2) \<and> rt_snapshots (dynamic_runtime dc) h2 = (Inr [], h2)"
proof -
  let ?a = "''127.0.0.1:18080''" and ?rt = "dynamic_runtime (mock_core 7 0)" and ?ch = "empty_chunk 4"
  let ?bind = "\<lparr>sb_address = ''127.0.0.1:0'', sb_config_file = ''''\<rparr>"
  let ?sbind = "\<lparr>st_protocol = ''http'', st_address = ?a\<rparr>"
  have utf: "valid_utf8 ?a" "valid_utf8 ''127.0.0.1:0''" "valid_utf8 ''''" by (simp_all add: ascii_valid)
  have nul: "no_nul ?a" "no_nul ''http''" by (simp_all add: no_nul_def)
  obtain h0 where l: "load (\<lambda>_. Inr (mock_library 7)) ''core.so'' None None fresh_heap =
      Some (Inr (mock_core 7 0), [], h0)" and e: "core_servers h0 0 = []"
    using load_mock [of fresh_heap 7 "''core.so''" None None] by (auto simp: fresh_heap_def mock_listed_def)
  let ?h1 = "set_servers 0 [(HTTP, ?a)] h0" and ?h2 = "set_servers 0 [] (set_servers 0 [(HTTP, ?a)] h0)"
  have h: "as_str Http = ''http''" by simp
  have "dynamic_start (mock_core 7 0) Http ''127.0.0.1:0'' '''' h0 = (Inr ?a, ?h1)"
    using mock_start_eq [OF utf(2,3), of 7 0 Http h0] e
    by (simp add: bound_def ephemeral_def ends_with_def retain_def)
  then obtain ch1 where s: "serve_func Http ?rt ?bind False h0 ?ch = (Inr (), True, ?h1, ch1)"
    and r: "chunk_rows 2 ch1 = [row_cells (as_str Http, ?a)]"
    using nul chunk_rows_serve [of "(write_cell 1 0 (Varchar ?a) (write_cell 0 0 (Varchar (as_str Http)) ?ch))\<lparr>ch_len := 1\<rparr>"
        "as_str Http" ?a]
    by (auto simp: serve_func_def empty_chunk_def)
  have p: "protocol_parse ''http'' = Inr Http" using protocol_parse_as_str [of Http] by simp
  have t: "dynamic_stop (mock_core 7 0) Http ?a ?h1 = (Inr True, ?h2)"
    "dynamic_stop (mock_core 7 0) Http ?a ?h2 = (Inr False, set_servers 0 [] ?h2)"
    using mock_stop_eq [OF utf(1), of 7 0 Http] by (simp_all add: retain_def)
  then obtain ch2 ch3 where
    "stop_func ?rt ?sbind False ?h1 ?ch = (Inr (), True, ?h2, ch2)"
    "stop_func ?rt ?sbind False ?h2 ?ch = (Inr (), True, set_servers 0 [] ?h2, ch3)"
    using nul p by (auto simp: stop_func_def empty_chunk_def stop_status_def)
  from serve_list_stop_cycle [OF l s r, unfolded h, OF this] l this(1) show ?thesis by blast
qed

text \<open>C7: Over the mock provider any sequence of serve and stop calls, whatever their arguments
  and outcomes, refines the abstract registry: the servers stay free of duplicates, one
  appears only by a serve call of its protocol, and one disappears only by a stop call that
  names its protocol and its address.\<close>

theorem calls_refine_registry:
  assumes "mock_invar h heap"
    and "heap' = run_calls (dynamic_runtime (mock_core lib h)) cap calls heap"
  shows "registry_run (mock_listed h heap) calls (mock_listed h heap') \<and>
    distinct (mock_listed h heap') \<and>
    (\<forall>server \<in> set (mock_listed h heap') - set (mock_listed h heap).
       \<exists>a c. Serve (fst server) a c \<in> set calls) \<and>
    (\<forall>server \<in> set (mock_listed h heap) - set (mock_listed h heap').
       \<exists>name. Stop name (snd server) \<in> set calls \<and> protocol_parse name = Inr (fst server))"
proof -
  have run: "registry_run (mock_listed h heap) calls (mock_listed h heap')"
    using mock.run_calls_refines [OF assms(1)] assms(2) by blast
  show ?thesis
    using run registry_run_distinct [OF run mock_listed_distinct [OF assms(1)]]
      registry_run_new [OF run] registry_run_gone [OF run] by blast
qed

theorem calls_refine_registry_witness:
  "\<exists>heap'. registry_run [] [Serve Quack ''h:0'' '''', Stop ''QUACK'' ''h:1''] (mock_listed 0 heap') \<and>
     distinct (mock_listed 0 heap')"
proof -
  have i: "mock_invar 0 (set_servers 0 [] fresh_heap)"
    by (simp add: mock_invar_def set_servers_def core_servers_def)
  have l: "mock_listed 0 (set_servers 0 [] fresh_heap) = []"
    by (simp add: mock_listed_def)
  from calls_refine_registry [OF i refl, where lib = 7 and cap = 4 and
      calls = "[Serve Quack ''h:0'' '''', Stop ''QUACK'' ''h:1'']"]
  show ?thesis unfolding l by blast
qed

section \<open>Starting the extension\<close>

text \<open>C33: When initialisation succeeds, exactly the seven table functions are registered, under
  seven different names, and the core behind them is either a loaded one or the unavailable
  one: a core that does not load never fails the extension.\<close>

theorem init_registers_all_functions:
  assumes "duckflight_init_c_api_internal host source p = Some (Inr True, fs, core, p')"
  shows "fs = table_functions \<and> distinct (map fst fs) \<and> length fs = 7 \<and>
    (\<exists>rt. core = Some rt \<and>
      ((\<exists>dc. rt = dynamic_runtime dc) \<or> (\<exists>detail. rt = unavailable_core detail)))"
proof -
  obtain r regs where reg: "register_extension (register_function host) = (r, regs)" by fastforce
  have "\<exists>rt. core = Some rt \<and> choose_core source p = Some (rt, p')"
    using assms reg
    by (auto simp: duckflight_init_c_api_internal_def split: sum.splits bool.splits option.splits prod.splits)
  then show ?thesis
    using init_registers [OF assms] table_functions_distinct choose_core_cases [of source p]
    by (auto simp: table_functions_def)
qed

theorem init_registers_all_functions_witness:
  "\<exists>fs rt. duckflight_init_c_api_internal
     \<lparr>api_init = (\<lambda>_. Inr True), get_database = Some (Some 1), open_connection = (\<lambda>_. Inr ()),
      register_function = (\<lambda>_. Inr ()), has_set_error = True\<rparr> (Configured None (\<lambda>_ _. None)) fresh_heap =
     Some (Inr True, fs, Some rt, fresh_heap) \<and> length fs = 7"
proof -
  have i: "duckflight_init_c_api_internal
     \<lparr>api_init = (\<lambda>_. Inr True), get_database = Some (Some 1), open_connection = (\<lambda>_. Inr ()),
      register_function = (\<lambda>_. Inr ()), has_set_error = True\<rparr> (Configured None (\<lambda>_ _. None)) fresh_heap =
     Some (Inr True, table_functions, Some (unavailable_core ''DUCKFLIGHT_CORE_PATH is not set''), fresh_heap)"
    by (simp add: duckflight_init_c_api_internal_def choose_core_def register_extension_def table_functions_def)
  from init_registers_all_functions [OF i] i show ?thesis by blast
qed

text \<open>C34: The entry point returns false on every error and hands DuckDB exactly one message that
  is a C string: the error's own text, or a fixed sentence when that text holds a NUL; it
  reports nothing when it initialised, or declined because the host has no API or no
  database.\<close>

theorem init_reports_errors:
  assumes "duckflight_init_c_api host source p = Some (ok, reported)"
  shows "\<exists>r fs core p'. duckflight_init_c_api_internal host source p = Some (r, fs, core, p') \<and>
    (ok \<longleftrightarrow> r = Inr True) \<and>
    (case r of
       Inr _ \<Rightarrow> reported = None
     | Inl e \<Rightarrow> reported = (if has_set_error host then
           Some (if no_nul (error_text e) then error_text e else init_fallback_error) else None)) \<and>
    (\<forall>text. reported = Some text \<longrightarrow> no_nul text)"
proof -
  obtain r fs core p' where i: "duckflight_init_c_api_internal host source p = Some (r, fs, core, p')"
    and r: "(ok, reported) = (case r of Inr initialized \<Rightarrow> (initialized, None) | Inl e \<Rightarrow> (False, reported_error host e))"
    using assms by (auto simp: duckflight_init_c_api_def)
  show ?thesis
  proof (intro exI conjI)
    show "duckflight_init_c_api_internal host source p = Some (r, fs, core, p')" by (rule i)
    show "ok \<longleftrightarrow> r = Inr True" using r by (cases r) auto
    show c: "case r of
       Inr _ \<Rightarrow> reported = None
     | Inl e \<Rightarrow> reported = (if has_set_error host then
           Some (if no_nul (error_text e) then error_text e else init_fallback_error) else None)"
    proof (cases r)
      case (Inl e)
      with r show ?thesis
        by (simp add: reported_error_cases)
    qed (use r in simp)
    then show "\<forall>text. reported = Some text \<longrightarrow> no_nul text"
      by (auto simp: ascii_init_fallback split: sum.splits if_splits)
  qed
qed

theorem init_reports_errors_witness:
  "duckflight_init_c_api
     \<lparr>api_init = (\<lambda>_. Inl ''no api''), get_database = None, open_connection = (\<lambda>_. Inr ()),
      register_function = (\<lambda>_. Inr ()), has_set_error = True\<rparr> (Configured None (\<lambda>_ _. None)) fresh_heap =
     Some (False, Some ''no api'')"
proof -
  let ?host = "\<lparr>api_init = (\<lambda>_. Inl ''no api''), get_database = None, open_connection = (\<lambda>_. Inr ()),
      register_function = (\<lambda>_. Inr ()), has_set_error = True\<rparr>"
  let ?source = "Configured None (\<lambda>_ _. None) :: mock_heap core_source"
  have i: "duckflight_init_c_api_internal ?host ?source fresh_heap =
      Some (Inl (StringError ''no api''), [], None, fresh_heap)"
    by (simp add: duckflight_init_c_api_internal_def)
  obtain ok reported where o1: "duckflight_init_c_api ?host ?source fresh_heap = Some (ok, reported)"
    by (auto simp: duckflight_init_c_api_def i)
  from init_reports_errors [OF o1] i show ?thesis by (auto simp: o1 no_nul_def)
qed

text \<open>C40: The build embeds a core exactly when the path variable names a file that could be
  copied; without the variable nothing but the two directives that are always there is
  emitted, and every other failure stops the build.\<close>

theorem build_embeds_core:
  "(''cargo:rustc-cfg=duckflight_bundled_core'' \<in>
      (case build_main env of Directives ds \<Rightarrow> set ds | BuildPanic _ \<Rightarrow> {})) \<longleftrightarrow>
    (\<exists>source out. be_bundle_path env = Some source \<and> be_is_file env source \<and> be_out_dir env = Some out \<and>
       is_ok (be_copy env source (path_join out ''duckflight_core.bundle'')))"
proof (cases "be_bundle_path env")
  case (Some source)
  show ?thesis
  proof (cases "be_is_file env source")
    case True
    show ?thesis
    proof (cases "be_out_dir env")
      case o: (Some out)
      show ?thesis
        by (cases "be_copy env source (path_join out ''duckflight_core.bundle'')")
          (simp_all add: build_main_def Let_def Some True o)
    qed (simp add: build_main_def Let_def Some True)
  qed (simp add: build_main_def Let_def Some)
qed (simp add: build_main_def Let_def)

text \<open>Without a core every server call is refused with the reason, the list is empty and the
  status row says that no core is loaded.\<close>

theorem unavailable_core_refuses:
  "serve_func p (unavailable_core detail) bind False s ch =
     (Inl (StringError (''DuckFlight core runtime is unavailable: '' @ detail)), True, s, ch) \<and>
   (case protocol_parse (st_protocol sbind) of
      Inl e \<Rightarrow> stop_func (unavailable_core detail) sbind False s ch = (Inl e, True, s, ch)
    | Inr _ \<Rightarrow> stop_func (unavailable_core detail) sbind False s ch =
        (Inl (StringError (''DuckFlight core runtime is unavailable: '' @ detail)), True, s, ch)) \<and>
   init_server_list (unavailable_core detail) s = (Inr \<lparr>sl_snapshots = [], sl_offset = 0\<rparr>, s) \<and>
   \<not> cs_loaded (rt_status (unavailable_core detail))"
  by (auto simp: serve_func_def stop_func_def init_server_list_def unavailable_error_def split: sum.splits)

section \<open>Queries\<close>



text \<open>C23: Listing the servers from SQL emits every server of the snapshot taken when the query
  started, once and in order, whatever the capacity of the vectors; when one of them is not
  text the query is an error instead of a partial list.\<close>

theorem server_list_query:
  assumes "rt_snapshots core s = (Inr rows, s')" "length rows < 2 ^ 63" "length rows < fuel" "0 < cap"
  shows "\<exists>r. sql_query fuel cap table_functions core ''duckflight_servers'' [] s = Some (r, s') \<and>
    (if rows_text rows then r = Inr (map row_cells rows) else \<not> is_ok r)"
  using query_server_list_total [OF assms(1,2,3), of cap] assms(4)
  by (simp add: sql_query_def map_of_table_functions unat_gt_0)

theorem server_list_query_witness:
  "sql_query 4 2 table_functions (unavailable_core ''d''\<lparr>rt_snapshots := \<lambda>s. (Inr [(''a'', ''1''), (''b'', ''2''), (''c'', ''3'')], s)\<rparr>)
     ''duckflight_servers'' [] () = Some (Inr (map row_cells [(''a'', ''1''), (''b'', ''2''), (''c'', ''3'')]), ())"
  using server_list_query [of "unavailable_core ''d''\<lparr>rt_snapshots := \<lambda>s. (Inr [(''a'', ''1''), (''b'', ''2''), (''c'', ''3'')], s)\<rparr>"
      "()" "[(''a'', ''1''), (''b'', ''2''), (''c'', ''3'')]" "()" 4 2]
  by (simp add: no_nul_def)

lemma session_core:
  assumes "duckflight_init_c_api_internal host (Configured (Some path) (\<lambda>path. load (\<lambda>_. Inr (mock_library i)) path info access))
      fresh_heap = Some (Inr True, regs, Some core, h0)"
  shows "regs = table_functions \<and> core = dynamic_runtime (mock_core i 0) \<and> mock_invar 0 h0 \<and> mock_listed 0 h0 = []"
proof -
  obtain heap where l: "load (\<lambda>_. Inr (mock_library i)) path info access fresh_heap = Some (Inr (mock_core i 0), [], heap)"
    "mock_invar 0 heap" "mock_listed 0 heap = []"
    using load_mock [of fresh_heap i path info access] by (auto simp: fresh_heap_def)
  then have "choose_core (Configured (Some path) (\<lambda>path. load (\<lambda>_. Inr (mock_library i)) path info access)) fresh_heap =
      Some (dynamic_runtime (mock_core i 0), heap)"
    by (simp add: choose_core_def core_or_unavailable_def)
  with assms l(2,3) init_registers(1) [OF assms] show ?thesis
    by (auto simp: duckflight_init_c_api_internal_def split: sum.splits bool.splits option.splits prod.splits)
qed

lemma session_stop:
  assumes "valid_utf8 b" "no_nul b" "cap \<noteq> 0"
  shows "\<exists>out h2. run_function (Suc (Suc n)) cap (dynamic_runtime (mock_core i 0)) StopFunction [as_str p, b] h1 = Some (Inr out, h2)"
proof -
  let ?bind = "\<lparr>st_protocol = as_str p, st_address = b\<rparr>" and ?rt = "dynamic_runtime (mock_core i 0)"
  obtain r h2 ch where f: "stop_func ?rt ?bind False h1 (empty_chunk cap) = (r, True, h2, ch)"
    using stop_func_emits [of ?rt ?bind h1 "empty_chunk cap"] by auto
  from f have "r = Inr ()"
  proof (cases rule: stop_func_cases)
    case (refused p' e)
    then show ?thesis using mock_stop_eq [OF assms(1), of i 0 p' h1] by simp
  next
    case (unreported p' x)
    then show ?thesis using assms(2,3) by (simp add: empty_chunk_def unat_gt_0)
  qed (simp_all add: protocol_parse_as_str)
  with query_stop [OF f, of n] show ?thesis by simp
qed

text \<open>C4: A session over a loaded core, from the extension's initialisation to SQL: the address
  a serve function answers with is the one server the list shows, stopping it by that row
  reports success, and then the list is empty.\<close>

theorem sql_session:
  assumes "duckflight_init_c_api_internal host (Configured (Some path) (\<lambda>path. load (\<lambda>_. Inr (mock_library i)) path info access))
      fresh_heap = Some (Inr True, regs, Some core, h0)"
    and "sql_query (Suc (Suc n)) cap regs core (serve_name p) [a, c] h0 = Some (Inr rows, h1)" "cap \<noteq> 0"
  shows "\<exists>b h2. rows = [row_cells (as_str p, b)] \<and>
    sql_query (Suc (Suc n)) cap regs core ''duckflight_servers'' [] h1 = Some (Inr rows, h1) \<and>
    sql_query (Suc (Suc n)) cap regs core ''duckflight_stop'' [as_str p, b] h1 =
      Some (Inr [[Some (Varchar (''stopped '' @ as_str p @ '' server on '' @ b))]], h2) \<and>
    sql_query (Suc (Suc n)) cap regs core ''duckflight_servers'' [] h2 = Some (Inr [], h2)"
proof -
  note init = session_core [OF assms(1)]
  let ?rt = "dynamic_runtime (mock_core i 0)"
  have q: "sql_query (Suc (Suc n)) cap regs core name ps s = run_function (Suc (Suc n)) cap ?rt f ps s"
    if "map_of table_functions name = Some f" for name f ps s
    using init that by (simp add: sql_query_def)
  have serve: "run_function (Suc (Suc n)) cap ?rt (ServeFunction p) [a, c] h0 = Some (Inr rows, h1)"
    using assms(2) q [OF map_of_serve_name] by simp
  obtain b where b: "rows = [row_cells (as_str p, b)]" "mock_listed 0 h1 = [(p, b)]" "mock_invar 0 h1" "no_nul b" "valid_utf8 b"
    using mock.query_serve_registers [OF _ serve] init by (auto simp: register_def retain_def)
  obtain out h2 where stop: "run_function (Suc (Suc n)) cap ?rt StopFunction [as_str p, b] h1 = Some (Inr out, h2)"
    using session_stop [OF b(5,4) assms(3)] by blast
  from mock.query_stop_unregisters [OF b(3) stop] have
    "out = [[Some (Varchar (''stopped '' @ as_str p @ '' server on '' @ b))]]" "mock_listed 0 h2 = []" "mock_invar 0 h2"
    by (simp_all add: b(2) stop_status_def unregister_def retain_def)
  with stop b show ?thesis
    using mock.query_servers [of 0 h1 "Suc (Suc n)" cap i] mock.query_servers [of 0 h2 "Suc (Suc n)" cap i] assms(3)
    by (intro exI [of _ b] exI [of _ h2]) (simp add: q map_of_table_functions unat_gt_0 server_row_def)
qed

theorem sql_session_witness:
  "\<exists>host regs core h0 h1.
     duckflight_init_c_api_internal host (Configured (Some ''core.so'') (\<lambda>path. load (\<lambda>_. Inr (mock_library 7)) path None None))
       fresh_heap = Some (Inr True, regs, Some core, h0) \<and>
     sql_query 2 4 regs core ''duckflight_http_serve'' [''127.0.0.1:0'', ''''] h0 =
       Some (Inr [row_cells (''http'', ''127.0.0.1:18080'')], h1) \<and>
     sql_query 2 4 regs core ''duckflight_servers'' [] h1 = Some (Inr [row_cells (''http'', ''127.0.0.1:18080'')], h1)"
proof -
  let ?host = "\<lparr>api_init = (\<lambda>_. Inr True), get_database = Some (Some 1), open_connection = (\<lambda>_. Inr ()),
      register_function = (\<lambda>_. Inr ()), has_set_error = True\<rparr>"
  let ?a = "''127.0.0.1:18080''" and ?rt = "dynamic_runtime (mock_core 7 0)"
  have utf: "valid_utf8 ''127.0.0.1:0''" "valid_utf8 ''''" and nul: "no_nul ?a" "no_nul ''http''"
    by (simp_all add: ascii_valid no_nul_def)
  obtain h0 where l: "load (\<lambda>_. Inr (mock_library 7)) ''core.so'' None None fresh_heap =
      Some (Inr (mock_core 7 0), [], h0)" and e: "core_servers h0 0 = []"
    using load_mock [of fresh_heap 7 "''core.so''" None None] by (auto simp: fresh_heap_def mock_listed_def)
  let ?h1 = "set_servers 0 [(HTTP, ?a)] h0"
  have init: "duckflight_init_c_api_internal ?host (Configured (Some ''core.so'') (\<lambda>path. load (\<lambda>_. Inr (mock_library 7)) path None None))
      fresh_heap = Some (Inr True, table_functions, Some ?rt, h0)"
    by (simp add: duckflight_init_c_api_internal_def choose_core_def core_or_unavailable_def l register_extension_def
        table_functions_def)
  have "dynamic_start (mock_core 7 0) Http ''127.0.0.1:0'' '''' h0 = (Inr ?a, ?h1)"
    using mock_start_eq [OF utf, of 7 0 Http h0] e
    by (simp add: bound_def ephemeral_def ends_with_def retain_def)
  then obtain ch where "serve_func Http ?rt \<lparr>sb_address = ''127.0.0.1:0'', sb_config_file = ''''\<rparr> False h0 (empty_chunk 4) =
      (Inr (), True, ?h1, ch)" "chunk_rows 2 ch = [row_cells (''http'', ?a)]"
    using nul chunk_rows_serve [of "(write_cell 1 0 (Varchar ?a) (write_cell 0 0 (Varchar ''http'') (empty_chunk 4)))\<lparr>ch_len := 1\<rparr>"
        "''http''" ?a]
    by (auto simp: serve_func_def empty_chunk_def)
  from query_serve [OF this(1), of 0] this(2)
  have q: "sql_query (Suc (Suc 0)) 4 table_functions ?rt (serve_name Http) [''127.0.0.1:0'', ''''] h0 =
      Some (Inr [row_cells (''http'', ?a)], ?h1)"
    by (simp add: sql_query_def map_of_serve_name)
  from sql_session [OF init q] init q show ?thesis
    unfolding serve_name_def protocol.case numeral_2_eq_2 by (intro exI conjI) (assumption | force)+
qed

end
