(* ===== verification/Bundle_Seal.thy ===== *)
theory Bundle_Seal
  imports Bundle
begin

text \<open>
  What the seals of the bundled core are for. The locale \<open>sealing_kernel\<close> states what Linux
  documents of memory files: writing appends, seals accumulate, and a sealed file can be
  neither written nor truncated nor unsealed. Inside it the file behind a prepared bundle
  holds the bundled bytes and keeps them, whoever uses its descriptor. The locale is
  interpreted on memory files as a map from descriptors to contents and seals.
\<close>

unbundle bit_operations_syntax

definition EPERM :: errno where "EPERM = 1"
definition EBADF :: errno where "EBADF = 9"

text \<open>What a process may do with the descriptor of a memory file.\<close>

datatype file_use = WriteBytes fd "byte list" | Truncate fd nat | AddSeals fd u32

definition use_file :: "'o kernel \<Rightarrow> (fd \<Rightarrow> nat \<Rightarrow> 'o \<Rightarrow> (errno + unit) \<times> 'o) \<Rightarrow> file_use \<Rightarrow> 'o \<Rightarrow> 'o" where
  "use_file k ftruncate u s = (case u of
       WriteBytes fd bytes \<Rightarrow> snd (write_all k fd bytes s)
     | Truncate fd n \<Rightarrow> snd (ftruncate fd n s)
     | AddSeals fd m \<Rightarrow> snd (add_seals k fd m s))"

locale sealing_kernel =
  fixes k :: "'o kernel"
    and ftruncate :: "fd \<Rightarrow> nat \<Rightarrow> 'o \<Rightarrow> (errno + unit) \<times> 'o"
    and content :: "'o \<Rightarrow> fd \<Rightarrow> byte list option"
    and seals :: "'o \<Rightarrow> fd \<Rightarrow> u32"
  assumes creates: "memfd_create k name flags s = (Inr fd, s') \<Longrightarrow> flags AND MFD_ALLOW_SEALING \<noteq> 0 \<Longrightarrow>
      content s' fd = Some [] \<and> seals s' fd = 0"
    and writes: "write_all k fd bytes s = (Inr (), s') \<Longrightarrow> content s fd = Some old \<Longrightarrow>
      content s' fd = Some (old @ bytes) \<and> seals s' fd = seals s fd"
    and flushes: "flush k fd s = (Inr (), s') \<Longrightarrow> content s' fd = content s fd \<and> seals s' fd = seals s fd"
    and adds: "add_seals k fd m s = (r, s') \<Longrightarrow> content s' fd' = content s fd' \<and>
      seals s' fd' = (if fd' = fd \<and> r = Inr () then seals s fd' OR m else seals s fd')"
    and write_sealed: "write_all k fd bytes s = (r, s') \<Longrightarrow> seals s fd' AND F_SEAL_WRITE \<noteq> 0 \<Longrightarrow>
      content s' fd' = content s fd' \<and> seals s' fd' = seals s fd'"
    and truncate_sealed: "ftruncate fd n s = (r, s') \<Longrightarrow> seals s fd' AND F_SEAL_SHRINK \<noteq> 0 \<Longrightarrow>
      seals s fd' AND F_SEAL_GROW \<noteq> 0 \<Longrightarrow> content s' fd' = content s fd' \<and> seals s' fd' = seals s fd'"
begin

definition sealed_with :: "'o \<Rightarrow> fd \<Rightarrow> byte list \<Rightarrow> bool" where
  "sealed_with s fd bytes \<longleftrightarrow> content s fd = Some bytes \<and> seals s fd AND F_SEAL_WRITE \<noteq> 0 \<and>
     seals s fd AND F_SEAL_SHRINK \<noteq> 0 \<and> seals s fd AND F_SEAL_GROW \<noteq> 0"

lemma more_seals: "(a :: u32) AND m \<noteq> 0 \<Longrightarrow> (a OR b) AND m \<noteq> 0"
  by (auto simp: bit_eq_iff bit_simps)

lemma use_sealed: "sealed_with s fd bytes \<Longrightarrow> sealed_with (use_file k ftruncate u s) fd bytes"
proof (cases u)
  case (WriteBytes fd' b)
  obtain r s' where w: "write_all k fd' b s = (r, s')" by fastforce
  assume "sealed_with s fd bytes"
  with write_sealed [OF w] WriteBytes w show ?thesis by (simp add: sealed_with_def use_file_def)
next
  case (Truncate fd' n)
  obtain r s' where w: "ftruncate fd' n s = (r, s')" by fastforce
  assume "sealed_with s fd bytes"
  with truncate_sealed [OF w] Truncate w show ?thesis by (simp add: sealed_with_def use_file_def)
next
  case (AddSeals fd' m)
  obtain r s' where w: "add_seals k fd' m s = (r, s')" by fastforce
  assume "sealed_with s fd bytes"
  with adds [OF w] AddSeals w show ?thesis by (auto simp: sealed_with_def use_file_def more_seals)
qed

theorem uses_sealed: "sealed_with s fd bytes \<Longrightarrow> sealed_with (fold (use_file k ftruncate) us s) fd bytes"
  by (induction us arbitrary: s) (simp_all add: use_sealed)

lemma sealing_flags: "(bundle_flags OR MFD_EXEC) AND MFD_ALLOW_SEALING \<noteq> 0" "bundle_flags AND MFD_ALLOW_SEALING \<noteq> 0"
  by (simp_all add: bundle_flags_def MFD_CLOEXEC_def MFD_ALLOW_SEALING_def MFD_EXEC_def)

lemma created: "create_memfd k s = (Inr fd, s') \<Longrightarrow> content s' fd = Some [] \<and> seals s' fd = 0"
  using creates sealing_flags by (auto simp: create_memfd_def split: prod.splits sum.splits if_splits)

theorem prepared_sealed:
  assumes "prepare_bundle k bytes s = (Inr (fd, path), rel, s')"
  shows "sealed_with s' fd bytes \<and> seals s' fd = bundle_seals"
proof -
  obtain s1 s2 where c: "create_memfd k s = (Inr fd, s1)" and w: "write_bundle k fd bytes s1 = (Inr (), s2)"
    and a: "add_seals k fd bundle_seals s2 = (Inr (), s')"
    using assms by (rule prepare_bundle_Inr)
  obtain s3 where w3: "write_all k fd bytes s1 = (Inr (), s3)" "flush k fd s3 = (Inr (), s2)"
    using w by (auto simp: write_bundle_def split: prod.splits sum.splits)
  have "content s2 fd = Some bytes" "seals s2 fd = 0"
    using created [OF c] writes [OF w3(1), of "[]"] flushes [OF w3(2)] by simp_all
  with adds [OF a, of fd] have "content s' fd = Some bytes" "seals s' fd = bundle_seals" by simp_all
  then show ?thesis by (simp add: sealed_with_def F_SEAL_WRITE_def F_SEAL_SHRINK_def F_SEAL_GROW_def)
qed

end

section \<open>Memory files\<close>

record memory_file =
  mf_content :: "byte list"
  mf_seals :: u32

record memory_files =
  mm_files :: "fd \<Rightarrow> memory_file option"
  mm_next :: fd
  mm_knows_exec :: bool

definition mm_update :: "fd \<Rightarrow> (memory_file \<Rightarrow> errno + memory_file) \<Rightarrow> memory_files \<Rightarrow> (errno + unit) \<times> memory_files" where
  "mm_update fd f s =
     (case mm_files s fd of
        None \<Rightarrow> (Inl EBADF, s)
      | Some file \<Rightarrow>
          (case f file of
             Inl e \<Rightarrow> (Inl e, s)
           | Inr file' \<Rightarrow> (Inr (), s\<lparr>mm_files := (mm_files s)(fd \<mapsto> file')\<rparr>)))"

definition memory_kernel :: "memory_files kernel" where
  "memory_kernel = \<lparr>
     memfd_create = (\<lambda>name flags s.
       if flags AND MFD_EXEC \<noteq> 0 \<and> \<not> mm_knows_exec s then (Inl EINVAL, s)
       else (Inr (mm_next s), s\<lparr>mm_files := (mm_files s)(mm_next s \<mapsto>
           \<lparr>mf_content = [], mf_seals = (if flags AND MFD_ALLOW_SEALING \<noteq> 0 then 0 else F_SEAL_SEAL)\<rparr>),
         mm_next := mm_next s + 1\<rparr>)),
     write_all = (\<lambda>fd bytes. mm_update fd (\<lambda>file. if mf_seals file AND F_SEAL_WRITE \<noteq> 0 then Inl EPERM
       else Inr (file\<lparr>mf_content := mf_content file @ bytes\<rparr>))),
     flush = (\<lambda>fd s. (Inr (), s)),
     add_seals = (\<lambda>fd m. mm_update fd (\<lambda>file. if mf_seals file AND F_SEAL_SEAL \<noteq> 0 then Inl EPERM
       else Inr (file\<lparr>mf_seals := mf_seals file OR m\<rparr>))),
     os_error_text = (\<lambda>e. ''os error '' @ dec_nat e)\<rparr>"

definition mm_truncate :: "fd \<Rightarrow> nat \<Rightarrow> memory_files \<Rightarrow> (errno + unit) \<times> memory_files" where
  "mm_truncate fd n = mm_update fd (\<lambda>file.
     if n < length (mf_content file) \<and> mf_seals file AND F_SEAL_SHRINK \<noteq> 0 \<or>
        length (mf_content file) < n \<and> mf_seals file AND F_SEAL_GROW \<noteq> 0 then Inl EPERM
     else Inr (file\<lparr>mf_content := take n (mf_content file) @ replicate (n - length (mf_content file)) (CHR 0x00)\<rparr>))"

definition mm_content :: "memory_files \<Rightarrow> fd \<Rightarrow> byte list option" where
  "mm_content s fd = map_option mf_content (mm_files s fd)"

definition mm_seals :: "memory_files \<Rightarrow> fd \<Rightarrow> u32" where
  "mm_seals s fd = (case mm_files s fd of None \<Rightarrow> 0 | Some file \<Rightarrow> mf_seals file)"

lemmas mm_defs = memory_kernel_def mm_update_def mm_truncate_def mm_content_def mm_seals_def

interpretation memory: sealing_kernel memory_kernel mm_truncate mm_content mm_seals
proof
  fix name flags s fd s'
  assume "memfd_create memory_kernel name flags s = (Inr fd, s')" "flags AND MFD_ALLOW_SEALING \<noteq> 0"
  then show "mm_content s' fd = Some [] \<and> mm_seals s' fd = 0"
    by (auto simp: mm_defs split: if_splits)
next
  fix fd n s r s' fd'
  assume "mm_truncate fd n s = (r, s')" "mm_seals s fd' AND F_SEAL_SHRINK \<noteq> 0" "mm_seals s fd' AND F_SEAL_GROW \<noteq> 0"
  then show "mm_content s' fd' = mm_content s fd' \<and> mm_seals s' fd' = mm_seals s fd'"
    by (cases "mm_files s fd"; cases "n < length (mf_content (the (mm_files s fd)))"; cases "fd' = fd")
      (auto simp: mm_defs split: if_splits option.splits)
qed (auto simp: mm_defs split: if_splits option.splits sum.splits)

section \<open>Loading\<close>

text \<open>
  \<open>dlopen\<close> of a path below \<open>/proc/self/fd\<close>: the library that the file's bytes make, which is a
  parameter.
\<close>

definition memory_dlopen :: "(byte list \<Rightarrow> string + 'p library) \<Rightarrow> (memory_files, 'p) dlopen" where
  "memory_dlopen native path s =
     (case filter (\<lambda>fd. bundle_path fd = path) [0..<mm_next s] of
        [] \<Rightarrow> (Inl (path @ '': cannot open shared object file''), s)
      | fd # _ \<Rightarrow>
          (case mm_content s fd of
             None \<Rightarrow> (Inl (path @ '': cannot open shared object file''), s)
           | Some bytes \<Rightarrow> (native bytes, s)))"

lemma filter_path: "fd < n \<Longrightarrow> filter (\<lambda>fd'. bundle_path fd' = bundle_path fd) [0..<n] = [fd]"
proof (induction n)
  case (Suc n)
  have inj: "bundle_path a = bundle_path b \<longleftrightarrow> a = b" for a b by (simp add: bundle_path_def dec_nat_inject)
  show ?case
  proof (cases "fd = n")
    case True
    have "filter (\<lambda>fd'. bundle_path fd' = bundle_path fd) [0..<n] = []" by (simp add: filter_empty_conv inj True)
    then show ?thesis by (simp add: True)
  next
    case False
    with Suc show ?thesis by (simp add: inj)
  qed
qed simp

lemma memory_dlopen_reads:
  assumes "memory_dlopen native (bundle_path fd) s = (Inr lib, s')"
  shows "s' = s \<and> (\<exists>file. mm_content s fd = Some file \<and> native file = Inr lib)"
proof (cases "fd < mm_next s")
  case True
  with assms show ?thesis by (auto simp: memory_dlopen_def filter_path split: option.splits)
next
  case False
  have "filter (\<lambda>fd'. bundle_path fd' = bundle_path fd) [0..<mm_next s] = []"
    using False by (auto simp: filter_empty_conv bundle_path_def)
  with assms show ?thesis by (simp add: memory_dlopen_def)
qed

lemma mm_update_next: "mm_update fd f s = (r, s') \<Longrightarrow> mm_next s' = mm_next s"
  by (auto simp: mm_update_def split: option.splits sum.splits)

lemma memory_created: "create_memfd memory_kernel s = (Inr fd, s') \<Longrightarrow> fd < mm_next s'"
  by (auto simp: create_memfd_def memory_kernel_def split: prod.splits sum.splits if_splits)

lemma memory_prepared:
  assumes "prepare_bundle memory_kernel bytes s = (Inr (fd, path), rel, s')"
  shows "fd < mm_next s'" "mm_content s' fd = Some bytes" "mm_seals s' fd = bundle_seals" "path = bundle_path fd"
proof -
  obtain s1 s2 where c: "create_memfd memory_kernel s = (Inr fd, s1)" and w: "write_bundle memory_kernel fd bytes s1 = (Inr (), s2)"
    and a: "add_seals memory_kernel fd bundle_seals s2 = (Inr (), s')" and "path = bundle_path fd"
    using assms by (rule prepare_bundle_Inr)
  then show "path = bundle_path fd" by simp
  have "mm_next s2 = mm_next s1"
    using w by (auto simp: write_bundle_def memory_kernel_def dest: mm_update_next split: prod.splits sum.splits)
  moreover have "mm_next s' = mm_next s2" using a by (auto simp: memory_kernel_def dest: mm_update_next)
  ultimately show "fd < mm_next s'" using memory_created [OF c] by simp
qed (use memory.prepared_sealed [OF assms] in \<open>simp_all add: memory.sealed_with_def\<close>)

text \<open>On a kernel with sealing the file can always be prepared.\<close>

lemma no_exec_flag: "bundle_flags AND MFD_EXEC = 0"
  by (simp add: bundle_flags_def MFD_CLOEXEC_def MFD_ALLOW_SEALING_def MFD_EXEC_def)

lemma memory_prepares: "\<exists>fd path s'. prepare_bundle memory_kernel bytes s = (Inr (fd, path), [], s')"
  using memory.sealing_flags no_exec_flag
  by (auto simp: prepare_bundle_def create_memfd_def write_bundle_def memory_kernel_def mm_update_def)

text \<open>C32: On a kernel that seals memory files as documented, and with a loader that reads the file it
  is given, the library that is executed is made from exactly the bundled bytes, and stays so: the
  file it was loaded from carries all four seals, and no sequence of writes, truncations and
  changes of seals through any descriptor changes its bytes.\<close>

theorem bundled_bytes_are_loaded:
  assumes "sealing_kernel k ftruncate content seals"
    and "\<And>fd s lib s'. dlopen (bundle_path fd) s = (Inr lib, s') \<Longrightarrow>
      s' = s \<and> (\<exists>file. content s fd = Some file \<and> native file = Inr lib)"
    and "load_bundle k dlopen bytes s = (Inr (lib, fd), rel, s')"
  shows "native bytes = Inr lib \<and> seals s' fd = bundle_seals \<and>
    content (fold (use_file k ftruncate) uses s') fd = Some bytes"
proof -
  obtain s1 where p: "prepare_bundle k bytes s = (Inr (fd, bundle_path fd), [], s1)"
    and d: "dlopen (bundle_path fd) s1 = (Inr lib, s')"
    using assms(3) by (rule load_bundle_Inr)
  note sealed = sealing_kernel.prepared_sealed [OF assms(1) p]
  have "sealing_kernel.sealed_with content seals (fold (use_file k ftruncate) uses s1) fd bytes"
    using sealing_kernel.uses_sealed [OF assms(1)] sealed by blast
  with sealed assms(2) [OF d] show ?thesis by (auto simp: sealing_kernel.sealed_with_def [OF assms(1)])
qed

text \<open>The test \<open>bundled_memfd_is_sealed_and_loads_native_code\<close>, over the native code it loads.\<close>

definition bundled_memfd_is_sealed_and_loads_native_code ::
  "(byte list \<Rightarrow> string + 'p library) \<Rightarrow> byte list \<Rightarrow> memory_files \<Rightarrow> bool" where
  "bundled_memfd_is_sealed_and_loads_native_code native bytes s \<longleftrightarrow>
     (case load_bundle memory_kernel (memory_dlopen native) bytes s of
        (Inr (library, bundle), _, s') \<Rightarrow>
          Inr library = native bytes \<and>
          mm_seals s' bundle = F_SEAL_WRITE OR F_SEAL_GROW OR F_SEAL_SHRINK OR F_SEAL_SEAL \<and>
          fst (mm_truncate bundle 0 s') = Inl EPERM
      | _ \<Rightarrow> False)"

lemma memory_loads:
  assumes "native bytes = Inr lib"
  obtains fd s' where "load_bundle memory_kernel (memory_dlopen native) bytes s = (Inr (lib, fd), [], s')"
proof -
  obtain fd path s' where p: "prepare_bundle memory_kernel bytes s = (Inr (fd, path), [], s')"
    using memory_prepares by blast
  then have "memory_dlopen native path s' = (Inr lib, s')"
    using memory_prepared [OF p] assms by (simp add: memory_dlopen_def filter_path)
  with p that show thesis by (simp add: load_bundle_def)
qed

lemma memfd_test:
  assumes "native bytes = Inr lib" "bytes \<noteq> []"
  shows "bundled_memfd_is_sealed_and_loads_native_code native bytes s"
proof -
  obtain fd s' where l: "load_bundle memory_kernel (memory_dlopen native) bytes s = (Inr (lib, fd), [], s')"
    using assms(1) by (rule memory_loads)
  obtain s1 where p: "prepare_bundle memory_kernel bytes s = (Inr (fd, bundle_path fd), [], s1)"
    and "memory_dlopen native (bundle_path fd) s1 = (Inr lib, s')"
    using l by (rule load_bundle_Inr)
  then have "s' = s1" using memory_prepared [OF p] by (simp add: memory_dlopen_def filter_path assms(1))
  with memory_prepared [OF p] have "mm_content s' fd = Some bytes" "mm_seals s' fd = bundle_seals" by simp_all
  then have "fst (mm_truncate fd 0 s') = Inl EPERM"
    using assms(2) by (auto simp: mm_truncate_def mm_update_def mm_content_def mm_seals_def F_SEAL_SHRINK_def)
  with l assms(1) \<open>mm_seals s' fd = bundle_seals\<close> show ?thesis
    by (simp add: bundled_memfd_is_sealed_and_loads_native_code_def flip: bundle_seals_def)
qed

theorem bundled_bytes_are_loaded_witness:
  "\<exists>fd s'. load_bundle memory_kernel (memory_dlopen (\<lambda>_. Inr \<lparr>lib_id = 7, lib_api = (\<lambda>_. Inl ''no such symbol'') :: byte list \<Rightarrow> string + unit core_api option\<rparr>))
     ''elf'' \<lparr>mm_files = (\<lambda>_. None), mm_next = 3, mm_knows_exec = False\<rparr> =
     (Inr (\<lparr>lib_id = 7, lib_api = (\<lambda>_. Inl ''no such symbol'')\<rparr>, fd), [], s') \<and>
     mm_content (fold (use_file memory_kernel mm_truncate) [Truncate fd 0, WriteBytes fd ''evil''] s') fd = Some ''elf''"
proof -
  let ?lib = "\<lparr>lib_id = 7, lib_api = (\<lambda>_. Inl ''no such symbol'')\<rparr> :: unit library"
  let ?s = "\<lparr>mm_files = (\<lambda>_. None), mm_next = 3, mm_knows_exec = False\<rparr>" and ?native = "\<lambda>_ :: byte list. Inr ?lib :: string + unit library"
  obtain fd s' where l: "load_bundle memory_kernel (memory_dlopen ?native) ''elf'' ?s = (Inr (?lib, fd), [], s')"
    using memory_loads [of ?native "''elf''" ?lib ?s] by blast
  from bundled_bytes_are_loaded [OF memory.sealing_kernel_axioms memory_dlopen_reads this, where uses = "[Truncate fd 0, WriteBytes fd ''evil'']"] l
  show ?thesis by blast
qed

end
