(* ===== verification/Unit_Tests.thy ===== *)
theory Unit_Tests
  imports Table_Query Bundle_Seal
begin

text \<open>
  The unit tests of the extension's crates as truth values of the model: each definition is
  one test function (the modules \<open>tests\<close> of \<open>crates/duckflight-extension-abi/src/lib.rs\<close>,
  \<open>src/dynamic_core.rs\<close> and \<open>src/lib.rs\<close>), the conjunction of its assertions, and each lemma
  says that it passes; the mock provider's tests (\<open>test/mock_core/src/lib.rs\<close>) follow. What a
  test takes from the operating system (the error of a loader) is an argument. The test of the
  memory file is in \<open>Bundle_Seal\<close>, beside the kernel it needs.
\<close>

section \<open>The ABI crate\<close>

definition create_options_are_self_describing :: bool where
  "create_options_are_self_describing \<longleftrightarrow>
     (let options = create_options_new None None 16
      in unat (co_struct_size options) = size_of_create_options \<and>
         co_abi_version options = DUCKFLIGHT_CORE_ABI_V1 \<and>
         co_pool_size options = 16 \<and> co_reserved options = 0)"

definition status_and_protocol_values_are_stable :: bool where
  "status_and_protocol_values_are_stable \<longleftrightarrow>
     status_is_ok OK \<and> \<not> status_is_ok INTERNAL \<and>
     PGWIRE = 1 \<and> FLIGHT_SQL = 2 \<and> HTTP = 3 \<and> QUACK = 4"

lemma create_options_test: create_options_are_self_describing
  by (simp add: create_options_are_self_describing_def create_options_new_def size_of_create_options_def
      struct_bytes_def Let_def)

lemma stable_values_test: status_and_protocol_values_are_stable
  by (simp add: status_and_protocol_values_are_stable_def protocol_defs)

section \<open>The table functions\<close>

definition protocol_names_are_supported :: bool where
  "protocol_names_are_supported \<longleftrightarrow>
     protocol_parse ''postgresql'' = Inr PgWire \<and> protocol_parse ''flight'' = Inr FlightSql \<and>
     \<not> is_ok (protocol_parse ''flight_sql'') \<and> \<not> is_ok (protocol_parse ''adbc'') \<and>
     protocol_parse '' HTTP '' = Inr Http \<and> protocol_parse '' QuAcK '' = Inr Quack"

definition unavailable_core_is_safe_to_introspect :: bool where
  "unavailable_core_is_safe_to_introspect \<longleftrightarrow>
     (let core = unavailable_core ''not configured'' :: unit core_runtime
      in \<not> cs_loaded (rt_status core) \<and> fst (rt_snapshots core ()) = Inr [] \<and>
         \<not> is_ok (fst (rt_start core PgWire ''127.0.0.1:0'' '''' ())))"

definition server_snapshots_are_paginated_to_vector_capacity :: bool where
  "server_snapshots_are_paginated_to_vector_capacity \<longleftrightarrow>
     (let capacity = 2048; total = capacity * 2 + 17 in
      case (chunk_bounds total 0 capacity, chunk_bounds total capacity capacity, chunk_bounds total (capacity * 2) capacity) of
        (Some first, Some second, Some third) \<Rightarrow>
          first = (0, capacity) \<and> second = (capacity, capacity * 2) \<and> third = (capacity * 2, total) \<and>
          (\<forall>(a, b) \<in> set [first, second, third]. b - a \<le> capacity) \<and>
          chunk_bounds total total capacity = None
      | _ \<Rightarrow> False)"

lemma unavailable_core_test: unavailable_core_is_safe_to_introspect
  by (simp add: unavailable_core_is_safe_to_introspect_def is_ok_def)

lemma pagination_test: server_snapshots_are_paginated_to_vector_capacity
  by (simp add: server_snapshots_are_paginated_to_vector_capacity_def chunk_bounds_def saturating_add_def)

section \<open>The dynamic core\<close>

definition protocols_round_trip_through_the_abi :: bool where
  "protocols_round_trip_through_the_abi \<longleftrightarrow>
     list_all (\<lambda>p. protocol_name (abi_protocol p) = Inr (as_str p)) [PgWire, FlightSql, Http, Quack] \<and>
     \<not> is_ok (protocol_name 0) \<and> \<not> is_ok (protocol_name 5)"

lemma protocols_round_trip_test: protocols_round_trip_through_the_abi
  by (simp add: protocols_round_trip_through_the_abi_def protocol_name_def protocol_defs is_ok_def)

text \<open>The test's array is all of the enum, so it decides the round trip for every protocol.\<close>

lemma protocols_tested: "set [PgWire, FlightSql, Http, Quack] = UNIV"
  by (simp add: UNIV_enum enum_protocol_def)

lemma protocols_round_trip: "protocol_name (abi_protocol p) = Inr (as_str p)"
proof -
  have "\<forall>p \<in> set [PgWire, FlightSql, Http, Quack]. protocol_name (abi_protocol p) = Inr (as_str p)"
    using protocols_round_trip_test by (simp add: protocols_round_trip_through_the_abi_def)
  then show ?thesis unfolding protocols_tested by blast
qed

text \<open>The tests' own provider: it writes all of a message or nothing.\<close>

definition provider_report :: "bytes_v1 \<Rightarrow> status \<Rightarrow> output_buffer \<Rightarrow> status \<times> output_buffer" where
  "provider_report msg status output =
     (let output = output\<lparr>ob_required := Some (bv_len msg)\<rparr>
      in (status,
          if bv_len msg \<le> ob_capacity output \<and> bv_len msg \<noteq> 0
          then output\<lparr>ob_data := (case (bv_data msg, ob_data output) of
              (Some m, Some old) \<Rightarrow> Some (take (bv_len msg) m @ drop (bv_len msg) old)
            | _ \<Rightarrow> ob_data output)\<rparr>
          else output))"

text \<open>\<open>None\<close> is the panic of \<open>unwrap_err\<close>.\<close>

definition provider_error :: "string \<Rightarrow> status \<Rightarrow> string option" where
  "provider_error msg status =
     (case provider_report (bytes_from_utf8 msg) status (as_ffi error_buffer_new) of
        (status', output) \<Rightarrow>
          (case check_status status' (from_ffi error_buffer_new (Some output)) of
             Inl e \<Rightarrow> Some (error_text e)
           | Inr _ \<Rightarrow> None))"

lemma provider_error_fits:
  assumes "valid_utf8 m" "length m \<le> ERROR_CAPACITY" "m \<noteq> []" "\<not> status_is_ok status"
  shows "provider_error m status = Some m"
  using assms
  by (simp add: provider_error_def provider_report_def bytes_from_utf8_def as_ffi_def from_ffi_def
      check_status_def status_detail_def message_def error_buffer_new_def Let_def from_utf8_lossy_id)

text \<open>The letter e with an acute accent, and two Chinese characters, in UTF-8.\<close>

definition e_acute :: string where
  "e_acute = [CHR 0xC3, CHR 0xA9]"

definition dizhi :: string where
  "dizhi = [CHR 0xE5, CHR 0x9C, CHR 0xB0, CHR 0xE5, CHR 0x9D, CHR 0x80]"

lemma valid_e_acute: "valid_utf8 e_acute"
  by (simp add: e_acute_def valid_utf8_Cons utf8_step_defs is_cont_def)

lemma valid_dizhi: "valid_utf8 dizhi"
  by (simp add: dizhi_def valid_utf8_Cons utf8_step_defs is_cont_def second3_ok_def)

definition short_provider_diagnostic_preserves_utf8 :: bool where
  "short_provider_diagnostic_preserves_utf8 \<longleftrightarrow>
     (let text = ''cannot bind caf'' @ e_acute @ '': '' @ dizhi @ '' unavailable''
      in provider_error text INTERNAL = Some text)"

lemma short_diagnostic_test: short_provider_diagnostic_preserves_utf8
proof -
  have "valid_utf8 (''cannot bind caf'' @ e_acute @ '': '' @ dizhi @ '' unavailable'')"
    by (intro valid_utf8_append valid_e_acute valid_dizhi ascii_valid) simp_all
  then show ?thesis
    unfolding short_provider_diagnostic_preserves_utf8_def Let_def
    by (rule provider_error_fits) (simp_all add: e_acute_def dizhi_def ERROR_CAPACITY_def)
qed

definition provider_diagnostic_fits_exactly_at_utf8_boundary :: bool where
  "provider_diagnostic_fits_exactly_at_utf8_boundary \<longleftrightarrow>
     (let text = replicate (ERROR_CAPACITY - 2) CHR ''a'' @ e_acute
      in provider_error text INTERNAL = Some text)"

lemma valid_padding: "valid_utf8 (replicate n CHR ''a'' @ e_acute)"
  by (intro valid_utf8_append valid_e_acute ascii_valid) (simp add: ascii_def)

lemma exact_diagnostic_test: provider_diagnostic_fits_exactly_at_utf8_boundary
  unfolding provider_diagnostic_fits_exactly_at_utf8_boundary_def Let_def
  by (rule provider_error_fits [OF valid_padding]) (simp_all add: e_acute_def ERROR_CAPACITY_def)

definition empty_provider_diagnostic_uses_original_status :: bool where
  "empty_provider_diagnostic_uses_original_status \<longleftrightarrow>
     provider_error '''' NOT_FOUND = Some ''DuckFlight runtime failed with status 4''"

lemma status_four: "status_text NOT_FOUND = ''4''"
  by (simp add: status_text_def NOT_FOUND_def dec_int_def dec_nat.simps digit_char_def char_of_def bit_0)

lemma empty_diagnostic_test: empty_provider_diagnostic_uses_original_status
  by (simp add: empty_provider_diagnostic_uses_original_status_def provider_error_def provider_report_def
      bytes_from_utf8_def as_ffi_def from_ffi_def check_status_def status_detail_def message_def
      error_buffer_new_def Let_def status_four)

text \<open>A message one byte too long, over a buffer that already holds the given byte everywhere.\<close>

definition oversized_provider_diagnostic :: "byte \<Rightarrow> bool" where
  "oversized_provider_diagnostic unwritten \<longleftrightarrow>
     (let text = replicate (ERROR_CAPACITY - 1) CHR ''a'' @ e_acute;
          error = error_buffer_new\<lparr>eb_bytes := replicate ERROR_CAPACITY unwritten\<rparr>;
          (status, output) = provider_report (bytes_from_utf8 text) INVALID_ARGUMENT (as_ffi error);
          error = from_ffi error (Some output)
      in status = INVALID_ARGUMENT \<and> eb_bytes error = replicate ERROR_CAPACITY unwritten \<and>
         (case check_status status error of
            Inr _ \<Rightarrow> False
          | Inl e \<Rightarrow>
              error_text e = ''DuckFlight runtime failed with status 1; diagnostic requires 4097 bytes (buffer capacity 4096)'' \<and>
              is_ok (cstring_new (error_text e))))"

definition oversized_provider_diagnostic_preserves_status_without_reading_output :: bool where
  "oversized_provider_diagnostic_preserves_status_without_reading_output \<longleftrightarrow>
     list_all oversized_provider_diagnostic [CHR 0x00, CHR ''x'']"

lemma oversized_numbers:
  "status_text INVALID_ARGUMENT = ''1''" "dec_nat 4097 = ''4097''" "dec_nat 4096 = ''4096''"
  by (simp_all add: status_text_def INVALID_ARGUMENT_def dec_int_def dec_nat.simps digit_char_def char_of_def bit_0)

lemma oversized_diagnostic_holds: "oversized_provider_diagnostic unwritten"
proof -
  have "length (replicate (ERROR_CAPACITY - 1) CHR ''a'' @ e_acute) = 4097"
    by (simp only: length_append length_replicate) (simp add: e_acute_def ERROR_CAPACITY_def)
  then show ?thesis
    by (simp add: oversized_provider_diagnostic_def provider_report_def bytes_from_utf8_def as_ffi_def from_ffi_def
        check_status_def status_detail_def message_def error_buffer_new_def Let_def oversized_numbers
        del: length_append)
      (simp add: ERROR_CAPACITY_def oversized_numbers no_nul_def cstring_new_no_nul is_ok_def status_is_ok_values)
qed

lemma oversized_diagnostic_test: oversized_provider_diagnostic_preserves_status_without_reading_output
  by (simp add: oversized_provider_diagnostic_preserves_status_without_reading_output_def oversized_diagnostic_holds)

text \<open>The loader's error and the path are the operating system's.\<close>

definition external_loader_error_preserves_path_and_os_reason :: "string \<Rightarrow> string \<Rightarrow> bool" where
  "external_loader_error_preserves_path_and_os_reason path reason \<longleftrightarrow>
     (case load (\<lambda>_. Inl reason) path None None () of
        Some (Inl e, _, _) \<Rightarrow>
          error_text e = ''load configured runtime library '' @ from_utf8_lossy path @ '': '' @ reason
      | _ \<Rightarrow> False)"

lemma external_loader_test: "external_loader_error_preserves_path_and_os_reason path reason"
  by (simp add: external_loader_error_preserves_path_and_os_reason_def load_def)

fun split_once :: "string \<Rightarrow> string \<Rightarrow> (string \<times> string) option" where
  "split_once pattern [] = (if pattern = [] then Some ([], []) else None)"
| "split_once pattern (c # s) =
     (if take (length pattern) (c # s) = pattern then Some ([], drop (length pattern) (c # s))
      else map_option (apfst ((#) c)) (split_once pattern s))"

lemma split_once_colon: "CHR '':'' \<notin> set p \<Longrightarrow> split_once '': '' (p @ '': '' @ r) = Some (p, r)"
  by (induction p) auto

definition bundled_loader_error_preserves_os_reason ::
  "'o kernel \<Rightarrow> (string \<Rightarrow> 'o \<Rightarrow> string \<times> 'o) \<Rightarrow> 'o \<Rightarrow> bool" where
  "bundled_loader_error_preserves_os_reason k dlerror s \<longleftrightarrow>
     (case load_bundle k (\<lambda>path s. case dlerror path s of (e, s') \<Rightarrow> (Inl e :: string + unit library, s'))
             ''invalid native library'' s of
        (Inl e, _, _) \<Rightarrow>
          (case split_once '': '' (error_text e) of
             None \<Rightarrow> False
           | Some (_, reason) \<Rightarrow>
               take (length ''load bundled core from '') (error_text e) = ''load bundled core from '' \<and>
               reason \<noteq> [] \<and> CHR ''/'' \<in> set reason)
      | _ \<Rightarrow> False)"

text \<open>The loader's error names the image it failed on, so it holds a slash.\<close>

lemma bundled_loader_test:
  assumes "prepare_bundle k ''invalid native library'' s = (Inr (fd, path), rel, s1)"
    and "CHR ''/'' \<in> set (fst (dlerror path s1))"
  shows "bundled_loader_error_preserves_os_reason k dlerror s"
proof -
  obtain e s2 where e: "dlerror path s1 = (e, s2)" by fastforce
  have path: "path = bundle_path fd" using assms(1) by (auto elim: prepare_bundle_Inr)
  have digits: "CHR '':'' \<notin> set (dec_nat fd)" using dec_nat_digits [of fd] by (force simp: is_digit_def)
  have "ascii path" by (simp add: path bundle_path_def)
  then have lossy: "from_utf8_lossy path = path" by (intro from_utf8_lossy_id ascii_valid)
  let ?p = "''load bundled core from '' @ path"
  have "CHR '':'' \<notin> set ?p" using digits by (simp add: path bundle_path_def)
  from split_once_colon [OF this, of e] have "split_once '': '' (?p @ '': '' @ e) = Some (?p, e)" .
  then have "split_once '': '' (''load bundled core from '' @ path @ '': '' @ e) = Some (?p, e)" by simp
  then show ?thesis
    using assms e lossy
    by (auto simp: bundled_loader_error_preserves_os_reason_def load_bundle_def simp del: split_once.simps)
qed

definition rejects_truncated_api_before_forming_full_reference :: bool where
  "rejects_truncated_api_before_forming_full_reference \<longleftrightarrow>
     (let api = API_V1\<lparr>api_extent := 8, api_struct_size := 8, api_abi_version := DUCKFLIGHT_CORE_ABI_V1\<rparr>
      in case validate_api_table_header (Some api) of
           Some (Inl e) \<Rightarrow> error_text e = ''runtime v1 API table is truncated''
         | _ \<Rightarrow> False)"

lemma truncated_api_test: rejects_truncated_api_before_forming_full_reference
  by (simp add: rejects_truncated_api_before_forming_full_reference_def validate_api_table_header_def
      read_struct_size_def read_abi_version_def)

lemma protocol_names_test: protocol_names_are_supported
  unfolding protocol_names_are_supported_def by code_simp

section \<open>The mock provider\<close>

definition exposes_a_complete_v1_function_table :: bool where
  "exposes_a_complete_v1_function_table \<longleftrightarrow>
     (let api = API_V1 in
      api_abi_version api = DUCKFLIGHT_CORE_ABI_V1 \<and> unat (api_struct_size api) = size_of_core_api \<and>
      api_create api \<noteq> None \<and> api_destroy api \<noteq> None \<and> api_start api \<noteq> None \<and>
      api_stop api \<noteq> None \<and> api_list api \<noteq> None)"

lemma complete_table_test: exposes_a_complete_v1_function_table
  by (simp add: exposes_a_complete_v1_function_table_def API_V1_def size_of_core_api_def struct_bytes_def)

definition binds_ephemeral_addresses_deterministically :: bool where
  "binds_ephemeral_addresses_deterministically \<longleftrightarrow>
     bound_address PGWIRE ''0.0.0.0:0'' = Some ''127.0.0.1:15432'' \<and>
     bound_address FLIGHT_SQL ''0.0.0.0:0'' = Some ''127.0.0.1:15051''"

lemma ephemeral_addresses_test: binds_ephemeral_addresses_deterministically
  by (simp add: binds_ephemeral_addresses_deterministically_def bound_address_def ends_with_def protocol_defs)

end
