(* ===== verification/Server_Entry.thy ===== *)
theory Server_Entry
  imports Table_Query
begin

text \<open>
  The entry program of the server image (\<open>docker/server.c\<close>): it checks its environment, starts
  the DuckDB command line, and writes to its input a startup script that loads the extension,
  applies the settings, copies the operator's SQL, locks the configuration and then opens the
  listeners; after that it waits for the child or for a signal. A call that writes has an
  outcome: it completes, a signal handler runs during it and it may be cut short, or the pipe
  is broken. What the child and the operating system do is an argument.
\<close>

section \<open>The text of the script\<close>

definition c_quote :: string where "c_quote = [CHR 0x27]"
definition newline :: string where "newline = [CHR 0x0A]"

type_synonym variables = "string \<Rightarrow> string option"

definition env_value :: "variables \<Rightarrow> string \<Rightarrow> string" where
  "env_value getenv name = (case getenv name of None \<Rightarrow> '''' | Some v \<Rightarrow> v)"

text \<open>Each of these is the list of texts its calls write, one per call.\<close>

definition sql_string :: "string \<Rightarrow> string list" where
  "sql_string v = [c_quote] @ concat (map (\<lambda>c. (if [c] = c_quote then [c_quote] else []) @ [[c]]) v) @ [c_quote]"

definition setting :: "variables \<Rightarrow> string \<Rightarrow> string \<Rightarrow> string list" where
  "setting getenv variable name =
     (let v = env_value getenv variable in
      if v = [] then [] else [''set '' @ name @ ''=''] @ sql_string v @ ['';'' @ newline])"

definition listen_command :: "string \<Rightarrow> string \<Rightarrow> string \<Rightarrow> string \<Rightarrow> string list" where
  "listen_command protocol function address config =
     (if address = [] then []
      else [''select '' @ c_quote @ ''DuckFlight '' @ protocol @ '' listening on '' @ c_quote @
              '' || address from '' @ function @ ''('']
        @ sql_string address @ ['',''] @ sql_string config @ [('');'' @ newline)])"

definition load_text :: string where
  "load_text = ''load '' @ c_quote @ ''/opt/duckflight/duckflight.duckdb_extension'' @ c_quote @ '';'' @ newline @
     ''select case when loaded then '' @ c_quote @ ''DuckFlight core loaded'' @ c_quote @
     '' else error(detail) end from duckflight_core_status();'' @ newline"

definition lock_text :: string where
  "lock_text = ''set allowed_configs=['' @ c_quote @ ''TimeZone'' @ c_quote @ ''];'' @ newline @
     ''set enable_external_access=false;'' @ newline @ ''set lock_configuration=true;'' @ newline"

definition ready_text :: string where
  "ready_text = ''.print DuckFlight ready'' @ newline"

section \<open>The environment\<close>

text \<open>A startup file that could be opened: what reading yields, and whether it then fails.\<close>

record startup_sql =
  sf_content :: string
  sf_failed :: bool

record entry_files =
  readable_file :: "string \<Rightarrow> bool"
  open_file :: "string \<Rightarrow> startup_sql option"

record launch =
  lc_database :: string
  lc_config :: string
  lc_pg :: string
  lc_flight :: string
  lc_init :: "startup_sql option"

definition check_environment :: "variables \<Rightarrow> entry_files \<Rightarrow> string + launch" where
  "check_environment getenv files =
     (let database = env_value getenv ''DUCKFLIGHT_DATABASE'';
          config = env_value getenv ''DUCKFLIGHT_CONFIG'';
          pg = env_value getenv ''DUCKFLIGHT_PG_ADDRESS'';
          flight = env_value getenv ''DUCKFLIGHT_FLIGHT_ADDRESS'';
          init = env_value getenv ''DUCKFLIGHT_INIT_SQL''
      in if database = [] \<or> hd database = CHR ''-''
         then Inl (''DUCKFLIGHT_DATABASE must be a database path or :memory:'' @ newline)
         else if \<not> readable_file files config
         then Inl (''mount readable authentication/TLS config at '' @ config @ newline)
         else if pg = [] \<and> flight = []
         then Inl (''enable at least one listener address'' @ newline)
         else
         let init_sql = (if init = [] then None else open_file files init) in
         if init \<noteq> [] \<and> (\<not> readable_file files init \<or> init_sql = None)
         then Inl (''cannot read startup SQL at '' @ init @ newline)
         else Inr \<lparr>lc_database = database, lc_config = config, lc_pg = pg, lc_flight = flight, lc_init = init_sql\<rparr>)"

text \<open>The command line of the child, after the path of the program.\<close>

definition child_arguments :: "launch \<Rightarrow> string list" where
  "child_arguments launch = [''duckdb'', ''-unsigned'', ''-bail'', ''-noheader'', ''-list'', ''-init'', ''/dev/null'',
     lc_database launch]"

section \<open>Writing to the child\<close>

datatype write_outcome = Complete | Signalled nat | BrokenPipe

record pipe =
  pp_sent :: string
  pp_stopping :: bool
  pp_error :: bool
  pp_broken :: bool
  pp_outcomes :: "write_outcome list"

definition pipe_init :: "write_outcome list \<Rightarrow> pipe" where
  "pipe_init outcomes = \<lparr>pp_sent = [], pp_stopping = False, pp_error = False, pp_broken = False, pp_outcomes = outcomes\<rparr>"

text \<open>One call: whether it wrote all, and the pipe after it. Outcomes that ran out are complete.\<close>

definition put :: "string \<Rightarrow> pipe \<Rightarrow> bool \<times> pipe" where
  "put s p =
     (let outcome = (case pp_outcomes p of [] \<Rightarrow> Complete | x # _ \<Rightarrow> x);
          p = p\<lparr>pp_outcomes := tl (pp_outcomes p)\<rparr>;
          p = (case outcome of Signalled n \<Rightarrow> p\<lparr>pp_stopping := True\<rparr> | _ \<Rightarrow> p)
      in if pp_broken p \<or> outcome = BrokenPipe then (False, p\<lparr>pp_broken := True, pp_error := True\<rparr>)
         else case outcome of
             Signalled n \<Rightarrow>
               (length s \<le> n, p\<lparr>pp_sent := pp_sent p @ take n s, pp_error := pp_error p \<or> n < length s\<rparr>)
           | _ \<Rightarrow> (True, p\<lparr>pp_sent := pp_sent p @ s\<rparr>))"

definition puts :: "string list \<Rightarrow> pipe \<Rightarrow> pipe" where
  "puts ss p = foldl (\<lambda>p s. snd (put s p)) p ss"

definition unless_stopping :: "string list \<Rightarrow> pipe \<Rightarrow> pipe" where
  "unless_stopping ss p = (if pp_stopping p then p else puts ss p)"

text \<open>The buffers of a file, and their copy: whether reading reached the end, and the pipe.\<close>

function chunks :: "nat \<Rightarrow> string \<Rightarrow> string list" where
  "chunks n s = (if n = 0 \<or> s = [] then [] else take n s # chunks n (drop n s))"
  by auto
termination by (relation "measure (\<lambda>(n, s). length s)") auto

declare chunks.simps [simp del]

fun copy_startup :: "string list \<Rightarrow> pipe \<Rightarrow> bool \<times> pipe" where
  "copy_startup [] p = (\<not> pp_stopping p, p)"
| "copy_startup (buffer # rest) p =
     (if pp_stopping p then (False, p)
      else case put buffer p of
          (True, p) \<Rightarrow> copy_startup rest p
        | (False, p) \<Rightarrow> (False, p))"

text \<open>What is written before the lock; \<open>False\<close> when reading the startup file failed.\<close>

definition prepare :: "variables \<Rightarrow> launch \<Rightarrow> pipe \<Rightarrow> bool \<times> pipe" where
  "prepare getenv launch p =
     (let p = puts [load_text] p;
          p = puts (setting getenv ''DUCKFLIGHT_MEMORY_LIMIT'' ''memory_limit'') p;
          p = puts (setting getenv ''DUCKFLIGHT_THREADS'' ''threads'') p;
          p = puts (setting getenv ''DUCKFLIGHT_TEMP_DIRECTORY'' ''temp_directory'') p
      in case lc_init launch of
           None \<Rightarrow> (True, p)
         | Some file \<Rightarrow>
             (case copy_startup (chunks 4096 (sf_content file)) p of
                (ended, p) \<Rightarrow>
                  if ended \<and> sf_failed file then (False, p)
                  else (True, unless_stopping [newline @ '';'' @ newline] p)))"

definition lock_configuration :: "pipe \<Rightarrow> pipe" where
  "lock_configuration p = unless_stopping [lock_text] p"

definition open_listeners :: "launch \<Rightarrow> pipe \<Rightarrow> pipe" where
  "open_listeners launch p =
     (let p = unless_stopping (listen_command ''pgwire'' ''duckflight_pg_serve'' (lc_pg launch) (lc_config launch)) p;
          p = unless_stopping (listen_command ''flight'' ''duckflight_flight_serve'' (lc_flight launch) (lc_config launch)) p
      in unless_stopping [ready_text] p)"

section \<open>Waiting\<close>

datatype child_status = Exited "8 word" | KilledBy nat

definition exit_code :: "child_status \<Rightarrow> nat" where
  "exit_code status = (case status of Exited code \<Rightarrow> unat code | KilledBy sig \<Rightarrow> 128 + sig)"

datatype poll = Reaped child_status | Running | PollInterrupted | PollFailed
datatype signal = ChildSignal | TerminationSignal | SignalFailed

datatype supervision = Finished child_status | Interrupted | Failed

text \<open>The loop over what polling and \<open>sigwait\<close> answer; \<open>None\<close> while it still waits.\<close>

fun supervise :: "(poll \<times> signal) list \<Rightarrow> supervision option" where
  "supervise [] = None"
| "supervise ((poll, sig) # rest) =
     (case poll of
        Reaped status \<Rightarrow> Some (Finished status)
      | PollFailed \<Rightarrow> Some Failed
      | _ \<Rightarrow>
          (case sig of
             SignalFailed \<Rightarrow> Some Failed
           | ChildSignal \<Rightarrow> supervise rest
           | TerminationSignal \<Rightarrow> Some Interrupted))"

text \<open>Waiting for the child to end, over interruptions.\<close>

fun await_child :: "poll list \<Rightarrow> child_status option option" where
  "await_child [] = None"
| "await_child (poll # rest) =
     (case poll of Reaped status \<Rightarrow> Some (Some status) | PollFailed \<Rightarrow> Some None | _ \<Rightarrow> await_child rest)"

section \<open>The program\<close>

record entry_os =
  os_mask :: bool
  os_pipe :: bool
  os_fork :: bool
  os_stream :: bool
  os_writes :: "write_outcome list"
  os_waits :: "(poll \<times> signal) list"
  os_last :: "poll list"

text \<open>
  What is left to see: the exit code (\<open>None\<close> while the program waits), what was written to the
  child, and whether it was sent SIGINT.
\<close>

record entry_result =
  er_code :: "nat option"
  er_sent :: string
  er_interrupted :: bool

definition shut_down :: "poll list \<Rightarrow> bool \<Rightarrow> pipe \<Rightarrow> entry_result" where
  "shut_down polls interrupted p =
     (let p = snd (put (''.quit'' @ newline) p)
      in \<lparr>er_code = map_option (\<lambda>r. case r of None \<Rightarrow> 1 | Some status \<Rightarrow> exit_code status) (await_child polls),
          er_sent = pp_sent p, er_interrupted = interrupted\<rparr>)"

text \<open>One call of \<open>waitpid\<close>, whatever it returns.\<close>

definition give_up :: "poll list \<Rightarrow> pipe \<Rightarrow> entry_result" where
  "give_up polls p =
     \<lparr>er_code = (if polls = [] then None else Some 1), er_sent = pp_sent p, er_interrupted = pp_stopping p\<rparr>"

definition run_child :: "variables \<Rightarrow> launch \<Rightarrow> entry_os \<Rightarrow> entry_result" where
  "run_child getenv launch os =
     (case prepare getenv launch (pipe_init (os_writes os)) of
        (False, p) \<Rightarrow> give_up (os_last os) p
      | (True, p) \<Rightarrow>
          (let p = open_listeners launch (lock_configuration p) in
           if pp_stopping p \<or> pp_error p then shut_down (os_last os) (pp_stopping p) p
           else case supervise (os_waits os) of
               None \<Rightarrow> \<lparr>er_code = None, er_sent = pp_sent p, er_interrupted = False\<rparr>
             | Some (Finished status) \<Rightarrow> \<lparr>er_code = Some (exit_code status), er_sent = pp_sent p, er_interrupted = False\<rparr>
             | Some Failed \<Rightarrow> \<lparr>er_code = Some 1, er_sent = pp_sent p, er_interrupted = False\<rparr>
             | Some Interrupted \<Rightarrow> shut_down (os_last os) True p))"

definition entry_main :: "variables \<Rightarrow> entry_files \<Rightarrow> entry_os \<Rightarrow> entry_result" where
  "entry_main getenv files os =
     (let fails = \<lparr>er_code = Some 1, er_sent = [], er_interrupted = False\<rparr> in
      case check_environment getenv files of
        Inl error \<Rightarrow> fails
      | Inr launch \<Rightarrow>
          if \<not> os_mask os \<or> \<not> os_pipe os \<or> \<not> os_fork os then fails
          else if \<not> os_stream os then give_up (os_last os) (pipe_init [])
          else run_child getenv launch os)"

end
