(* ===== verification/Entry_Properties.thy ===== *)
theory Entry_Properties
  imports Server_Entry "HOL-Library.Sublist"
begin

text \<open>
  What the entry program promises: its quoting leaves no way out of a literal, so the
  listeners' commands carry exactly the configured strings to the extension's functions; the
  configuration is locked before either of them is written, wherever a signal or a broken
  pipe cuts the script; undisturbed it writes one fixed script; and it reports success only
  when the child did.
\<close>

section \<open>String literals\<close>

text \<open>How a SQL string literal is read: a doubled quote is one quote, a single one ends it.\<close>

fun literal_body :: "string \<Rightarrow> (string \<times> string) option" where
  "literal_body [] = None"
| "literal_body (c # s) =
     (if [c] = c_quote
      then if take 1 s = c_quote then map_option (apfst ((#) c)) (literal_body (drop 1 s)) else Some ([], s)
      else map_option (apfst ((#) c)) (literal_body s))"

definition sql_literal :: "string \<Rightarrow> (string \<times> string) option" where
  "sql_literal s = (if take 1 s = c_quote then literal_body (drop 1 s) else None)"

lemma literal_body_quoted:
  assumes "take 1 rest \<noteq> c_quote"
  shows "literal_body (concat (concat (map (\<lambda>c. (if [c] = c_quote then [c_quote] else []) @ [[c]]) v)) @ c_quote @ rest) =
    Some (v, rest)"
  using assms by (induction v) (auto simp: c_quote_def)

lemma sql_literal_string:
  assumes "take 1 rest \<noteq> c_quote"
  shows "sql_literal (concat (sql_string v) @ rest) = Some (v, rest)"
  using literal_body_quoted [OF assms, of v] by (simp add: sql_literal_def sql_string_def c_quote_def)

section \<open>The pipe\<close>

lemma put_broken: "pp_broken p \<Longrightarrow> pp_broken (snd (put s p)) \<and> pp_sent (snd (put s p)) = pp_sent p"
  by (simp add: put_def Let_def split: write_outcome.splits list.splits)

lemma puts_broken: "pp_broken p \<Longrightarrow> pp_broken (puts ss p) \<and> pp_sent (puts ss p) = pp_sent p"
  unfolding puts_def by (induction ss arbitrary: p) (simp_all add: put_broken)

lemma unless_stopping_mute:
  "pp_stopping p \<or> pp_broken p \<Longrightarrow>
     (pp_stopping (unless_stopping ss p) \<or> pp_broken (unless_stopping ss p)) \<and> pp_sent (unless_stopping ss p) = pp_sent p"
  using puts_broken [of p ss] by (auto simp: unless_stopping_def)

lemma open_listeners_mute:
  "pp_stopping p \<or> pp_broken p \<Longrightarrow> pp_sent (open_listeners launch p) = pp_sent p"
  by (simp add: open_listeners_def Let_def unless_stopping_mute)

text \<open>One call either completes, or it is cut and the program stops or the pipe is broken.\<close>

lemma put_cases:
  obtains (all) "pp_sent (snd (put s p)) = pp_sent p @ s"
  | (cut) n where "pp_sent (snd (put s p)) = pp_sent p @ take n s" "pp_stopping (snd (put s p)) \<or> pp_broken (snd (put s p))"
proof (cases "pp_sent (snd (put s p)) = pp_sent p @ s")
  case False
  define outcome where "outcome = (case pp_outcomes p of [] \<Rightarrow> Complete | x # _ \<Rightarrow> x)"
  have "\<exists>n. pp_sent (snd (put s p)) = pp_sent p @ take n s \<and> (pp_stopping (snd (put s p)) \<or> pp_broken (snd (put s p)))"
  proof (cases "pp_broken p \<or> outcome = BrokenPipe")
    case True
    then show ?thesis by (intro exI [of _ 0]) (auto simp: put_def Let_def outcome_def split: write_outcome.splits)
  next
    case no: False
    with False obtain n where "outcome = Signalled n"
      by (cases outcome) (auto simp: put_def Let_def outcome_def)
    with no show ?thesis by (intro exI [of _ n]) (auto simp: put_def Let_def outcome_def)
  qed
  with cut show thesis by blast
qed (rule all)

lemma put_grows: "prefix (pp_sent p) (pp_sent (snd (put s p)))"
  by (rule put_cases [of s p]) simp_all

lemma puts_grows: "prefix (pp_sent p) (pp_sent (puts ss p))"
  unfolding puts_def
proof (induction ss arbitrary: p)
  case (Cons s ss)
  show ?case using prefix_order.order_trans [OF put_grows Cons.IH] by simp
qed simp

lemma unless_stopping_grows: "prefix (pp_sent p) (pp_sent (unless_stopping ss p))"
  by (simp add: unless_stopping_def puts_grows)

lemma open_listeners_grows: "prefix (pp_sent p) (pp_sent (open_listeners launch p))"
  unfolding open_listeners_def Let_def
  using prefix_order.order_trans [OF unless_stopping_grows prefix_order.order_trans [OF unless_stopping_grows unless_stopping_grows]]
  by blast

lemma locked_first:
  "\<exists>n rest. pp_sent (open_listeners launch (lock_configuration p)) = pp_sent p @ take n lock_text @ rest \<and>
     (rest = [] \<or> length lock_text \<le> n)"
proof (cases "pp_stopping p")
  case True
  then have "pp_sent (open_listeners launch (lock_configuration p)) = pp_sent p"
    by (simp add: lock_configuration_def unless_stopping_def open_listeners_mute)
  then show ?thesis by (intro exI [of _ 0] exI [of _ "[]"]) simp
next
  case False
  let ?q = "snd (put lock_text p)"
  from False have q: "lock_configuration p = ?q" by (simp add: lock_configuration_def unless_stopping_def puts_def)
  show ?thesis
  proof (cases rule: put_cases [of lock_text p])
    case all
    obtain rest where "pp_sent (open_listeners launch ?q) = pp_sent ?q @ rest"
      using open_listeners_grows by (rule prefixE)
    with all q show ?thesis by (intro exI [of _ "length lock_text"] exI [of _ rest]) simp
  next
    case (cut n)
    then have "pp_sent (open_listeners launch ?q) = pp_sent ?q" by (intro open_listeners_mute)
    with cut q show ?thesis by (intro exI [of _ n] exI [of _ "[]"]) simp
  qed
qed

lemma shut_down_sent:
  "\<exists>n. er_sent (shut_down polls b p) = pp_sent p @ take n (''.quit'' @ newline)"
proof (cases rule: put_cases [of "''.quit'' @ newline" p])
  case all
  then show ?thesis by (intro exI [of _ "length (''.quit'' @ newline)"]) (simp add: shut_down_def Let_def)
next
  case (cut n)
  then show ?thesis by (intro exI [of _ n]) (simp add: shut_down_def Let_def)
qed

section \<open>An undisturbed script\<close>

definition undisturbed :: "pipe \<Rightarrow> bool" where
  "undisturbed p \<longleftrightarrow> \<not> pp_stopping p \<and> \<not> pp_error p \<and> \<not> pp_broken p \<and> set (pp_outcomes p) \<subseteq> {Complete}"

definition sends :: "pipe \<Rightarrow> string \<Rightarrow> pipe \<Rightarrow> bool" where
  "sends p s p' \<longleftrightarrow> undisturbed p \<longrightarrow> undisturbed p' \<and> pp_sent p' = pp_sent p @ s"

lemma sends_refl [simp]: "sends p [] p"
  by (simp add: sends_def)

lemma sends_trans: "sends p s p1 \<Longrightarrow> sends p1 t p2 \<Longrightarrow> sends p (s @ t) p2"
  by (simp add: sends_def)

lemma put_undisturbed: "undisturbed p \<Longrightarrow> put s p = (True, p\<lparr>pp_sent := pp_sent p @ s, pp_outcomes := tl (pp_outcomes p)\<rparr>)"
  by (cases "pp_outcomes p") (auto simp: put_def undisturbed_def Let_def)

lemma undisturbed_next: "undisturbed p \<Longrightarrow> undisturbed (p\<lparr>pp_sent := x, pp_outcomes := tl (pp_outcomes p)\<rparr>)"
  by (cases "pp_outcomes p") (simp_all add: undisturbed_def)

lemma sends_put: "sends p s (snd (put s p))"
  by (simp add: sends_def put_undisturbed undisturbed_next)

lemma sends_puts: "sends p (concat ss) (puts ss p)"
  unfolding puts_def
proof (induction ss arbitrary: p)
  case (Cons s ss)
  show ?case using sends_trans [OF sends_put Cons.IH] by simp
qed simp

lemma sends_unless_stopping: "sends p (concat ss) (unless_stopping ss p)"
  using sends_puts [of p ss] by (auto simp: unless_stopping_def sends_def undisturbed_def)

lemma concat_chunks: "0 < n \<Longrightarrow> concat (chunks n s) = s"
  by (induction n s rule: chunks.induct) (subst chunks.simps, simp)

lemma copy_undisturbed:
  "undisturbed p \<Longrightarrow> \<exists>p'. copy_startup bs p = (True, p') \<and> undisturbed p' \<and> pp_sent p' = pp_sent p @ concat bs"
proof (induction bs arbitrary: p)
  case (Cons b bs)
  then have "\<not> pp_stopping p" by (simp add: undisturbed_def)
  with Cons.IH [OF undisturbed_next [OF Cons.prems], of "pp_sent p @ b"] show ?case
    by (simp add: put_undisturbed [OF Cons.prems])
qed (simp add: undisturbed_def)

text \<open>The reference: the whole script as one text.\<close>

definition settings_script :: "variables \<Rightarrow> string" where
  "settings_script getenv =
     concat (setting getenv ''DUCKFLIGHT_MEMORY_LIMIT'' ''memory_limit'') @
     concat (setting getenv ''DUCKFLIGHT_THREADS'' ''threads'') @
     concat (setting getenv ''DUCKFLIGHT_TEMP_DIRECTORY'' ''temp_directory'')"

definition entry_script :: "variables \<Rightarrow> launch \<Rightarrow> string" where
  "entry_script getenv launch = load_text @ settings_script getenv @
     (case lc_init launch of None \<Rightarrow> [] | Some file \<Rightarrow> sf_content file @ newline @ '';'' @ newline) @ lock_text @
     concat (listen_command ''pgwire'' ''duckflight_pg_serve'' (lc_pg launch) (lc_config launch)) @
     concat (listen_command ''flight'' ''duckflight_flight_serve'' (lc_flight launch) (lc_config launch)) @ ready_text"

definition init_readable :: "launch \<Rightarrow> bool" where
  "init_readable launch = (case lc_init launch of None \<Rightarrow> True | Some file \<Rightarrow> \<not> sf_failed file)"

lemma prepare_undisturbed:
  assumes "undisturbed p" "init_readable launch"
  obtains p' where "prepare getenv launch p = (True, p')" "undisturbed p'"
    "pp_sent p' = pp_sent p @ load_text @ settings_script getenv @
       (case lc_init launch of None \<Rightarrow> [] | Some file \<Rightarrow> sf_content file @ newline @ '';'' @ newline)"
proof -
  let ?p1 = "puts (setting getenv ''DUCKFLIGHT_TEMP_DIRECTORY'' ''temp_directory'')
    (puts (setting getenv ''DUCKFLIGHT_THREADS'' ''threads'')
      (puts (setting getenv ''DUCKFLIGHT_MEMORY_LIMIT'' ''memory_limit'') (puts [load_text] p)))"
  have "sends p (((load_text @ concat (setting getenv ''DUCKFLIGHT_MEMORY_LIMIT'' ''memory_limit'')) @
      concat (setting getenv ''DUCKFLIGHT_THREADS'' ''threads'')) @
      concat (setting getenv ''DUCKFLIGHT_TEMP_DIRECTORY'' ''temp_directory'')) ?p1"
    using sends_puts [of p "[load_text]"] by (intro sends_trans [OF _ sends_puts]) simp
  with assms(1) have p1: "undisturbed ?p1" "pp_sent ?p1 = pp_sent p @ load_text @ settings_script getenv"
    by (simp_all add: sends_def settings_script_def)
  show thesis
  proof (cases "lc_init launch")
    case None
    with p1 show thesis by (intro that [of ?p1]) (simp_all add: prepare_def Let_def)
  next
    case (Some script)
    from copy_undisturbed [OF p1(1), of "chunks 4096 (sf_content script)"] obtain p2 where p2: "copy_startup (chunks 4096 (sf_content script)) ?p1 = (True, p2)"
      "undisturbed p2" "pp_sent p2 = pp_sent ?p1 @ sf_content script"
      by (auto simp: concat_chunks)
    have "sends p2 (newline @ '';'' @ newline) (unless_stopping [newline @ '';'' @ newline] p2)"
      using sends_unless_stopping [of p2 "[newline @ '';'' @ newline]"] by simp
    with p1 p2 Some assms(2) show thesis
      by (intro that [of "unless_stopping [newline @ '';'' @ newline] p2"])
        (simp_all add: prepare_def Let_def init_readable_def sends_def)
  qed
qed

lemma script_undisturbed:
  assumes "undisturbed p" "init_readable launch"
  obtains p1 where "prepare getenv launch p = (True, p1)" "undisturbed (open_listeners launch (lock_configuration p1))"
    "pp_sent (open_listeners launch (lock_configuration p1)) = pp_sent p @ entry_script getenv launch"
proof -
  obtain p1 where p1: "prepare getenv launch p = (True, p1)" "undisturbed p1"
    "pp_sent p1 = pp_sent p @ load_text @ settings_script getenv @
       (case lc_init launch of None \<Rightarrow> [] | Some file \<Rightarrow> sf_content file @ newline @ '';'' @ newline)"
    using assms by (rule prepare_undisturbed)
  let ?pg = "listen_command ''pgwire'' ''duckflight_pg_serve'' (lc_pg launch) (lc_config launch)"
  let ?flight = "listen_command ''flight'' ''duckflight_flight_serve'' (lc_flight launch) (lc_config launch)"
  have "sends p1 (((concat [lock_text] @ concat ?pg) @ concat ?flight) @ concat [ready_text])
      (open_listeners launch (lock_configuration p1))"
    unfolding open_listeners_def lock_configuration_def Let_def
    by (intro sends_trans [OF _ sends_unless_stopping]) (rule sends_unless_stopping)
  with p1 show thesis by (intro that [OF p1(1)]) (simp_all add: sends_def entry_script_def)
qed

section \<open>Properties\<close>

text \<open>C14: A listener's command cannot be escaped: whatever the configured strings hold, a reader of
  SQL literals finds in its two arguments exactly the address and the configuration file, and
  nothing but the end of the statement after them; and the function it names is the extension's
  for that protocol, called with these two strings.\<close>

theorem listen_command_round_trip:
  assumes "address \<noteq> []"
    and "(name, protocol) \<in> set [(''duckflight_pg_serve'', PgWire), (''duckflight_flight_serve'', FlightSql)]"
  shows "\<exists>head arguments more. concat (listen_command label name address config) = head @ name @ ''('' @ arguments \<and>
    sql_literal arguments = Some (address, '','' @ more) \<and> sql_literal more = Some (config, '');'' @ newline) \<and>
    sql_query fuel cap table_functions core name [address, config] s =
      run_function fuel cap core (ServeFunction protocol) [address, config] s"
proof -
  let ?more = "concat (sql_string config) @ '');'' @ newline"
  let ?head = "''select '' @ c_quote @ ''DuckFlight '' @ label @ '' listening on '' @ c_quote @ '' || address from ''"
  have "concat (listen_command label name address config) =
      ?head @ name @ ''('' @ (concat (sql_string address) @ '','' @ ?more)"
    using assms(1) by (simp add: listen_command_def)
  moreover have "sql_literal (concat (sql_string address) @ '','' @ ?more) = Some (address, '','' @ ?more)"
    by (rule sql_literal_string) (simp add: c_quote_def)
  moreover have "sql_literal ?more = Some (config, '');'' @ newline)"
    by (rule sql_literal_string) (simp add: c_quote_def)
  moreover have "sql_query fuel cap table_functions core name [address, config] s =
      run_function fuel cap core (ServeFunction protocol) [address, config] s"
    using assms(2) map_of_serve_name [of protocol] by (auto simp: sql_query_def serve_name_def)
  ultimately show ?thesis by blast
qed

theorem listen_command_round_trip_witness:
  "\<exists>head arguments more. concat (listen_command ''pgwire'' ''duckflight_pg_serve'' ''0.0.0.0:5432'' (''/etc/it'' @ c_quote @ ''s'')) =
     head @ ''duckflight_pg_serve'' @ ''('' @ arguments \<and>
     sql_literal arguments = Some (''0.0.0.0:5432'', '','' @ more) \<and>
     sql_literal more = Some (''/etc/it'' @ c_quote @ ''s'', '');'' @ newline)"
proof -
  let ?address = "''0.0.0.0:5432''" and ?name = "''duckflight_pg_serve''" and ?config = "''/etc/it'' @ c_quote @ ''s''"
  have "?address \<noteq> []" "(?name, PgWire) \<in> set [(''duckflight_pg_serve'', PgWire), (''duckflight_flight_serve'', FlightSql)]"
    by simp_all
  from listen_command_round_trip [OF this, of "''pgwire''" ?config 0 0 "unavailable_core ''d''" "()"]
  show ?thesis by (elim exE conjE) (intro exI conjI)
qed

text \<open>C13: The configuration is locked before any listener is opened: wherever a signal or a broken
  pipe cuts the script, whatever the child has been sent after the preparations is a part of the
  locking commands, or all of them followed by the rest; apart from the final request to quit.\<close>

theorem locks_before_listening:
  assumes "prepare getenv launch (pipe_init (os_writes os)) = (True, p)"
  shows "\<exists>n rest m. er_sent (run_child getenv launch os) =
    pp_sent p @ take n lock_text @ rest @ take m (''.quit'' @ newline) \<and> (rest = [] \<or> length lock_text \<le> n)"
proof -
  let ?p = "open_listeners launch (lock_configuration p)"
  obtain n rest where r: "pp_sent ?p = pp_sent p @ take n lock_text @ rest" "rest = [] \<or> length lock_text \<le> n"
    using locked_first by blast
  have "\<exists>m. er_sent (run_child getenv launch os) = pp_sent ?p @ take m (''.quit'' @ newline)"
    using shut_down_sent [of "os_last os" _ ?p] exI [of "\<lambda>m. [] = take m (''.quit'' @ newline)" 0]
    by (auto simp: run_child_def assms Let_def split: option.splits supervision.splits)
  with r show ?thesis by (metis append.assoc)
qed

text \<open>C35: When nothing disturbs it the entry program writes its script, as one text in this order:
  load, settings, the operator's SQL and a terminator, the lock, the listeners, and ready. Only a
  signal that ends it adds to that: the child is interrupted and asked to quit.\<close>

theorem entry_script_written:
  assumes "set (os_writes os) \<subseteq> {Complete}" "init_readable launch"
  shows "er_sent (run_child getenv launch os) =
      entry_script getenv launch @ (if supervise (os_waits os) = Some Interrupted then ''.quit'' @ newline else []) \<and>
    (er_interrupted (run_child getenv launch os) \<longleftrightarrow> supervise (os_waits os) = Some Interrupted)"
proof -
  have "undisturbed (pipe_init (os_writes os))" using assms(1) by (simp add: undisturbed_def pipe_init_def)
  then obtain p1 where p1: "prepare getenv launch (pipe_init (os_writes os)) = (True, p1)"
    "undisturbed (open_listeners launch (lock_configuration p1))"
    "pp_sent (open_listeners launch (lock_configuration p1)) = pp_sent (pipe_init (os_writes os)) @ entry_script getenv launch"
    using assms(2) by (rule script_undisturbed)
  then have s: "pp_sent (open_listeners launch (lock_configuration p1)) = entry_script getenv launch"
    by (simp add: pipe_init_def)
  have quit: "er_sent (shut_down polls b p) = pp_sent p @ ''.quit'' @ newline \<and> er_interrupted (shut_down polls b p) = b"
    if "undisturbed p" for polls b p
    using that by (simp add: shut_down_def put_undisturbed)
  show ?thesis
    using p1(1,2) s quit [OF p1(2)]
    by (auto simp: run_child_def Let_def undisturbed_def split: option.splits supervision.splits)
qed

text \<open>The concrete program at which the theorems are applied.\<close>

definition entry_fixture :: launch where
  "entry_fixture = \<lparr>lc_database = '':memory:'', lc_config = ''/etc/duckflight'', lc_pg = ''0.0.0.0:5432'',
     lc_flight = [], lc_init = Some \<lparr>sf_content = ''select 1'', sf_failed = False\<rparr>\<rparr>"

definition os_fixture :: "write_outcome list \<Rightarrow> signal \<Rightarrow> entry_os" where
  "os_fixture writes sig = \<lparr>os_mask = True, os_pipe = True, os_fork = True, os_stream = True, os_writes = writes,
     os_waits = [(Running, ChildSignal), (Running, sig)], os_last = [PollInterrupted, Reaped (Exited 0)]\<rparr>"

definition files_fixture :: entry_files where
  "files_fixture = \<lparr>readable_file = (\<lambda>_. True), open_file = (\<lambda>_. Some \<lparr>sf_content = ''select 1'', sf_failed = False\<rparr>)\<rparr>"

definition variables_fixture :: variables where
  "variables_fixture = map_of [(''DUCKFLIGHT_DATABASE'', '':memory:''), (''DUCKFLIGHT_CONFIG'', ''/etc/duckflight''),
     (''DUCKFLIGHT_PG_ADDRESS'', ''0.0.0.0:5432''), (''DUCKFLIGHT_INIT_SQL'', ''/init.sql'')]"

lemma entry_fixture_checked: "check_environment variables_fixture files_fixture = Inr entry_fixture"
  by (simp add: check_environment_def env_value_def variables_fixture_def files_fixture_def entry_fixture_def)

lemma readable_fixture: "init_readable entry_fixture"
  by (simp add: init_readable_def entry_fixture_def)

theorem entry_script_written_witness:
  "er_sent (run_child variables_fixture entry_fixture (os_fixture [] TerminationSignal)) =
     entry_script variables_fixture entry_fixture @ ''.quit'' @ newline"
proof -
  have "set (os_writes (os_fixture [] TerminationSignal)) \<subseteq> {Complete}" by (simp add: os_fixture_def)
  from entry_script_written [OF this readable_fixture, of variables_fixture] show ?thesis by (simp add: os_fixture_def)
qed

theorem locks_before_listening_witness:
  "\<exists>p n rest m. prepare variables_fixture entry_fixture (pipe_init []) = (True, p) \<and>
     er_sent (run_child variables_fixture entry_fixture (os_fixture [] ChildSignal)) =
       pp_sent p @ take n lock_text @ rest @ take m (''.quit'' @ newline)"
proof -
  have "undisturbed (pipe_init [])" by (simp add: undisturbed_def pipe_init_def)
  then obtain p where p: "prepare variables_fixture entry_fixture (pipe_init []) = (True, p)"
    using readable_fixture by (rule prepare_undisturbed)
  then have "prepare variables_fixture entry_fixture (pipe_init (os_writes (os_fixture [] ChildSignal))) = (True, p)"
    by (simp add: os_fixture_def)
  from locks_before_listening [OF this] p show ?thesis by blast
qed

text \<open>C36: The entry program reports success only when the child did: an exit code of zero is that of
  a child which was waited for and had exited with zero.\<close>

theorem success_is_the_childs:
  assumes "er_code (entry_main getenv files os) = Some 0"
  shows "Reaped (Exited 0) \<in> fst ` set (os_waits os) \<union> set (os_last os)"
proof -
  have zero: "status = Exited 0" if "exit_code status = 0" for status
    using that by (cases status) (simp_all add: exit_code_def unat_eq_0)
  have await: "Reaped status \<in> set polls" if "await_child polls = Some (Some status)" for polls status
    using that by (induction polls) (auto split: poll.splits)
  have sup: "Reaped status \<in> fst ` set waits" if "supervise waits = Some (Finished status)" for waits status
    using that by (induction waits rule: supervise.induct) (auto split: poll.splits signal.splits)
  have down: "Reaped (Exited 0) \<in> set polls" if "er_code (shut_down polls b p) = Some 0" for polls b p
    using that zero await [of polls] by (auto simp: shut_down_def Let_def split: option.splits)
  have "Reaped (Exited 0) \<in> fst ` set (os_waits os) \<union> set (os_last os)"
    if "er_code (run_child getenv launch os) = Some 0" for launch
    using that zero sup [of "os_waits os"] down
    by (auto simp: run_child_def give_up_def Let_def split: prod.splits bool.splits if_splits option.splits supervision.splits)
  with assms show ?thesis
    by (auto simp: entry_main_def give_up_def Let_def split: sum.splits if_splits)
qed

theorem success_is_the_childs_witness:
  "Reaped (Exited 0) \<in> set (os_last (os_fixture [] TerminationSignal)) \<and>
   er_code (entry_main variables_fixture files_fixture (os_fixture [] TerminationSignal)) = Some 0"
proof -
  let ?os = "os_fixture [] TerminationSignal"
  have "undisturbed (pipe_init [])" by (simp add: undisturbed_def pipe_init_def)
  then obtain p where p: "prepare variables_fixture entry_fixture (pipe_init []) = (True, p)"
    "undisturbed (open_listeners entry_fixture (lock_configuration p))"
    using readable_fixture by (rule script_undisturbed)
  then have "er_code (entry_main variables_fixture files_fixture ?os) = Some 0"
    by (simp add: entry_main_def entry_fixture_checked run_child_def Let_def os_fixture_def undisturbed_def shut_down_def exit_code_def)
  with success_is_the_childs [OF this] show ?thesis by (simp add: os_fixture_def image_iff)
qed

end
