(* ===== verification/Json.thy ===== *)
theory Json
  imports Rust_Text
begin

text \<open>
  JSON values as the proxy reads them through \<open>serde_json::Value\<close>: indexing with a key
  yields null wherever the key is missing or the value is no object, comparisons with a
  Rust integer or string go through \<open>as_i64\<close> and \<open>as_str\<close>. A number is an unsigned
  integer, a negative one, or a float (kept as its text: the program never reads one).
  An object is the list of its members as they are written; as in a parsed \<open>Value\<close>, the
  last of several members with one key counts.
\<close>

datatype number = PosInt nat | NegInt int | Float string

datatype json = JNull | JBool bool | JNum number | JStr string | JArr "json list"
  | JObj "(string \<times> json) list"

fun index :: "json \<Rightarrow> string \<Rightarrow> json" where
  "index (JObj members) key = (case map_of (rev members) key of Some v \<Rightarrow> v | None \<Rightarrow> JNull)"
| "index _ key = JNull"

fun as_text :: "json \<Rightarrow> string option" where
  "as_text (JStr s) = Some s"
| "as_text _ = None"

fun as_array :: "json \<Rightarrow> json list option" where
  "as_array (JArr xs) = Some xs"
| "as_array _ = None"

fun as_bool :: "json \<Rightarrow> bool option" where
  "as_bool (JBool b) = Some b"
| "as_bool _ = None"

fun as_u64 :: "json \<Rightarrow> nat option" where
  "as_u64 (JNum (PosInt n)) = Some n"
| "as_u64 _ = None"

fun as_i64 :: "json \<Rightarrow> int option" where
  "as_i64 (JNum (PosInt n)) = (if n < 2 ^ 63 then Some (int n) else None)"
| "as_i64 (JNum (NegInt i)) = Some i"
| "as_i64 _ = None"

definition is_null :: "json \<Rightarrow> bool" where
  "is_null v \<longleftrightarrow> v = JNull"

text \<open>\<open>value == "text"\<close> and \<open>value == 0\<close>.\<close>

definition eq_text :: "json \<Rightarrow> string \<Rightarrow> bool" where
  "eq_text v s \<longleftrightarrow> as_text v = Some s"

definition eq_int :: "json \<Rightarrow> int \<Rightarrow> bool" where
  "eq_int v i \<longleftrightarrow> as_i64 v = Some i"

text \<open>\<open>value[key] = v\<close> on an object.\<close>

definition insert_member :: "string \<Rightarrow> json \<Rightarrow> json \<Rightarrow> json" where
  "insert_member key v obj =
     (case obj of JObj members \<Rightarrow> JObj (filter (\<lambda>m. fst m \<noteq> key) members @ [(key, v)]) | _ \<Rightarrow> obj)"

lemma as_text_iff [simp]: "as_text v = Some s \<longleftrightarrow> v = JStr s"
  by (cases v) auto

lemma eq_text_iff [simp]: "eq_text v s \<longleftrightarrow> v = JStr s"
  by (simp add: eq_text_def)

lemma as_u64_iff: "as_u64 v = Some n \<longleftrightarrow> v = JNum (PosInt n)"
  by (cases v rule: as_u64.cases) auto

lemma as_i64_PosInt: "as_i64 (JNum (PosInt n)) = Some i \<longleftrightarrow> n < 2 ^ 63 \<and> i = int n"
  by auto

text \<open>A small count compares equal as a signed integer exactly when it reads as that count.\<close>

lemma eq_int_count: "n < 2 ^ 63 \<Longrightarrow> as_u64 v = Some n \<Longrightarrow> eq_int v (int n)"
  by (auto simp: as_u64_iff eq_int_def)

end
