(* ===== verification/Ip_Addr.thy ===== *)
theory Ip_Addr
  imports Rust_Text
begin

text \<open>
  Rust's parser of IP addresses (\<open>str::parse::<IpAddr>\<close>), which decides whether a pod's
  address is usable. A reader takes the remaining input and returns a value with the rest,
  or \<open>None\<close> with nothing consumed.
\<close>

datatype ip_addr = V4 "nat list" | V6 "nat list"

type_synonym 'a reader = "string \<Rightarrow> ('a \<times> string) option"

definition digit_value :: "nat \<Rightarrow> char \<Rightarrow> nat option" where
  "digit_value radix c =
     (let x = byte_val c;
          d = (if 48 \<le> x \<and> x \<le> 57 then x - 48
               else if 97 \<le> x \<and> x \<le> 122 then x - 87
               else if 65 \<le> x \<and> x \<le> 90 then x - 55 else radix)
      in if d < radix then Some d else None)"

text \<open>The digits of \<open>read_number\<close>: value, count, rest; \<open>None\<close> when a limit is exceeded.\<close>

fun read_digits :: "nat \<Rightarrow> nat \<Rightarrow> nat \<Rightarrow> nat \<Rightarrow> nat \<Rightarrow> string \<Rightarrow> (nat \<times> nat \<times> string) option" where
  "read_digits radix most digits acc count [] = Some (acc, count, [])"
| "read_digits radix most digits acc count (c # cs) =
     (case digit_value radix c of
        None \<Rightarrow> Some (acc, count, c # cs)
      | Some d \<Rightarrow>
          if most < acc * radix + d \<or> digits < Suc count then None
          else read_digits radix most digits (acc * radix + d) (Suc count) cs)"

definition read_number :: "nat \<Rightarrow> nat \<Rightarrow> nat \<Rightarrow> bool \<Rightarrow> nat reader" where
  "read_number radix most digits allow_zero_prefix s =
     (case read_digits radix most digits 0 0 s of
        None \<Rightarrow> None
      | Some (n, count, rest) \<Rightarrow>
          if count = 0 \<or> (\<not> allow_zero_prefix \<and> s \<noteq> [] \<and> hd s = CHR ''0'' \<and> 1 < count) then None
          else Some (n, rest))"

definition read_char :: "char \<Rightarrow> unit reader" where
  "read_char c s = (case s of d # rest \<Rightarrow> if d = c then Some ((), rest) else None | [] \<Rightarrow> None)"

definition read_separator :: "char \<Rightarrow> nat \<Rightarrow> 'a reader \<Rightarrow> 'a reader" where
  "read_separator sep i inner s =
     (if i = 0 then inner s else Option.bind (read_char sep s) (\<lambda>(_, rest). inner rest))"

fun read_octets :: "nat \<Rightarrow> nat \<Rightarrow> nat list reader" where
  "read_octets i 0 s = Some ([], s)"
| "read_octets i (Suc n) s =
     Option.bind (read_separator (CHR ''.'') i (read_number 10 255 3 False) s) (\<lambda>(x, rest).
       map_option (\<lambda>(xs, rest'). (x # xs, rest')) (read_octets (Suc i) n rest))"

definition read_ipv4_addr :: "nat list reader" where
  "read_ipv4_addr s = read_octets 0 4 s"

text \<open>\<open>read_groups\<close> over \<open>n\<close> more slots from index \<open>i\<close>: groups read, whether IPv4 ended it.\<close>

fun read_groups :: "nat \<Rightarrow> nat \<Rightarrow> string \<Rightarrow> nat list \<times> bool \<times> string" where
  "read_groups i 0 s = ([], False, s)"
| "read_groups i (Suc n) s =
     (case (if n = 0 then None else read_separator (CHR '':'') i read_ipv4_addr s) of
        Some ([a, b, c, d], rest) \<Rightarrow> ([a * 256 + b, c * 256 + d], True, rest)
      | _ \<Rightarrow>
          (case read_separator (CHR '':'') i (read_number 16 65535 4 True) s of
             None \<Rightarrow> ([], False, s)
           | Some (g, rest) \<Rightarrow>
               (case read_groups (Suc i) n rest of (gs, v4, rest') \<Rightarrow> (g # gs, v4, rest'))))"

definition read_ipv6_addr :: "nat list reader" where
  "read_ipv6_addr s =
     (case read_groups 0 8 s of
        (head, v4, rest) \<Rightarrow>
          if length head = 8 then Some (head, rest)
          else if v4 then None
          else Option.bind (read_char (CHR '':'') rest) (\<lambda>(_, rest1).
               Option.bind (read_char (CHR '':'') rest1) (\<lambda>(_, rest2).
               case read_groups 0 (8 - (length head + 1)) rest2 of
                 (tail, _, rest3) \<Rightarrow>
                   Some (head @ replicate (8 - length head - length tail) 0 @ tail, rest3))))"

definition parse_ip :: "string \<Rightarrow> string + ip_addr" where
  "parse_ip s =
     (let result = (case read_ipv4_addr s of
            Some (a, rest) \<Rightarrow> Some (V4 a, rest)
          | None \<Rightarrow> map_option (\<lambda>(a, rest). (V6 a, rest)) (read_ipv6_addr s))
      in case result of
           Some (ip, []) \<Rightarrow> Inr ip
         | _ \<Rightarrow> Inl ''invalid IP address syntax'')"

definition ip_ok :: "ip_addr \<Rightarrow> bool" where
  "ip_ok ip = (case ip of V4 xs \<Rightarrow> length xs = 4 \<and> (\<forall>x \<in> set xs. x < 256)
     | V6 xs \<Rightarrow> length xs = 8 \<and> (\<forall>x \<in> set xs. x < 65536))"

lemma read_digits_bound:
  "read_digits radix most digits acc count s = Some (n, c, rest) \<Longrightarrow> acc \<le> most \<Longrightarrow> n \<le> most"
  by (induction radix most digits acc count s rule: read_digits.induct)
    (auto split: option.splits if_splits)

lemma read_number_bound: "read_number radix most digits z s = Some (n, rest) \<Longrightarrow> n \<le> most"
  by (auto simp: read_number_def split: option.splits if_splits dest: read_digits_bound)

lemma read_separator_Some:
  "read_separator sep i inner s = Some x \<Longrightarrow> \<exists>t. inner t = Some x"
  by (auto simp: read_separator_def bind_eq_Some_conv split: if_splits)

lemma read_octets_ok:
  "read_octets i n s = Some (xs, rest) \<Longrightarrow> length xs = n \<and> (\<forall>x \<in> set xs. x < 256)"
proof (induction i n s arbitrary: xs rest rule: read_octets.induct)
  case (2 i n s)
  from 2(2) obtain x r ys r' where
    x: "read_separator (CHR ''.'') i (read_number 10 255 3 False) s = Some (x, r)" and
    ys: "read_octets (Suc i) n r = Some (ys, r')" and xs: "xs = x # ys"
    by (auto simp: bind_eq_Some_conv)
  have "x \<le> 255" using read_separator_Some [OF x] by (auto dest: read_number_bound)
  with 2(1) [OF x refl ys] xs show ?case by auto
qed simp

lemma read_ipv4_addr_ok:
  "read_ipv4_addr s = Some (xs, rest) \<Longrightarrow> length xs = 4 \<and> (\<forall>x \<in> set xs. x < 256)"
  by (auto simp: read_ipv4_addr_def dest: read_octets_ok)

lemma read_groups_ok:
  "read_groups i n s = (xs, v4, rest) \<Longrightarrow> length xs \<le> n \<and> (\<forall>x \<in> set xs. x < 65536)"
proof (induction n arbitrary: i s xs v4 rest)
  case (Suc n)
  let ?v4 = "if n = 0 then None else read_separator (CHR '':'') i read_ipv4_addr s"
  show ?case
  proof (cases "\<exists>a b c d r. ?v4 = Some ([a, b, c, d], r)")
    case True
    then obtain a b c d r where v: "?v4 = Some ([a, b, c, d], r)" by blast
    then have "n \<noteq> 0" "\<exists>t. read_ipv4_addr t = Some ([a, b, c, d], r)"
      by (auto dest: read_separator_Some split: if_splits)
    then have "\<forall>x \<in> {a, b, c, d}. x < 256" by (auto dest: read_ipv4_addr_ok)
    moreover have "xs = [a * 256 + b, c * 256 + d]" using Suc.prems v by simp
    ultimately show ?thesis using \<open>n \<noteq> 0\<close> by auto
  next
    case False
    then have "(xs, v4, rest) = (case read_separator (CHR '':'') i (read_number 16 65535 4 True) s of
             None \<Rightarrow> ([], False, s)
           | Some (g, rest) \<Rightarrow>
               (case read_groups (Suc i) n rest of (gs, v4, rest') \<Rightarrow> (g # gs, v4, rest')))"
      using Suc.prems by (auto split: option.splits list.splits prod.splits if_splits)
    then show ?thesis
    proof (cases "read_separator (CHR '':'') i (read_number 16 65535 4 True) s")
      case (Some gr)
      obtain g r where gr: "gr = (g, r)" by (cases gr)
      then have "g \<le> 65535" using read_separator_Some [OF Some [unfolded gr]] by (auto dest: read_number_bound)
      moreover obtain gs v r' where gs: "read_groups (Suc i) n r = (gs, v, r')" by (metis prod_cases3)
      moreover have "length gs \<le> n \<and> (\<forall>x \<in> set gs. x < 65536)" using Suc.IH [OF gs] .
      ultimately show ?thesis
        using \<open>(xs, v4, rest) = _\<close> Some gr by auto
    qed simp
  qed
qed simp

text \<open>Four octets or eight groups, each in range.\<close>

lemma read_ipv6_addr_ok:
  assumes "read_ipv6_addr s = Some (xs, rest)"
  shows "length xs = 8 \<and> (\<forall>x \<in> set xs. x < 65536)"
proof -
  obtain head v r where h: "read_groups 0 8 s = (head, v, r)" by (metis prod_cases3)
  note hok = read_groups_ok [OF h]
  show ?thesis
  proof (cases "length head = 8")
    case True
    with assms h hok show ?thesis by (simp add: read_ipv6_addr_def)
  next
    case False
    with assms h obtain r2 where "v = False" and
      x: "(case read_groups 0 (8 - (length head + 1)) r2 of (tail, w, r3) \<Rightarrow>
             Some (head @ replicate (8 - length head - length tail) 0 @ tail, r3)) = Some (xs, rest)"
      by (auto simp: read_ipv6_addr_def bind_eq_Some_conv split: if_splits)
    obtain tl w r3 where t: "read_groups 0 (8 - (length head + 1)) r2 = (tl, w, r3)" by (metis prod_cases3)
    with x have "xs = head @ replicate (8 - length head - length tl) 0 @ tl" by simp
    with read_groups_ok [OF t] hok False show ?thesis by auto
  qed
qed

lemma parse_ip_ok: "parse_ip s = Inr ip \<Longrightarrow> ip_ok ip"
  by (auto simp: parse_ip_def ip_ok_def Let_def dest: read_ipv4_addr_ok read_ipv6_addr_ok
      split: option.splits prod.splits list.splits)

section \<open>Socket addresses\<close>

text \<open>
  \<open>str::parse::<SocketAddr>\<close>: an IPv4 address, or an IPv6 one in brackets with an optional
  scope, then a port. Numbers without a digit limit may use every character left.
\<close>

datatype socket_addr = SocketAddr ip_addr nat

definition read_unlimited :: "nat \<Rightarrow> nat reader" where
  "read_unlimited most s = read_number 10 most (length s) True s"

definition read_port :: "nat reader" where
  "read_port s = Option.bind (read_char (CHR '':'') s) (\<lambda>(_, rest). read_unlimited 65535 rest)"

definition read_scope_id :: "string \<Rightarrow> string" where
  "read_scope_id s =
     (case Option.bind (read_char (CHR ''%'') s) (\<lambda>(_, rest). read_unlimited (2 ^ 32 - 1) rest) of
        Some (_, rest) \<Rightarrow> rest
      | None \<Rightarrow> s)"

definition read_socket_v4 :: "socket_addr reader" where
  "read_socket_v4 s =
     Option.bind (read_ipv4_addr s) (\<lambda>(ip, rest).
       map_option (\<lambda>(port, rest'). (SocketAddr (V4 ip) port, rest')) (read_port rest))"

definition read_socket_v6 :: "socket_addr reader" where
  "read_socket_v6 s =
     Option.bind (read_char (CHR ''['') s) (\<lambda>(_, r1).
     Option.bind (read_ipv6_addr r1) (\<lambda>(ip, r2).
     Option.bind (read_char (CHR '']'') (read_scope_id r2)) (\<lambda>(_, r3).
       map_option (\<lambda>(port, r4). (SocketAddr (V6 ip) port, r4)) (read_port r3))))"

definition parse_socket_addr :: "string \<Rightarrow> string + socket_addr" where
  "parse_socket_addr s =
     (case (case read_socket_v4 s of Some x \<Rightarrow> Some x | None \<Rightarrow> read_socket_v6 s) of
        Some (address, []) \<Rightarrow> Inr address
      | _ \<Rightarrow> Inl ''invalid socket address syntax'')"

fun socket_port :: "socket_addr \<Rightarrow> nat" where
  "socket_port (SocketAddr ip port) = port"

lemma read_unlimited_bound: "read_unlimited most s = Some (n, rest) \<Longrightarrow> n \<le> most"
  by (auto simp: read_unlimited_def dest: read_number_bound)

lemma read_port_bound: "read_port s = Some (n, rest) \<Longrightarrow> n \<le> 65535"
  by (auto simp: read_port_def bind_eq_Some_conv dest: read_unlimited_bound)

text \<open>Whatever is read as a socket address has a 16-bit port and a well-formed address.\<close>

lemma parse_socket_addr_ok:
  assumes "parse_socket_addr s = Inr (SocketAddr ip port)"
  shows "ip_ok ip \<and> port \<le> 65535"
proof -
  from assms have "read_socket_v4 s = Some (SocketAddr ip port, []) \<or>
      read_socket_v6 s = Some (SocketAddr ip port, [])"
    by (auto simp: parse_socket_addr_def split: option.splits prod.splits list.splits)
  then show ?thesis
    by (auto simp: read_socket_v4_def read_socket_v6_def bind_eq_Some_conv ip_ok_def
        dest: read_port_bound read_ipv4_addr_ok read_ipv6_addr_ok)
qed

end
