(* ===== verification/Async.thy ===== *)
theory Async
  imports Json Ip_Addr
begin

text \<open>
  Asynchronous code of the proxy as a tree of effects. A \<open>proc\<close> is done with a value or
  waits for one effect and continues with its reply: a file read, the making of an HTTP
  client, an HTTP exchange, a fresh UUID, a clock reading, a sleep. The two effects that are awaited (\<open>Http\<close>,
  \<open>Sleep\<close>) carry the object's fields as the suspended future has left them, which is
  what remains when the future is dropped there. An \<open>action\<close> is a method over the fields
  \<open>'s\<close>: it returns a \<open>Result\<close> and the fields.

  A trace is the list of effects with their replies. \<open>runs\<close> says which traces complete a
  proc, \<open>suspends\<close> which leave it waiting. \<open>wp\<close> is the weakest precondition over a world
  that answers the effects and may change between any two of them; its soundness over both
  relations is what every safety theorem of the proxy rests on.
\<close>

section \<open>Effects\<close>

datatype http_method = GET | POST | PATCH

text \<open>Which client sends a request: the Kubernetes API, or a worker at an address.\<close>

datatype peer = KubeApi | WorkerAt ip_addr nat

record http_request =
  rq_peer :: peer
  rq_method :: http_method
  rq_url :: string
  rq_query :: "(string \<times> string) list"
  rq_content_type :: "string option"
  rq_bearer :: string
  rq_body :: "json option"

text \<open>A reply: its status code, and its body as JSON or the error of reading it.\<close>

record http_response =
  rs_code :: nat
  rs_body :: "string + json"

datatype ('s, 'a) proc =
    Done 'a
  | ReadFile string "string + string \<Rightarrow> ('s, 'a) proc"
  | Http 's http_request "string + http_response \<Rightarrow> ('s, 'a) proc"
  | BuildClient "string + unit \<Rightarrow> ('s, 'a) proc"
  | NewUuid "string \<Rightarrow> ('s, 'a) proc"
  | Now "nat \<Rightarrow> ('s, 'a) proc"
  | Sleep 's nat "unit \<Rightarrow> ('s, 'a) proc"

datatype event =
    EvRead string "string + string"
  | EvHttp http_request "string + http_response"
  | EvClient "string + unit"
  | EvUuid string
  | EvNow nat
  | EvSleep nat

primrec pbind :: "('s, 'a) proc \<Rightarrow> ('a \<Rightarrow> ('s, 'b) proc) \<Rightarrow> ('s, 'b) proc" where
  "pbind (Done x) f = f x"
| "pbind (ReadFile p k) f = ReadFile p (\<lambda>r. pbind (k r) f)"
| "pbind (Http s rq k) f = Http s rq (\<lambda>r. pbind (k r) f)"
| "pbind (BuildClient k) f = BuildClient (\<lambda>r. pbind (k r) f)"
| "pbind (NewUuid k) f = NewUuid (\<lambda>r. pbind (k r) f)"
| "pbind (Now k) f = Now (\<lambda>r. pbind (k r) f)"
| "pbind (Sleep s d k) f = Sleep s d (\<lambda>r. pbind (k r) f)"

section \<open>Actions\<close>

text \<open>
  An error is a message. \<open>Panicked\<close> unwinds through every handler of errors; \<open>OutOfFuel\<close>
  marks a loop cut off by the model, never by the code.
\<close>

datatype perror = Error string | Panicked string | OutOfFuel

type_synonym ('s, 'a) action = "'s \<Rightarrow> ('s, (perror + 'a) \<times> 's) proc"

definition ret :: "'a \<Rightarrow> ('s, 'a) action" where
  "ret x s = Done (Inr x, s)"

definition fail :: "perror \<Rightarrow> ('s, 'a) action" where
  "fail e s = Done (Inl e, s)"

text \<open>\<open>bail!\<close>\<close>

definition bail :: "string \<Rightarrow> ('s, 'a) action" where
  "bail message = fail (Error message)"

text \<open>\<open>let x = m.await?; f x\<close>\<close>

definition bind :: "('s, 'a) action \<Rightarrow> ('a \<Rightarrow> ('s, 'b) action) \<Rightarrow> ('s, 'b) action" where
  "bind m f s = pbind (m s) (\<lambda>(r, s'). case r of Inl e \<Rightarrow> Done (Inl e, s') | Inr x \<Rightarrow> f x s')"

text \<open>\<open>match m.await\<close>: both outcomes reach the continuation.\<close>

definition matching :: "('s, 'a) action \<Rightarrow> (string + 'a \<Rightarrow> ('s, 'b) action) \<Rightarrow> ('s, 'b) action" where
  "matching m f s = pbind (m s) (\<lambda>(r, s'). case r of
     Inr x \<Rightarrow> f (Inr x) s'
   | Inl (Error e) \<Rightarrow> f (Inl e) s'
   | Inl e \<Rightarrow> Done (Inl e, s'))"

definition lift :: "string + 'a \<Rightarrow> ('s, 'a) action" where
  "lift r s = Done (map_err Error r, s)"

definition gets :: "('s \<Rightarrow> 'a) \<Rightarrow> ('s, 'a) action" where
  "gets f s = Done (Inr (f s), s)"

definition modify :: "('s \<Rightarrow> 's) \<Rightarrow> ('s, unit) action" where
  "modify f s = Done (Inr (), f s)"

definition read_to_string :: "string \<Rightarrow> ('s, string) action" where
  "read_to_string path s = ReadFile path (\<lambda>r. Done (map_err Error r, s))"

definition send :: "http_request \<Rightarrow> ('s, http_response) action" where
  "send rq s = Http s rq (\<lambda>r. Done (map_err Error r, s))"

definition build_client :: "('s, unit) action" where
  "build_client s = BuildClient (\<lambda>r. Done (map_err Error r, s))"

definition new_uuid :: "('s, string) action" where
  "new_uuid s = NewUuid (\<lambda>u. Done (Inr u, s))"

definition now :: "('s, nat) action" where
  "now s = Now (\<lambda>t. Done (Inr t, s))"

definition sleep :: "nat \<Rightarrow> ('s, unit) action" where
  "sleep d s = Sleep s d (\<lambda>_. Done (Inr (), s))"

definition only_if :: "bool \<Rightarrow> ('s, unit) action \<Rightarrow> ('s, unit) action" where
  "only_if b m = (if b then m else ret ())"

lemmas action_defs = ret_def fail_def bail_def bind_def matching_def lift_def gets_def modify_def
  read_to_string_def send_def build_client_def new_uuid_def now_def sleep_def only_if_def

text \<open>\<open>error_for_status\<close> and \<open>json()\<close> of a reply.\<close>

definition error_for_status :: "http_response \<Rightarrow> string + http_response" where
  "error_for_status rs =
     (if 400 \<le> rs_code rs \<and> rs_code rs < 600
      then Inl (''HTTP status error ('' @ dec_nat (rs_code rs) @ '')'') else Inr rs)"

definition json_body :: "http_response \<Rightarrow> string + json" where
  "json_body rs = rs_body rs"

section \<open>Traces\<close>

inductive runs :: "('s, 'a) proc \<Rightarrow> event list \<Rightarrow> 'a \<Rightarrow> bool" where
  Done: "runs (Done x) [] x"
| ReadFile: "runs (k r) es x \<Longrightarrow> runs (ReadFile p k) (EvRead p r # es) x"
| Http: "runs (k r) es x \<Longrightarrow> runs (Http s rq k) (EvHttp rq r # es) x"
| BuildClient: "runs (k r) es x \<Longrightarrow> runs (BuildClient k) (EvClient r # es) x"
| NewUuid: "runs (k u) es x \<Longrightarrow> runs (NewUuid k) (EvUuid u # es) x"
| Now: "runs (k t) es x \<Longrightarrow> runs (Now k) (EvNow t # es) x"
| Sleep: "runs (k ()) es x \<Longrightarrow> runs (Sleep s d k) (EvSleep d # es) x"

text \<open>The fields left behind, and the request that may be in flight, at a suspension.\<close>

inductive suspends :: "('s, 'a) proc \<Rightarrow> event list \<Rightarrow> 's \<Rightarrow> http_request option \<Rightarrow> bool" where
  AtHttp: "suspends (Http s rq k) [] s (Some rq)"
| AtSleep: "suspends (Sleep s d k) [] s None"
| ReadFile: "suspends (k r) es x q \<Longrightarrow> suspends (ReadFile p k) (EvRead p r # es) x q"
| Http: "suspends (k r) es x q \<Longrightarrow> suspends (Http s rq k) (EvHttp rq r # es) x q"
| BuildClient: "suspends (k r) es x q \<Longrightarrow> suspends (BuildClient k) (EvClient r # es) x q"
| NewUuid: "suspends (k u) es x q \<Longrightarrow> suspends (NewUuid k) (EvUuid u # es) x q"
| Now: "suspends (k t) es x q \<Longrightarrow> suspends (Now k) (EvNow t # es) x q"
| Sleep: "suspends (k ()) es x q \<Longrightarrow> suspends (Sleep s d k) (EvSleep d # es) x q"

inductive_cases runs_DoneE [elim!]: "runs (Done x) es y"
inductive_cases runs_ReadFileE [elim!]: "runs (ReadFile p k) es y"
inductive_cases runs_HttpE [elim!]: "runs (Http s rq k) es y"
inductive_cases runs_BuildClientE [elim!]: "runs (BuildClient k) es y"
inductive_cases runs_NewUuidE [elim!]: "runs (NewUuid k) es y"
inductive_cases runs_NowE [elim!]: "runs (Now k) es y"
inductive_cases runs_SleepE [elim!]: "runs (Sleep s d k) es y"

lemma runs_pbind: "runs t es x \<Longrightarrow> runs (f x) es' y \<Longrightarrow> runs (pbind t f) (es @ es') y"
  by (induction rule: runs.induct) (auto intro: runs.intros)

lemma runs_pbindE:
  assumes "runs (pbind t f) es y"
  obtains es1 es2 x where "es = es1 @ es2" "runs t es1 x" "runs (f x) es2 y"
proof -
  have "\<exists>es1 es2 x. es = es1 @ es2 \<and> runs t es1 x \<and> runs (f x) es2 y"
    using assms
  proof (induction t arbitrary: es)
    case (Done x)
    then show ?case by (auto intro: runs.Done)
  next
    case (ReadFile p k)
    then show ?case by simp (blast intro: runs.ReadFile append_Cons [symmetric])
  next
    case (Http s rq k)
    then show ?case by simp (blast intro: runs.Http append_Cons [symmetric])
  next
    case (BuildClient k)
    then show ?case by simp (blast intro: runs.BuildClient append_Cons [symmetric])
  next
    case (NewUuid k)
    then show ?case by simp (blast intro: runs.NewUuid append_Cons [symmetric])
  next
    case (Now k)
    then show ?case by simp (blast intro: runs.Now append_Cons [symmetric])
  next
    case (Sleep s d k)
    then show ?case by simp (blast intro: runs.Sleep append_Cons [symmetric])
  qed
  then show ?thesis using that by blast
qed

lemma runs_bind:
  assumes "runs (m s) es (Inr x, s1)" "runs (f x s1) es' y"
  shows "runs (bind m f s) (es @ es') y"
  unfolding bind_def by (rule runs_pbind [OF assms(1)]) (simp add: assms(2))

lemma runs_bindE:
  assumes "runs (bind m f s) es y"
  obtains e s1 where "runs (m s) es (Inl e, s1)" "y = (Inl e, s1)"
    | x s1 es1 es2 where "es = es1 @ es2" "runs (m s) es1 (Inr x, s1)" "runs (f x s1) es2 y"
  using assms unfolding bind_def by (elim runs_pbindE) (auto split: sum.splits)

section \<open>Worlds and weakest preconditions\<close>

text \<open>\<open>R w e w'\<close>: the world can answer with event \<open>e\<close> and be \<open>w'\<close> when the reply is seen.\<close>

type_synonym 'w world = "'w \<Rightarrow> event \<Rightarrow> 'w \<Rightarrow> bool"

primrec goes :: "'w world \<Rightarrow> 'w \<Rightarrow> event list \<Rightarrow> 'w \<Rightarrow> bool" where
  "goes R w [] w' \<longleftrightarrow> w' = w"
| "goes R w (e # es) w' \<longleftrightarrow> (\<exists>w1. R w e w1 \<and> goes R w1 es w')"

primrec wp :: "'w world \<Rightarrow> ('s \<Rightarrow> http_request option \<Rightarrow> 'w \<Rightarrow> bool) \<Rightarrow> ('s, 'a) proc \<Rightarrow>
    ('a \<Rightarrow> 'w \<Rightarrow> bool) \<Rightarrow> 'w \<Rightarrow> bool" where
  "wp R I (Done x) Q w \<longleftrightarrow> Q x w"
| "wp R I (ReadFile p k) Q w \<longleftrightarrow> (\<forall>r w'. R w (EvRead p r) w' \<longrightarrow> wp R I (k r) Q w')"
| "wp R I (Http s rq k) Q w \<longleftrightarrow> I s (Some rq) w \<and> (\<forall>r w'. R w (EvHttp rq r) w' \<longrightarrow> wp R I (k r) Q w')"
| "wp R I (BuildClient k) Q w \<longleftrightarrow> (\<forall>r w'. R w (EvClient r) w' \<longrightarrow> wp R I (k r) Q w')"
| "wp R I (NewUuid k) Q w \<longleftrightarrow> (\<forall>u w'. R w (EvUuid u) w' \<longrightarrow> wp R I (k u) Q w')"
| "wp R I (Now k) Q w \<longleftrightarrow> (\<forall>t w'. R w (EvNow t) w' \<longrightarrow> wp R I (k t) Q w')"
| "wp R I (Sleep s d k) Q w \<longleftrightarrow> I s None w \<and> (\<forall>w'. R w (EvSleep d) w' \<longrightarrow> wp R I (k ()) Q w')"

lemma wp_pbind: "wp R I (pbind t f) Q w \<longleftrightarrow> wp R I t (\<lambda>x. wp R I (f x) Q) w"
  by (induction t arbitrary: w) simp_all

lemma wp_weaken:
  "(\<And>x w. Q x w \<Longrightarrow> Q' x w) \<Longrightarrow> wp R I t Q w \<longrightarrow> wp R I t Q' w"
  by (induction t arbitrary: w) auto

lemma wp_mono: "wp R I t Q w \<Longrightarrow> (\<And>x w. Q x w \<Longrightarrow> Q' x w) \<Longrightarrow> wp R I t Q' w"
  using wp_weaken [of Q Q' R I t w] by blast

lemma wp_await: "(\<And>s rq w. I s rq w \<Longrightarrow> J s rq w) \<Longrightarrow> wp R I t Q w \<longrightarrow> wp R J t Q w"
  by (induction t arbitrary: w) auto

lemma wp_both:
  "wp R I t Q w \<Longrightarrow> (\<And>s rq w. I s rq w \<Longrightarrow> J s rq w) \<Longrightarrow> (\<And>x w. Q x w \<Longrightarrow> Q' x w) \<Longrightarrow> wp R J t Q' w"
  using wp_await [of I J R t Q w] wp_mono [of R J t Q w Q'] by blast

lemma wp_conj:
  "wp R I t P w \<Longrightarrow> wp R J t Q w \<Longrightarrow> wp R (\<lambda>s rq w. I s rq w \<and> J s rq w) t (\<lambda>x w. P x w \<and> Q x w) w"
  by (induction t arbitrary: w) auto

lemma wp_sound: "runs t es x \<Longrightarrow> goes R w es w' \<Longrightarrow> wp R I t Q w \<Longrightarrow> Q x w'"
  by (induction arbitrary: w rule: runs.induct) auto

lemma wp_suspends: "suspends t es s rq \<Longrightarrow> goes R w es w' \<Longrightarrow> wp R I t Q w \<Longrightarrow> I s rq w'"
  by (induction arbitrary: w rule: suspends.induct) auto

text \<open>The rules for actions: a goal about a composed action becomes goals about its parts.\<close>

lemma wp_ret [simp]: "wp R I (ret x s) Q w \<longleftrightarrow> Q (Inr x, s) w"
  by (simp add: ret_def)

lemma wp_fail [simp]: "wp R I (fail e s) Q w \<longleftrightarrow> Q (Inl e, s) w"
  by (simp add: fail_def)

lemma wp_bail [simp]: "wp R I (bail m s) Q w \<longleftrightarrow> Q (Inl (Error m), s) w"
  by (simp add: bail_def)

lemma wp_lift [simp]: "wp R I (lift r s) Q w \<longleftrightarrow> Q (map_err Error r, s) w"
  by (simp add: lift_def)

lemma wp_gets [simp]: "wp R I (gets f s) Q w \<longleftrightarrow> Q (Inr (f s), s) w"
  by (simp add: gets_def)

lemma wp_modify [simp]: "wp R I (modify f s) Q w \<longleftrightarrow> Q (Inr (), f s) w"
  by (simp add: modify_def)

lemma wp_bind: "wp R I (bind m f s) Q w \<longleftrightarrow>
    wp R I (m s) (\<lambda>(r, s') w'. case r of Inl e \<Rightarrow> Q (Inl e, s') w' | Inr x \<Rightarrow> wp R I (f x s') Q w') w"
proof -
  have "(\<lambda>x. wp R I (case x of (r, s') \<Rightarrow> case r of Inl e \<Rightarrow> Done (Inl e, s') | Inr x \<Rightarrow> f x s') Q) =
    (\<lambda>(r, s') w'. case r of Inl e \<Rightarrow> Q (Inl e, s') w' | Inr x \<Rightarrow> wp R I (f x s') Q w')"
    by (auto simp: fun_eq_iff split: sum.splits)
  then show ?thesis by (simp add: bind_def wp_pbind)
qed

lemma wp_matching: "wp R I (matching m f s) Q w \<longleftrightarrow>
    wp R I (m s) (\<lambda>(r, s') w'. case r of
        Inr x \<Rightarrow> wp R I (f (Inr x) s') Q w'
      | Inl (Error e) \<Rightarrow> wp R I (f (Inl e) s') Q w'
      | Inl e \<Rightarrow> Q (Inl e, s') w') w"
proof -
  have "(\<lambda>x. wp R I (case x of (r, s') \<Rightarrow> case r of
      Inr x \<Rightarrow> f (Inr x) s' | Inl (Error e) \<Rightarrow> f (Inl e) s' | Inl e \<Rightarrow> Done (Inl e, s')) Q) =
    (\<lambda>(r, s') w'. case r of Inr x \<Rightarrow> wp R I (f (Inr x) s') Q w'
      | Inl (Error e) \<Rightarrow> wp R I (f (Inl e) s') Q w' | Inl e \<Rightarrow> Q (Inl e, s') w')"
    by (auto simp: fun_eq_iff split: sum.splits perror.splits)
  then show ?thesis by (simp add: matching_def wp_pbind)
qed

text \<open>Composition of what is known of the parts.\<close>

lemma wp_seq:
  assumes "wp R I (m s) (\<lambda>(r, s'). P r s') w"
    and "\<And>x s' w'. P (Inr x) s' w' \<Longrightarrow> wp R I (f x s') Q w'"
    and "\<And>e s' w'. P (Inl e) s' w' \<Longrightarrow> Q (Inl e, s') w'"
  shows "wp R I (bind m f s) Q w"
  unfolding wp_bind using assms(1)
  by (rule wp_mono) (use assms(2,3) in \<open>auto split: sum.splits\<close>)

lemma wp_seq_post:
  assumes "wp R I (m s) (\<lambda>(r, s'). P r s') w"
    and "\<And>x s' w'. P (Inr x) s' w' \<Longrightarrow> wp R I (f x s') (\<lambda>(r, s'). Q r s') w'"
    and "\<And>e s' w'. P (Inl e) s' w' \<Longrightarrow> Q (Inl e) s' w'"
  shows "wp R I (bind m f s) (\<lambda>(r, s'). Q r s') w"
  by (rule wp_seq [where P = P]) (use assms in auto)

lemma wp_try:
  assumes "wp R I (m s) (\<lambda>(r, s'). P r s') w"
    and "\<And>x s' w'. P (Inr x) s' w' \<Longrightarrow> wp R I (f (Inr x) s') Q w'"
    and "\<And>e s' w'. P (Inl (Error e)) s' w' \<Longrightarrow> wp R I (f (Inl e) s') Q w'"
    and "\<And>e s' w'. P (Inl e) s' w' \<Longrightarrow> \<forall>m. e \<noteq> Error m \<Longrightarrow> Q (Inl e, s') w'"
  shows "wp R I (matching m f s) Q w"
  unfolding wp_matching using assms(1)
  by (rule wp_mono) (use assms(2-4) in \<open>auto split: sum.splits perror.splits\<close>)

text \<open>
  Running an object's method inside a function that owns the object: dropped at an await,
  the object is gone with the function, whose own fields are all that remains.
\<close>

primrec owned :: "'s \<Rightarrow> ('t, 'a) proc \<Rightarrow> ('s, 'a) proc" where
  "owned s (Done x) = Done x"
| "owned s (ReadFile p k) = ReadFile p (\<lambda>r. owned s (k r))"
| "owned s (Http t rq k) = Http s rq (\<lambda>r. owned s (k r))"
| "owned s (BuildClient k) = BuildClient (\<lambda>r. owned s (k r))"
| "owned s (NewUuid k) = NewUuid (\<lambda>r. owned s (k r))"
| "owned s (Now k) = Now (\<lambda>r. owned s (k r))"
| "owned s (Sleep t d k) = Sleep s d (\<lambda>r. owned s (k r))"

definition owning :: "'t \<Rightarrow> ('t, 'a) action \<Rightarrow> ('s, 'a \<times> 't) action" where
  "owning t m s = pbind (owned s (m t)) (\<lambda>(r, t'). Done (map_sum id (\<lambda>x. (x, t')) r, s))"

lemma wp_owned: "wp R I (owned s p) Q w \<longleftrightarrow> wp R (\<lambda>_. I s) p Q w"
  by (induction p arbitrary: w) simp_all

lemma wp_owning: "wp R I (owning t m s) Q w \<longleftrightarrow>
    wp R (\<lambda>_. I s) (m t) (\<lambda>(r, t') w'. Q (map_sum id (\<lambda>x. (x, t')) r, s) w') w"
proof -
  have "(\<lambda>x. wp R I (case x of (r, t') \<Rightarrow> Done (map_sum id (\<lambda>x. (x, t')) r, s)) Q) =
    (\<lambda>(r, t') w'. Q (map_sum id (\<lambda>x. (x, t')) r, s) w')"
    by (auto simp: fun_eq_iff)
  then show ?thesis by (simp add: owning_def wp_pbind wp_owned)
qed

section \<open>Traces by themselves\<close>

lemma goes_append: "goes R w (es @ fs) w' \<longleftrightarrow> (\<exists>w1. goes R w es w1 \<and> goes R w1 fs w')"
  by (induction es arbitrary: w) auto

inductive_cases suspends_DoneE [elim!]: "suspends (Done x) es s q"
inductive_cases suspends_ReadFileE [elim!]: "suspends (ReadFile p k) es s q"
inductive_cases suspends_HttpE [elim!]: "suspends (Http t rq k) es s q"
inductive_cases suspends_BuildClientE [elim!]: "suspends (BuildClient k) es s q"
inductive_cases suspends_NewUuidE [elim!]: "suspends (NewUuid k) es s q"
inductive_cases suspends_NowE [elim!]: "suspends (Now k) es s q"
inductive_cases suspends_SleepE [elim!]: "suspends (Sleep t d k) es s q"

text \<open>Before every exchange of a trace the future was suspended at its request.\<close>

lemma runs_exchange:
  "runs t (es @ EvHttp rq r # fs) x \<Longrightarrow> \<exists>s. suspends t es s (Some rq)"
proof (induction es arbitrary: t)
  case Nil
  then show ?case by (cases t) (auto intro: suspends.intros)
next
  case (Cons e es)
  then show ?case by (cases t) (auto dest!: Cons.IH intro: suspends.intros)
qed

lemma suspends_exchange:
  "suspends t (es @ EvHttp rq r # fs) x q \<Longrightarrow> \<exists>s. suspends t es s (Some rq)"
proof (induction es arbitrary: t)
  case Nil
  then show ?case by (cases t) (auto intro: suspends.intros)
next
  case (Cons e es)
  then show ?case by (cases t) (auto dest!: Cons.IH intro: suspends.intros)
qed

text \<open>A world that answers anything, for facts about the fields alone.\<close>

definition anyhow :: "unit world" where
  "anyhow w e w' \<longleftrightarrow> True"

lemma goes_anyhow [simp]: "goes anyhow () es ()"
  by (induction es) (simp_all add: anyhow_def)

lemma anyhow_runs: "wp anyhow I t Q () \<Longrightarrow> runs t es x \<Longrightarrow> Q x ()"
  using wp_sound [of t es x anyhow "()" "()" I Q] by simp

lemma anyhow_suspends: "wp anyhow I t Q () \<Longrightarrow> suspends t es s q \<Longrightarrow> I s q ()"
  using wp_suspends [of t es s q anyhow "()" "()" I Q] by simp

lemma anyhow_world: "wp anyhow (\<lambda>s q _. J s q) t (\<lambda>x _. Q x) () \<longrightarrow> wp R (\<lambda>s q _. J s q) t (\<lambda>x _. Q x) w"
  by (induction t arbitrary: w) (auto simp: anyhow_def)

text \<open>A world that remembers its events, for facts about the trace.\<close>

definition history :: "event list world" where
  "history h e h' \<longleftrightarrow> h' = h @ [e]"

lemma goes_history: "goes history h es h' \<longleftrightarrow> h' = h @ es"
  by (induction es arbitrary: h) (auto simp: history_def)

lemma history_grows: "wp history (\<lambda>_ _ _. True) t (\<lambda>_ h'. set h \<subseteq> set h') h"
proof -
  have "set h \<subseteq> set h1 \<Longrightarrow> wp history (\<lambda>_ _ _. True) t (\<lambda>_ h'. set h \<subseteq> set h') h1" for h1
    by (induction t arbitrary: h1) (simp_all add: history_def subset_insertI2)
  then show ?thesis by simp
qed

lemma history_runs: "wp history I t Q [] \<Longrightarrow> runs t es x \<Longrightarrow> Q x es"
  using wp_sound [of t es x history "[]" es I Q] by (simp add: goes_history)

lemma history_suspends: "wp history I t Q [] \<Longrightarrow> suspends t es s q \<Longrightarrow> I s q es"
  using wp_suspends [of t es s q history "[]" es I Q] by (simp add: goes_history)

end
