(* ===== verification/Proxy_Config.thy ===== *)
theory Proxy_Config
  imports Async
begin

text \<open>
  Configuration of the idle proxy (\<open>Config::from_env\<close> and \<open>Kubernetes::new\<close> of
  \<open>crates/duckflight-idle-proxy/src/main.rs\<close>). The process's environment, its files and
  the certificate parser are a record of answers; errors of the standard library and of
  third-party crates are texts. A \<open>Duration\<close> is a number of milliseconds.
\<close>

definition OWNER_ANNOTATION :: string where
  "OWNER_ANNOTATION = ''duckflight.sidequery.dev/idle-owner''"

definition OPERATION_ANNOTATION :: string where
  "OPERATION_ANNOTATION = ''duckflight.sidequery.dev/idle-operation''"

type_synonym duration = nat

text \<open>A certificate is known by the bytes it was parsed from.\<close>

type_synonym certificate = "byte list"

record process =
  env_var :: "string \<Rightarrow> string + string"
  read_file :: "string \<Rightarrow> string + byte list"
  certificate_from_pem :: "byte list \<Rightarrow> string + certificate"
  client_builds :: "string + unit"

record config =
  cf_namespace :: string
  cf_deployment :: string
  cf_selector :: string
  cf_hostname :: string
  cf_control_port :: u16
  cf_idle_timeout :: duration
  cf_cold_start_timeout :: duration
  cf_token_file :: string
  cf_ca :: certificate
  cf_listeners :: "u16 list"

definition parse_u16 :: "string \<Rightarrow> string + u16" where
  "parse_u16 s = map_sum int_error_text of_nat (parse_unsigned (2 ^ 16 - 1) s)"

definition parse_seconds :: "string \<Rightarrow> string + duration" where
  "parse_seconds s = map_sum int_error_text (\<lambda>n. n * 1000) (parse_unsigned (2 ^ 64 - 1) s)"

text \<open>Every listener variable that is set names a port; an unset one is skipped.\<close>

fun read_listeners :: "process \<Rightarrow> string list \<Rightarrow> string + u16 list" where
  "read_listeners env [] = Inr []"
| "read_listeners env (name # names) =
     (case env_var env name of
        Inl _ \<Rightarrow> read_listeners env names
      | Inr value \<Rightarrow> andThen (parse_u16 value) (\<lambda>port.
          andThen (read_listeners env names) (\<lambda>ports. Inr (port # ports))))"

definition listener_variables :: "string list" where
  "listener_variables = [''DUCKFLIGHT_PROXY_POSTGRES_PORT'', ''DUCKFLIGHT_PROXY_FLIGHT_PORT'']"

definition from_env :: "process \<Rightarrow> string + config" where
  "from_env env =
     andThen (read_listeners env listener_variables) (\<lambda>listeners.
     if listeners = [] then Inl ''enable at least one proxy listener''
     else
     andThen (env_var env ''POD_NAMESPACE'') (\<lambda>namespace.
     andThen (env_var env ''DUCKFLIGHT_PROXY_DEPLOYMENT'') (\<lambda>deployment.
     andThen (env_var env ''DUCKFLIGHT_PROXY_SELECTOR'') (\<lambda>selector.
     andThen (env_var env ''DUCKFLIGHT_PROXY_HOSTNAME'') (\<lambda>hostname.
     andThen (andThen (env_var env ''DUCKFLIGHT_PROXY_CONTROL_PORT'') parse_u16) (\<lambda>control_port.
     andThen (andThen (env_var env ''DUCKFLIGHT_PROXY_IDLE_TIMEOUT_SECONDS'') parse_seconds) (\<lambda>idle_timeout.
     andThen (andThen (env_var env ''DUCKFLIGHT_PROXY_COLD_START_TIMEOUT_SECONDS'') parse_seconds) (\<lambda>cold_start_timeout.
     andThen (env_var env ''DUCKFLIGHT_PROXY_TOKEN_FILE'') (\<lambda>token_file.
     andThen (andThen (andThen (env_var env ''DUCKFLIGHT_PROXY_CA_FILE'') (read_file env)) (certificate_from_pem env)) (\<lambda>ca.
     Inr \<lparr>cf_namespace = namespace, cf_deployment = deployment, cf_selector = selector,
          cf_hostname = hostname, cf_control_port = control_port, cf_idle_timeout = idle_timeout,
          cf_cold_start_timeout = cold_start_timeout, cf_token_file = token_file, cf_ca = ca,
          cf_listeners = listeners\<rparr>))))))))))"

record kubernetes =
  kb_base :: string
  kb_token_file :: string
  kb_deployment_path :: string
  kb_pods_path :: string
  kb_selector :: string

definition service_account :: string where
  "service_account = ''/var/run/secrets/kubernetes.io/serviceaccount''"

text \<open>An IPv6 literal is put in brackets.\<close>

definition bracket_host :: "string \<Rightarrow> string" where
  "bracket_host host = (if CHR '':'' \<in> set host then ''['' @ host @ '']'' else host)"

definition kubernetes_new :: "process \<Rightarrow> config \<Rightarrow> string + kubernetes" where
  "kubernetes_new env config =
     andThen (andThen (read_file env (service_account @ ''/ca.crt'')) (certificate_from_pem env)) (\<lambda>ca.
     andThen (env_var env ''KUBERNETES_SERVICE_HOST'') (\<lambda>host.
     let port = (case env_var env ''KUBERNETES_SERVICE_PORT_HTTPS'' of Inr p \<Rightarrow> p | Inl _ \<Rightarrow> ''443'') in
     andThen (client_builds env) (\<lambda>_.
     Inr \<lparr>kb_base = ''https://'' @ bracket_host host @ '':'' @ port,
          kb_token_file = service_account @ ''/token'',
          kb_deployment_path = ''/apis/apps/v1/namespaces/'' @ cf_namespace config @ ''/deployments/'' @
            cf_deployment config,
          kb_pods_path = ''/api/v1/namespaces/'' @ cf_namespace config @ ''/pods'',
          kb_selector = cf_selector config\<rparr>)))"

section \<open>Lemmas\<close>

lemma read_listeners_Inr:
  "read_listeners env names = Inr ports \<Longrightarrow>
     map Inr ports = map (\<lambda>name. andThen (env_var env name) parse_u16)
       (filter (\<lambda>name. is_ok (env_var env name)) names)"
  by (induction env names arbitrary: ports rule: read_listeners.induct)
    (auto simp: andThen_Inr_iff split: sum.splits)

lemma from_env_listeners:
  assumes "from_env env = Inr config"
  shows "cf_listeners config \<noteq> []"
    and "read_listeners env listener_variables = Inr (cf_listeners config)"
  using assms by (auto simp: from_env_def andThen_Inr_iff split: if_splits)

lemma from_env_fields:
  assumes "from_env env = Inr config"
  shows "env_var env ''POD_NAMESPACE'' = Inr (cf_namespace config)"
    and "env_var env ''DUCKFLIGHT_PROXY_DEPLOYMENT'' = Inr (cf_deployment config)"
    and "andThen (env_var env ''DUCKFLIGHT_PROXY_CONTROL_PORT'') parse_u16 = Inr (cf_control_port config)"
    and "andThen (env_var env ''DUCKFLIGHT_PROXY_IDLE_TIMEOUT_SECONDS'') parse_seconds = Inr (cf_idle_timeout config)"
    and "andThen (env_var env ''DUCKFLIGHT_PROXY_COLD_START_TIMEOUT_SECONDS'') parse_seconds =
      Inr (cf_cold_start_timeout config)"
  using assms by (auto simp: from_env_def andThen_Inr_iff split: if_splits)

end
