(* ===== verification/Kubernetes.thy ===== *)
theory Kubernetes
  imports Proxy_Config
begin

text \<open>
  The proxy's Kubernetes client (\<open>impl Kubernetes\<close>): read the worker's Deployment, patch
  it under its resource version, list its pods. Each call reads the bearer token afresh,
  sends one request and decodes the reply; any failure on the way is its error.
\<close>

definition http_get :: "kubernetes \<Rightarrow> string \<Rightarrow> (string \<times> string) list \<Rightarrow> string \<Rightarrow> http_request" where
  "http_get kube path query token =
     \<lparr>rq_peer = KubeApi, rq_method = GET, rq_url = kb_base kube @ path, rq_query = query,
      rq_content_type = None, rq_bearer = trim token, rq_body = None\<rparr>"

text \<open>Send, check the status, decode the body.\<close>

definition fetch :: "http_request \<Rightarrow> ('s, json) action" where
  "fetch rq = bind (send rq) (\<lambda>reply. bind (lift (error_for_status reply)) (\<lambda>reply. lift (json_body reply)))"

definition kube_deployment :: "kubernetes \<Rightarrow> ('s, json) action" where
  "kube_deployment kube =
     bind (read_to_string (kb_token_file kube)) (\<lambda>token.
       fetch (http_get kube (kb_deployment_path kube) [] token))"

definition patch_body :: "json \<Rightarrow> string \<Rightarrow> string \<Rightarrow> u32 option \<Rightarrow> json" where
  "patch_body current owner operation replicas =
     (let patch = JObj [(''metadata'', JObj [
            (''resourceVersion'', index (index current ''metadata'') ''resourceVersion''),
            (''uid'', index (index current ''metadata'') ''uid''),
            (''annotations'', JObj [(OWNER_ANNOTATION, JStr owner), (OPERATION_ANNOTATION, JStr operation)])])]
      in case replicas of
           None \<Rightarrow> patch
         | Some n \<Rightarrow> insert_member ''spec'' (JObj [(''replicas'', JNum (PosInt (unat n)))]) patch)"

definition patch_request :: "kubernetes \<Rightarrow> json \<Rightarrow> string \<Rightarrow> http_request" where
  "patch_request kube body token =
     \<lparr>rq_peer = KubeApi, rq_method = PATCH, rq_url = kb_base kube @ kb_deployment_path kube,
      rq_query = [], rq_content_type = Some ''application/merge-patch+json'',
      rq_bearer = trim token, rq_body = Some body\<rparr>"

definition kube_patch ::
  "kubernetes \<Rightarrow> json \<Rightarrow> string \<Rightarrow> string \<Rightarrow> u32 option \<Rightarrow> ('s, json) action" where
  "kube_patch kube current owner operation replicas =
     bind (read_to_string (kb_token_file kube)) (\<lambda>token.
       fetch (patch_request kube (patch_body current owner operation replicas) token))"

definition kube_pods :: "kubernetes \<Rightarrow> ('s, json list) action" where
  "kube_pods kube =
     bind (read_to_string (kb_token_file kube)) (\<lambda>token.
     bind (fetch (http_get kube (kb_pods_path kube) [(''labelSelector'', kb_selector kube)] token)) (\<lambda>result.
       lift (ok_or ''missing pod list'' (as_array (index result ''items'')))))"

section \<open>Lemmas\<close>

text \<open>The version a Deployment or a patch carries, and the replicas a patch asks for.\<close>

definition resource_version :: "json \<Rightarrow> json" where
  "resource_version body = index (index body ''metadata'') ''resourceVersion''"

definition patch_replicas :: "json \<Rightarrow> json" where
  "patch_replicas body = index (index body ''spec'') ''replicas''"

lemma patch_body_simps [simp]:
  "resource_version (patch_body current owner operation replicas) = resource_version current"
  "patch_replicas (patch_body current owner operation None) = JNull"
  "patch_replicas (patch_body current owner operation (Some n)) = JNum (PosInt (unat n))"
  by (simp_all add: patch_body_def resource_version_def patch_replicas_def insert_member_def Let_def
      split: option.splits)

text \<open>A request and everything that can go wrong with its reply.\<close>

definition decoded :: "string + http_response \<Rightarrow> string + json" where
  "decoded r = andThen r (\<lambda>reply. andThen (error_for_status reply) json_body)"

lemma fetch_eq: "fetch rq s = Http s rq (\<lambda>r. Done (map_err Error (decoded r), s))"
proof -
  have "pbind (Done (map_err Error r, s)) (\<lambda>(r, s'). case r of Inl e \<Rightarrow> Done (Inl e, s')
      | Inr reply \<Rightarrow> bind (lift (error_for_status reply)) (\<lambda>reply. lift (json_body reply)) s') =
      Done (map_err Error (decoded r), s)" for r
    by (cases r; cases "error_for_status (projr r)") (simp_all add: decoded_def bind_def lift_def)
  then show ?thesis by (simp add: fetch_def bind_def send_def)
qed

lemma wp_fetch: "wp R I (fetch rq s) Q w \<longleftrightarrow>
    I s (Some rq) w \<and> (\<forall>r w'. R w (EvHttp rq r) w' \<longrightarrow> Q (map_err Error (decoded r), s) w')"
  by (simp add: fetch_eq)

end
