(* ===== verification/Backend.thy ===== *)
theory Backend
  imports Kubernetes "HOL-Library.Multiset"
begin

text \<open>
  The worker behind the proxy (\<open>IdleStatus\<close>, \<open>impl Backend\<close>, \<open>ready\<close> and
  \<open>worker_ready\<close> of \<open>main.rs\<close>): how a status reply is decoded and checked, which pod is
  ready, and the three control requests. Errors of serde are shortened to their kind.
\<close>

section \<open>Status replies\<close>

record idle_status =
  is_protocol_version :: u32
  is_boot_id :: string
  is_ready :: bool
  is_busy :: bool
  is_permit :: "string option"

text \<open>serde's decoders of the field types.\<close>

definition decode_u32 :: "json \<Rightarrow> string + u32" where
  "decode_u32 v = (case as_u64 v of
     Some n \<Rightarrow> if n < 2 ^ 32 then Inr (of_nat n) else Inl ''invalid value''
   | None \<Rightarrow> Inl ''invalid type'')"

definition decode_string :: "json \<Rightarrow> string + string" where
  "decode_string v = ok_or ''invalid type'' (as_text v)"

definition decode_bool :: "json \<Rightarrow> string + bool" where
  "decode_bool v = ok_or ''invalid type'' (as_bool v)"

definition decode_optional :: "json \<Rightarrow> string + string option" where
  "decode_optional v = (if v = JNull then Inr None else map_sum id Some (decode_string v))"

text \<open>The values written for a field: one is decoded, none is an error or a default.\<close>

definition field_of :: "string \<Rightarrow> (json \<Rightarrow> string + 'a) \<Rightarrow> string + 'a \<Rightarrow> (string \<times> json) list \<Rightarrow> string + 'a" where
  "field_of name decode missing members =
     (case filter (\<lambda>m. fst m = name) members of
        [] \<Rightarrow> missing
      | [(_, v)] \<Rightarrow> decode v
      | _ \<Rightarrow> Inl (''duplicate field '' @ name))"

definition required :: "string \<Rightarrow> (json \<Rightarrow> string + 'a) \<Rightarrow> (string \<times> json) list \<Rightarrow> string + 'a" where
  "required name decode = field_of name decode (Inl (''missing field '' @ name))"

definition status_of ::
  "string + u32 \<Rightarrow> string + string \<Rightarrow> string + bool \<Rightarrow> string + bool \<Rightarrow> string + string option \<Rightarrow> string + idle_status" where
  "status_of version boot ready busy permit =
     andThen version (\<lambda>v. andThen boot (\<lambda>b. andThen ready (\<lambda>r. andThen busy (\<lambda>u. andThen permit (\<lambda>p.
       Inr \<lparr>is_protocol_version = v, is_boot_id = b, is_ready = r, is_busy = u, is_permit = p\<rparr>)))))"

text \<open>The derived decoder takes an object, or an array of all five fields in order.\<close>

fun decode_status :: "json \<Rightarrow> string + idle_status" where
  "decode_status (JObj ms) =
     status_of (required ''protocol_version'' decode_u32 ms) (required ''boot_id'' decode_string ms)
       (required ''ready'' decode_bool ms) (required ''busy'' decode_bool ms)
       (field_of ''permit'' decode_optional (Inr None) ms)"
| "decode_status (JArr [v, b, r, u, p]) =
     status_of (decode_u32 v) (decode_string b) (decode_bool r) (decode_bool u) (decode_optional p)"
| "decode_status _ = Inl ''invalid type or length''"

section \<open>The backend\<close>

record backend =
  be_uid :: string
  be_ip :: ip_addr
  be_control_port :: u16
  be_url :: string

text \<open>The client of a backend resolves the hostname to the pod's address and the control port.\<close>

definition from_pod :: "json \<Rightarrow> config \<Rightarrow> ('s, backend) action" where
  "from_pod pod config =
     bind (lift (andThen (ok_or ''missing pod IP'' (as_text (index (index pod ''status'') ''podIP''))) parse_ip)) (\<lambda>ip.
     bind (lift (ok_or ''missing pod UID'' (as_text (index (index pod ''metadata'') ''uid'')))) (\<lambda>uid.
     bind build_client (\<lambda>_.
     ret \<lparr>be_uid = uid, be_ip = ip, be_control_port = cf_control_port config,
          be_url = ''https://'' @ cf_hostname config @ '':'' @ dec_nat (unat (cf_control_port config))\<rparr>)))"

definition control_request :: "backend \<Rightarrow> http_method \<Rightarrow> string \<Rightarrow> string \<Rightarrow> http_request" where
  "control_request backend verb resource token =
     \<lparr>rq_peer = WorkerAt (be_ip backend) (unat (be_control_port backend)), rq_method = verb,
      rq_url = be_url backend @ resource, rq_query = [], rq_content_type = None,
      rq_bearer = trim token, rq_body = None\<rparr>"

definition request :: "backend \<Rightarrow> http_method \<Rightarrow> string \<Rightarrow> config \<Rightarrow> ('s, http_response) action" where
  "request backend verb resource config =
     bind (read_to_string (cf_token_file config)) (\<lambda>token.
     bind (send (control_request backend verb resource token)) (\<lambda>reply. lift (error_for_status reply)))"

definition check_capability :: "idle_status \<Rightarrow> string + idle_status" where
  "check_capability status =
     (if is_protocol_version status \<noteq> 1 \<or> is_boot_id status = []
      then Inl ''unsupported idle-control capability'' else Inr status)"

definition backend_status :: "backend \<Rightarrow> bool \<Rightarrow> config \<Rightarrow> ('s, idle_status) action" where
  "backend_status backend suspend config =
     bind (request backend (if suspend then POST else GET) (if suspend then ''/suspend'' else ''/status'') config) (\<lambda>reply.
     bind (lift (andThen (json_body reply) decode_status)) (\<lambda>status. lift (check_capability status)))"

definition resume :: "backend \<Rightarrow> string \<Rightarrow> config \<Rightarrow> ('s, unit) action" where
  "resume backend permit config =
     bind (request backend POST (''/resume/'' @ permit) config) (\<lambda>_. ret ())"

definition ready :: "json \<Rightarrow> bool" where
  "ready pod \<longleftrightarrow> is_null (index (index pod ''metadata'') ''deletionTimestamp'') \<and>
     (case as_array (index (index pod ''status'') ''conditions'') of
        None \<Rightarrow> False
      | Some conditions \<Rightarrow> list_ex (\<lambda>c. eq_text (index c ''type'') ''Ready'' \<and> eq_text (index c ''status'') ''True'') conditions)"

section \<open>The readiness probe\<close>

definition loopback :: ip_addr where
  "loopback = V4 [127, 0, 0, 1]"

definition probe_request :: "string \<Rightarrow> nat \<Rightarrow> string \<Rightarrow> http_request" where
  "probe_request hostname port token =
     \<lparr>rq_peer = WorkerAt loopback port, rq_method = GET,
      rq_url = ''https://'' @ hostname @ '':'' @ dec_nat port @ ''/status'', rq_query = [],
      rq_content_type = None, rq_bearer = trim token, rq_body = None\<rparr>"

definition worker_ready :: "process \<Rightarrow> ('s, unit) action" where
  "worker_ready env =
     bind (lift (andThen (env_var env ''DUCKFLIGHT_IDLE_CONTROL_ADDRESS'') parse_socket_addr)) (\<lambda>address.
     bind (lift (env_var env ''DUCKFLIGHT_IDLE_SERVER_NAME'')) (\<lambda>hostname.
     bind (lift (andThen (read_file env ''/run/idle-secret/ca.crt'') (certificate_from_pem env))) (\<lambda>_.
     bind build_client (\<lambda>_.
     bind (lift (env_var env ''DUCKFLIGHT_IDLE_TOKEN_FILE'')) (\<lambda>token_file.
     bind (read_to_string token_file) (\<lambda>token.
     bind (send (probe_request hostname (socket_port address) token)) (\<lambda>reply.
     bind (lift (error_for_status reply)) (\<lambda>reply.
     bind (lift (andThen (json_body reply) decode_status)) (\<lambda>status.
     if is_protocol_version status \<noteq> 1 \<or> \<not> is_ready status
     then bail ''idle-capable listeners are not ready'' else ret ())))))))))"

section \<open>Lemmas: requests\<close>

text \<open>The path of a URL, and the requests that change the worker or put it to sleep.\<close>

definition url_path :: "string \<Rightarrow> string" where
  "url_path url = dropWhile (\<lambda>c. c \<noteq> CHR ''/'') (drop 8 url)"

definition to_worker :: "http_request \<Rightarrow> bool" where
  "to_worker rq \<longleftrightarrow> rq_peer rq \<noteq> KubeApi"

definition is_suspend :: "http_request \<Rightarrow> bool" where
  "is_suspend rq \<longleftrightarrow> to_worker rq \<and> rq_method rq = POST \<and> url_path (rq_url rq) = ''/suspend''"

definition is_resume :: "http_request \<Rightarrow> bool" where
  "is_resume rq \<longleftrightarrow> to_worker rq \<and> rq_method rq = POST \<and> take 8 (url_path (rq_url rq)) = ''/resume/''"

definition is_patch :: "http_request \<Rightarrow> bool" where
  "is_patch rq \<longleftrightarrow> rq_peer rq = KubeApi \<and> rq_method rq = PATCH"

definition is_sleep :: "http_request \<Rightarrow> bool" where
  "is_sleep rq \<longleftrightarrow> is_patch rq \<and> (\<exists>body. rq_body rq = Some body \<and> eq_int (patch_replicas body) 0)"

text \<open>A host name without a slash, and the address of a backend made with it.\<close>

definition hostname_ok :: "config \<Rightarrow> bool" where
  "hostname_ok config \<longleftrightarrow> CHR ''/'' \<notin> set (cf_hostname config)"

definition backend_of :: "config \<Rightarrow> backend \<Rightarrow> bool" where
  "backend_of config backend \<longleftrightarrow>
     be_url backend = ''https://'' @ cf_hostname config @ '':'' @ dec_nat (unat (cf_control_port config))"

lemma dec_nat_no_slash: "CHR ''/'' \<notin> set (dec_nat n)"
proof -
  have "byte_val (CHR ''/'') = 47" by (simp add: byte_val_def)
  then have "CHR ''/'' \<noteq> digit_char d" if "d < 10" for d
    using byte_val_digit [OF that] by (cases "CHR ''/'' = digit_char d") simp_all
  then show ?thesis
    by (induction n rule: dec_nat.induct) (subst dec_nat.simps, simp)
qed

lemma url_path_backend:
  assumes "hostname_ok config" "backend_of config backend" "resource \<noteq> []" "hd resource = CHR ''/''"
  shows "url_path (be_url backend @ resource) = resource"
proof -
  have "dropWhile (\<lambda>c. c \<noteq> CHR ''/'') ((cf_hostname config @ '':'' @ dec_nat (unat (cf_control_port config))) @ resource) =
      dropWhile (\<lambda>c. c \<noteq> CHR ''/'') resource"
    by (rule dropWhile_append2)
      (use assms(1) dec_nat_no_slash in \<open>auto simp: hostname_ok_def\<close>)
  also have "\<dots> = resource" using assms(3,4) by (cases resource) auto
  finally show ?thesis using assms(2) by (simp add: url_path_def backend_of_def)
qed

lemma http_get_kind [simp]:
  "\<not> is_suspend (http_get kube res q t)" "\<not> is_resume (http_get kube res q t)"
  "\<not> is_patch (http_get kube res q t)" "\<not> is_sleep (http_get kube res q t)"
  by (simp_all add: http_get_def is_suspend_def is_resume_def is_patch_def is_sleep_def to_worker_def)

lemma patch_request_kind [simp]:
  "\<not> is_suspend (patch_request kube body t)" "\<not> is_resume (patch_request kube body t)"
  "is_patch (patch_request kube body t)" "rq_body (patch_request kube body t) = Some body"
  "is_sleep (patch_request kube body t) \<longleftrightarrow> eq_int (patch_replicas body) 0"
  by (simp_all add: patch_request_def is_suspend_def is_resume_def is_patch_def is_sleep_def to_worker_def)

lemma control_request_kind [simp]:
  "\<not> is_patch (control_request b v res t)" "\<not> is_sleep (control_request b v res t)"
  "\<not> is_suspend (control_request b GET res t)" "\<not> is_resume (control_request b GET res t)"
  by (simp_all add: control_request_def is_suspend_def is_resume_def is_patch_def is_sleep_def)

lemma control_request_post:
  assumes "hostname_ok config" "backend_of config b"
  shows "is_suspend (control_request b POST ''/suspend'' t)"
    and "\<not> is_resume (control_request b POST ''/suspend'' t)"
    and "is_resume (control_request b POST (''/resume/'' @ p) t)"
    and "\<not> is_suspend (control_request b POST (''/resume/'' @ p) t)"
  using url_path_backend [OF assms, of "''/suspend''"] url_path_backend [OF assms, of "''/resume/'' @ p"]
  by (simp_all add: control_request_def is_suspend_def is_resume_def to_worker_def)

text \<open>Two requests in one: the token, then the exchange.\<close>

definition status_of_reply :: "string + http_response \<Rightarrow> string + idle_status" where
  "status_of_reply r = andThen (decoded r) (\<lambda>body. andThen (decode_status body) check_capability)"

lemma bind_Done [simp]:
  "bind (\<lambda>s. Done (Inl e, s)) f s = Done (Inl e, s)" "bind (\<lambda>s. Done (Inr x, s)) f s = f x s"
  by (simp_all add: bind_def)

text \<open>A token read, then one exchange whose reply is decoded by \<open>f\<close>.\<close>

definition exchange :: "string \<Rightarrow> (string \<Rightarrow> http_request) \<Rightarrow> (string + http_response \<Rightarrow> string + 'a) \<Rightarrow> ('s, 'a) action" where
  "exchange token_file rq f s = ReadFile token_file (\<lambda>tok. case tok of
     Inl e \<Rightarrow> Done (Inl (Error e), s)
   | Inr t \<Rightarrow> Http s (rq t) (\<lambda>r. Done (map_err Error (f r), s)))"

lemma exchange_lift:
  "bind (exchange tf rq f) (\<lambda>x. lift (g x)) = exchange tf rq (\<lambda>r. andThen (f r) g)"
proof -
  have step: "pbind (case tok of Inl e \<Rightarrow> Done (Inl (Error e), s) | Inr t \<Rightarrow> Http s (rq t) (\<lambda>r. Done (map_err Error (f r), s)))
      (\<lambda>(r, s'). case r of Inl e \<Rightarrow> Done (Inl e, s') | Inr x \<Rightarrow> lift (g x) s') =
    (case tok of Inl e \<Rightarrow> Done (Inl (Error e), s) | Inr t \<Rightarrow> Http s (rq t) (\<lambda>r. Done (map_err Error (andThen (f r) g), s)))"
    for tok s
  proof (cases tok)
    case (Inr t)
    have "(\<lambda>r. case map_err Error (f r) of Inl e \<Rightarrow> Done (Inl e, s) | Inr x \<Rightarrow> lift (g x) s) =
        (\<lambda>r. Done (map_err Error (andThen (f r) g), s))"
      by (rule ext) (simp add: andThen_def map_err_def lift_def split: sum.splits)
    with Inr show ?thesis by simp
  qed simp
  show ?thesis by (simp add: fun_eq_iff bind_def exchange_def step)
qed

lemma wp_exchange: "wp R I (exchange tf rq f s) Q w \<longleftrightarrow>
    (\<forall>tok w1. R w (EvRead tf tok) w1 \<longrightarrow>
       (case tok of Inl e \<Rightarrow> Q (Inl (Error e), s) w1
        | Inr t \<Rightarrow> I s (Some (rq t)) w1 \<and>
            (\<forall>r w2. R w1 (EvHttp (rq t) r) w2 \<longrightarrow> Q (map_err Error (f r), s) w2)))"
  by (auto simp: exchange_def split: sum.splits)

lemma bind_lift: "bind (lift x) (\<lambda>y. lift (g y)) = lift (andThen x g)"
  by (cases x) (simp_all add: fun_eq_iff bind_def lift_def)

lemma read_send_exchange:
  "(bind (read_to_string tf) (\<lambda>token. bind (send (rq token)) (\<lambda>reply. lift (h reply))) :: ('s, 'a) action) =
     exchange tf rq (\<lambda>r. andThen r h)"
proof (rule ext)
  fix s :: 's
  have "(\<lambda>r. case map_err Error r of Inl e \<Rightarrow> Done (Inl e, s) | Inr reply \<Rightarrow> lift (h reply) s) =
      (\<lambda>r. Done (map_err Error (andThen r h), s))"
    by (rule ext) (simp add: lift_def andThen_def map_err_def split: sum.splits)
  then have send: "bind (send q) (\<lambda>reply. lift (h reply)) s = Http s q (\<lambda>r. Done (map_err Error (andThen r h), s))" for q
    by (simp add: bind_def send_def)
  have "(\<lambda>r. case map_err Error r of Inl e \<Rightarrow> Done (Inl e, s)
      | Inr t \<Rightarrow> bind (send (rq t)) (\<lambda>reply. lift (h reply)) s) =
    (\<lambda>tok. case tok of Inl e \<Rightarrow> Done (Inl (Error e), s)
      | Inr t \<Rightarrow> Http s (rq t) (\<lambda>r. Done (map_err Error (andThen r h), s)))"
    by (rule ext) (simp add: send map_err_def split: sum.splits)
  then show "bind (read_to_string tf) (\<lambda>token. bind (send (rq token)) (\<lambda>reply. lift (h reply))) s =
      exchange tf rq (\<lambda>r. andThen r h) s"
    by (simp add: bind_def [where m = "read_to_string tf"] read_to_string_def exchange_def)
qed

lemma request_exchange:
  "request b v res config = exchange (cf_token_file config) (control_request b v res) (\<lambda>r. andThen r error_for_status)"
  unfolding request_def by (rule read_send_exchange)

lemma status_reply_eq:
  "andThen (andThen r error_for_status) (\<lambda>reply. andThen (andThen (json_body reply) decode_status) check_capability) =
     status_of_reply r"
proof (cases r)
  case (Inr reply)
  then show ?thesis
    by (cases "error_for_status reply") (auto simp: status_of_reply_def decoded_def andThen_def split: sum.splits)
qed (simp add: status_of_reply_def decoded_def)

lemma status_exchange:
  "backend_status b susp config = exchange (cf_token_file config)
     (control_request b (if susp then POST else GET) (if susp then ''/suspend'' else ''/status'')) status_of_reply"
proof -
  have check: "bind (lift (andThen (json_body reply) decode_status)) (\<lambda>st. lift (check_capability st)) =
      lift (andThen (andThen (json_body reply) decode_status) check_capability)" for reply
    by (cases "andThen (json_body reply) decode_status") (simp_all add: fun_eq_iff bind_def lift_def)
  show ?thesis
    by (simp add: backend_status_def request_exchange check exchange_lift status_reply_eq)
qed

lemma resume_exchange:
  "resume b permit config = exchange (cf_token_file config) (control_request b POST (''/resume/'' @ permit))
     (\<lambda>r. andThen (andThen r error_for_status) (\<lambda>_. Inr ()))"
proof -
  have unit: "ret () = lift (Inr ())" by (simp add: fun_eq_iff ret_def lift_def)
  show ?thesis by (simp add: resume_def unit request_exchange exchange_lift)
qed

section \<open>The status a worker reports\<close>

text \<open>The object a status is written as, its members in any order of the wire.\<close>

definition status_members :: "idle_status \<Rightarrow> (string \<times> json) list" where
  "status_members st = [(''protocol_version'', JNum (PosInt (unat (is_protocol_version st)))),
     (''boot_id'', JStr (is_boot_id st)), (''ready'', JBool (is_ready st)), (''busy'', JBool (is_busy st)),
     (''permit'', case is_permit st of None \<Rightarrow> JNull | Some p \<Rightarrow> JStr p)]"

lemma decode_fields:
  "decode_u32 (JNum (PosInt (unat v))) = Inr v" "decode_string (JStr s) = Inr s" "decode_bool (JBool b) = Inr b"
  "decode_optional (case p of None \<Rightarrow> JNull | Some t \<Rightarrow> JStr t) = Inr p"
proof -
  have "unat v < 2 ^ 32" using unsigned_less [of v, where 'a = nat] by simp
  then show "decode_u32 (JNum (PosInt (unat v))) = Inr v" by (simp add: decode_u32_def)
qed (simp_all add: decode_string_def decode_bool_def decode_optional_def split: option.splits)

text \<open>A decoder finds a field wherever it stands, when no key is written twice.\<close>

lemma field_of_distinct:
  assumes "distinct (map fst members)" "(name, v) \<in> set members"
  shows "field_of name decode missing members = decode v"
proof -
  have "filter (\<lambda>m. fst m = name) members = [(name, v)]"
    using assms
  proof (induction members)
    case (Cons m members)
    show ?case
    proof (cases "m = (name, v)")
      case True
      with Cons.prems have "filter (\<lambda>m. fst m = name) members = []" by (auto simp: filter_empty_conv image_iff)
      with True show ?thesis by simp
    next
      case False
      with Cons.prems have "(name, v) \<in> set members" "fst m \<noteq> name" by (auto simp: rev_image_eqI)
      with Cons show ?thesis by simp
    qed
  qed simp
  then show ?thesis by (simp add: field_of_def)
qed

lemma decode_status_members:
  assumes "mset members = mset (status_members st)"
  shows "decode_status (JObj members) = Inr st"
proof -
  have s: "set members = set (status_members st)" using assms by (rule mset_eq_setD)
  have "mset (map fst members) = mset (map fst (status_members st))" using assms by simp
  moreover have "distinct (map fst (status_members st))" by (simp add: status_members_def)
  ultimately have d: "distinct (map fst members)" by (metis mset_eq_imp_distinct_iff)
  note field = field_of_distinct [OF d, unfolded s]
  show ?thesis
    by (simp add: required_def field [where v = "JNum (PosInt (unat (is_protocol_version st)))"]
        field [where v = "JStr (is_boot_id st)"] field [where v = "JBool (is_ready st)" and name = "''ready''"]
        field [where v = "JBool (is_busy st)" and name = "''busy''"]
        field [where v = "case is_permit st of None \<Rightarrow> JNull | Some p \<Rightarrow> JStr p"]
        status_members_def decode_fields status_of_def)
qed

section \<open>The probe as one exchange\<close>

definition check_ready :: "idle_status \<Rightarrow> string + unit" where
  "check_ready status = (if is_protocol_version status \<noteq> 1 \<or> \<not> is_ready status
     then Inl ''idle-capable listeners are not ready'' else Inr ())"

definition probe_of_reply :: "string + http_response \<Rightarrow> string + unit" where
  "probe_of_reply r = andThen (andThen (decoded r) decode_status) check_ready"

lemma check_lift: "(if is_protocol_version status \<noteq> 1 \<or> \<not> is_ready status
    then bail ''idle-capable listeners are not ready'' else ret ()) = lift (check_ready status)"
  by (simp add: fun_eq_iff check_ready_def bail_def fail_def ret_def lift_def)

lemma probe_exchange:
  "bind (read_to_string tf) (\<lambda>token. bind (send (rq token)) (\<lambda>reply.
     bind (lift (error_for_status reply)) (\<lambda>reply.
     bind (lift (andThen (json_body reply) decode_status)) (\<lambda>status.
     if is_protocol_version status \<noteq> 1 \<or> \<not> is_ready status
     then bail ''idle-capable listeners are not ready'' else ret ())))) =
   exchange tf rq probe_of_reply"
proof -
  have "(\<lambda>r. andThen r (\<lambda>reply. andThen (error_for_status reply)
      (\<lambda>reply. andThen (andThen (json_body reply) decode_status) check_ready))) = probe_of_reply"
    by (rule ext) (simp add: probe_of_reply_def decoded_def andThen_def split: sum.splits)
  then show ?thesis by (simp only: check_lift bind_lift read_send_exchange)
qed

lemma map_err_Inr [simp]: "Inr x = map_err Error r \<longleftrightarrow> r = Inr x"
  by (cases r) auto

lemma runs_exchange_ok:
  "runs (exchange tf rq f s) es (Inr x, s') \<Longrightarrow>
     \<exists>t r. es = [EvRead tf (Inr t), EvHttp (rq t) r] \<and> f r = Inr x"
  by (auto simp: exchange_def split: sum.splits)

end
