(* ===== verification/Controller.thy ===== *)
theory Controller
  imports Backend
begin

text \<open>
  The controller that puts the worker to sleep and wakes it (\<open>impl Controller\<close> of
  \<open>main.rs\<close>): its fields, the guarded reads and writes of the Deployment, and the two
  procedures \<open>wake\<close> and \<open>idle_tick\<close>. An \<open>Instant\<close> is a number of milliseconds; adding
  a timeout that leaves its range panics, as in the code. The loop of \<open>wake\<close> takes fuel;
  \<open>Controller_Progress\<close> shows how much is enough.
\<close>

type_synonym instant = nat

record controller =
  ct_config :: config
  ct_kube :: kubernetes
  ct_owner :: string
  ct_uid :: string
  ct_needs_fence :: bool
  ct_connections :: nat
  ct_idle_since :: "(string \<times> string \<times> instant) option"

type_synonym 'a controlled = "(controller, 'a) action"

definition set_needs_fence :: "bool \<Rightarrow> unit controlled" where
  "set_needs_fence b = modify (\<lambda>s. s\<lparr>ct_needs_fence := b\<rparr>)"

definition set_idle_since :: "(string \<times> string \<times> instant) option \<Rightarrow> unit controlled" where
  "set_idle_since x = modify (\<lambda>s. s\<lparr>ct_idle_since := x\<rparr>)"

definition deployment_uid :: "json \<Rightarrow> json" where
  "deployment_uid v = index (index v ''metadata'') ''uid''"

definition deployment_owner :: "json \<Rightarrow> json" where
  "deployment_owner v = index (index (index v ''metadata'') ''annotations'') OWNER_ANNOTATION"

definition deployment_replicas :: "json \<Rightarrow> json" where
  "deployment_replicas v = index (index v ''spec'') ''replicas''"

section \<open>Guarded reads and writes\<close>

definition current :: "json controlled" where
  "current =
     bind (gets ct_kube) (\<lambda>kube.
     bind (kube_deployment kube) (\<lambda>deployment.
     bind (gets id) (\<lambda>self.
     if \<not> eq_text (deployment_uid deployment) (ct_uid self)
     then bail ''worker Deployment was replaced; restart proxy''
     else if \<not> ct_needs_fence self \<and> \<not> eq_text (deployment_owner deployment) (ct_owner self)
     then bail ''another controller owns this worker Deployment; restart proxy''
     else ret deployment)))"

text \<open>The write both fencing and scaling make: a fresh operation id, then the patch.\<close>

definition guarded_patch :: "json \<Rightarrow> u32 option \<Rightarrow> unit controlled" where
  "guarded_patch deployment replicas =
     bind (set_needs_fence True) (\<lambda>_.
     bind (gets id) (\<lambda>self.
     bind new_uuid (\<lambda>operation.
     bind (kube_patch (ct_kube self) deployment (ct_owner self) operation replicas) (\<lambda>_.
     set_needs_fence False))))"

definition fence :: "unit controlled" where
  "fence = bind current (\<lambda>deployment. guarded_patch deployment None)"

definition scale :: "json \<Rightarrow> u32 \<Rightarrow> unit controlled" where
  "scale deployment replicas = guarded_patch deployment (Some replicas)"

definition ready_backend :: "backend option controlled" where
  "ready_backend =
     bind (gets id) (\<lambda>self.
     bind (kube_pods (ct_kube self)) (\<lambda>pods.
     if length pods \<noteq> 1 then ret None
     else let ready_pods = filter ready pods in
       if 1 < length ready_pods then bail ''idle mode requires exactly one worker''
       else case ready_pods of
           [] \<Rightarrow> ret None
         | pod # _ \<Rightarrow> bind (from_pod pod (ct_config self)) (\<lambda>backend. ret (Some backend))))"

section \<open>Wake\<close>

text \<open>The end of the range of an instant: 63 bits of seconds.\<close>

definition instant_limit :: nat where
  "instant_limit = 2 ^ 63 * 1000"

definition add_duration :: "instant \<Rightarrow> duration \<Rightarrow> instant controlled" where
  "add_duration t d =
     (if t + d < instant_limit then ret (t + d)
      else fail (Panicked ''overflow when adding duration to instant''))"

text \<open>
  One round of the loop; \<open>None\<close> means sleep and try again. With no replica a pod that is
  being deleted may still accept sockets, so the worker is started only when all are gone.
\<close>

definition start_worker :: "kubernetes \<Rightarrow> json \<Rightarrow> backend option controlled" where
  "start_worker kube deployment =
     bind (kube_pods kube) (\<lambda>pods.
     bind (only_if (pods = []) (scale deployment 1)) (\<lambda>_. ret None))"

definition release_permit :: "backend \<Rightarrow> config \<Rightarrow> idle_status \<Rightarrow> unit controlled" where
  "release_permit backend config status =
     (case is_permit status of None \<Rightarrow> ret () | Some permit \<Rightarrow> resume backend permit config)"

definition attach_worker :: "config \<Rightarrow> backend option controlled" where
  "attach_worker config =
     bind ready_backend (\<lambda>found.
     case found of
       None \<Rightarrow> ret None
     | Some backend \<Rightarrow>
         bind (backend_status backend False config) (\<lambda>status.
         bind (release_permit backend config status) (\<lambda>_. ret (Some backend))))"

definition wake_step :: "kubernetes \<Rightarrow> config \<Rightarrow> json \<Rightarrow> backend option controlled" where
  "wake_step kube config deployment =
     (case as_u64 (deployment_replicas deployment) of
        Some 0 \<Rightarrow> start_worker kube deployment
      | Some (Suc 0) \<Rightarrow> attach_worker config
      | _ \<Rightarrow> bail ''idle mode requires worker replicas to be zero or one'')"

definition wake_round :: "instant \<Rightarrow> backend option controlled" where
  "wake_round deadline =
     bind now (\<lambda>t.
     if deadline \<le> t then bail ''DuckFlight cold start timed out''
     else
     bind (gets id) (\<lambda>self.
     bind (only_if (ct_needs_fence self) fence) (\<lambda>_.
     bind current (\<lambda>deployment. wake_step (ct_kube self) (ct_config self) deployment))))"

fun wake_loop :: "nat \<Rightarrow> instant \<Rightarrow> backend controlled" where
  "wake_loop 0 deadline = fail OutOfFuel"
| "wake_loop (Suc fuel) deadline =
     bind (wake_round deadline) (\<lambda>found.
     case found of
       Some backend \<Rightarrow> ret backend
     | None \<Rightarrow> bind (sleep 500) (\<lambda>_. wake_loop fuel deadline))"

definition wake :: "nat \<Rightarrow> backend controlled" where
  "wake fuel =
     bind (set_idle_since None) (\<lambda>_.
     bind now (\<lambda>t.
     bind (gets ct_config) (\<lambda>config.
     bind (add_duration t (cf_cold_start_timeout config)) (\<lambda>deadline. wake_loop fuel deadline))))"

section \<open>Idle tick\<close>

text \<open>Since when this boot of this worker has been seen idle.\<close>

definition observe_idle :: "backend \<Rightarrow> idle_status \<Rightarrow> instant controlled" where
  "observe_idle backend status =
     bind (gets ct_idle_since) (\<lambda>seen.
     let fresh = bind now (\<lambda>t.
         bind (set_idle_since (Some (be_uid backend, is_boot_id status, t))) (\<lambda>_. ret t))
     in case seen of
          Some (uid, boot, since) \<Rightarrow> if uid = be_uid backend \<and> boot = is_boot_id status then ret since else fresh
        | None \<Rightarrow> fresh)"

text \<open>
  The write that puts the worker to sleep. The core's gate stays closed through deletion; when
  the outcome is not known, the worker is resumed only after a fence and only if it remains.
\<close>

definition recover_worker :: "backend \<Rightarrow> string \<Rightarrow> string \<Rightarrow> unit controlled" where
  "recover_worker backend permit error =
     bind fence (\<lambda>_.
     bind current (\<lambda>observed.
     bind (gets ct_config) (\<lambda>config.
     bind (only_if (eq_int (deployment_replicas observed) 1) (resume backend permit config)) (\<lambda>_.
     bail error))))"

definition put_to_sleep :: "json \<Rightarrow> backend \<Rightarrow> string \<Rightarrow> unit controlled" where
  "put_to_sleep deployment backend permit =
     matching (scale deployment 0) (\<lambda>outcome.
     case outcome of
       Inr _ \<Rightarrow> set_idle_since None
     | Inl error \<Rightarrow> recover_worker backend permit error)"

text \<open>What the reply to the suspension allows.\<close>

definition after_suspension :: "json \<Rightarrow> backend \<Rightarrow> idle_status \<Rightarrow> idle_status \<Rightarrow> unit controlled" where
  "after_suspension deployment backend status suspended =
     (case is_permit suspended of
        None \<Rightarrow> set_idle_since None
      | Some permit \<Rightarrow>
          if is_busy suspended \<or> is_boot_id suspended \<noteq> is_boot_id status
          then bail ''worker changed during idle suspension''
          else put_to_sleep deployment backend permit)"

definition suspend_idle :: "json \<Rightarrow> backend \<Rightarrow> idle_status \<Rightarrow> unit controlled" where
  "suspend_idle deployment backend status =
     bind (observe_idle backend status) (\<lambda>since.
     bind now (\<lambda>t.
     bind (gets ct_config) (\<lambda>config.
     if t - since < cf_idle_timeout config then ret ()
     else bind (backend_status backend True config) (after_suspension deployment backend status))))"

text \<open>
  A worker that holds a permit is recovered first: the fence before it made every delayed
  sleep write stale. Otherwise an idle one may be suspended.
\<close>

definition idle_backend :: "config \<Rightarrow> json \<Rightarrow> backend \<Rightarrow> unit controlled" where
  "idle_backend config deployment backend =
     bind (backend_status backend False config) (\<lambda>status.
     case is_permit status of
       Some permit \<Rightarrow> bind (resume backend permit config) (\<lambda>_. set_idle_since None)
     | None \<Rightarrow>
         if is_busy status then set_idle_since None
         else suspend_idle deployment backend status)"

definition idle_deployment :: "config \<Rightarrow> json \<Rightarrow> unit controlled" where
  "idle_deployment config deployment =
     (if eq_int (deployment_replicas deployment) 0 then set_idle_since None
      else if \<not> eq_int (deployment_replicas deployment) 1
      then bail ''idle mode requires exactly one worker''
      else
      bind ready_backend (\<lambda>found.
      case found of
        None \<Rightarrow> set_idle_since None
      | Some backend \<Rightarrow> idle_backend config deployment backend))"

definition idle_tick :: "unit controlled" where
  "idle_tick =
     bind (gets id) (\<lambda>self.
     bind (only_if (ct_needs_fence self) fence) (\<lambda>_.
     if 0 < ct_connections self then set_idle_since None
     else bind current (idle_deployment (ct_config self))))"

section \<open>A new controller\<close>

definition controller_new :: "process \<Rightarrow> config \<Rightarrow> (unit, controller) action" where
  "controller_new env config =
     bind (lift (kubernetes_new env config)) (\<lambda>kube.
     bind (kube_deployment kube) (\<lambda>deployment.
     bind (lift (ok_or ''missing deployment UID'' (as_text (deployment_uid deployment)))) (\<lambda>uid.
     bind new_uuid (\<lambda>owner.
     bind (owning \<lparr>ct_config = config, ct_kube = kube, ct_owner = owner, ct_uid = uid,
             ct_needs_fence = True, ct_connections = 0, ct_idle_since = None\<rparr> fence) (\<lambda>(_, controller).
     ret controller)))))"

lemmas controller_defs = current_def guarded_patch_def fence_def scale_def ready_backend_def
  start_worker_def release_permit_def attach_worker_def wake_step_def wake_round_def wake_def observe_idle_def recover_worker_def put_to_sleep_def after_suspension_def suspend_idle_def idle_backend_def
  idle_deployment_def idle_tick_def

end
