(* ===== verification/Controller_Fields.thy ===== *)
theory Controller_Fields
  imports Controller
begin

text \<open>
  What the controller's procedures do to its own fields, whatever the world answers: none
  changes the configuration, the identity or the number of connections, at any await or at
  the end, and a backend is returned only once no fence is owed.
\<close>

text \<open>What a procedure leaves alone.\<close>

definition same_identity :: "controller \<Rightarrow> controller \<Rightarrow> bool" where
  "same_identity s s' \<longleftrightarrow> ct_config s' = ct_config s \<and> ct_kube s' = ct_kube s \<and>
     ct_owner s' = ct_owner s \<and> ct_uid s' = ct_uid s \<and> ct_connections s' = ct_connections s"

lemma same_identity_simps [simp]:
  "same_identity s s" "same_identity s (s\<lparr>ct_needs_fence := b\<rparr>)" "same_identity s (s\<lparr>ct_idle_since := i\<rparr>)"
  by (simp_all add: same_identity_def)

lemma same_identity_trans: "same_identity s t \<Longrightarrow> same_identity t u \<Longrightarrow> same_identity s u"
  by (simp add: same_identity_def)

text \<open>
  \<open>keeps P m\<close>: the relation \<open>P\<close> (reflexive and transitive below) holds from the fields
  \<open>m\<close> starts with to those it has at every await and at its end.
\<close>

definition keeps :: "('s \<Rightarrow> 's \<Rightarrow> bool) \<Rightarrow> ('s, 'a) action \<Rightarrow> bool" where
  "keeps P m \<longleftrightarrow> (\<forall>s. wp anyhow (\<lambda>s' _ _. P s s') (m s) (\<lambda>(r, s') _. P s s') ())"

definition preorder :: "('s \<Rightarrow> 's \<Rightarrow> bool) \<Rightarrow> bool" where
  "preorder P \<longleftrightarrow> (\<forall>s. P s s) \<and> (\<forall>s t u. P s t \<longrightarrow> P t u \<longrightarrow> P s u)"

lemma preorder_refl: "preorder P \<Longrightarrow> P s s"
  by (simp add: preorder_def)

lemma preorder_trans: "preorder P \<Longrightarrow> P s t \<Longrightarrow> P t u \<Longrightarrow> P s u"
  by (auto simp: preorder_def)

lemma keeps_from:
  assumes "preorder P" "keeps P m" "P s t"
  shows "wp anyhow (\<lambda>s' _ _. P s s') (m t) (\<lambda>(r, s') _. P s s') ()"
proof -
  have "wp anyhow (\<lambda>s' _ _. P t s') (m t) (\<lambda>(r, s') _. P t s') ()"
    using assms(2) by (simp add: keeps_def)
  then have "wp anyhow (\<lambda>s' _ _. P s s') (m t) (\<lambda>(r, s') _. P t s') ()"
    using wp_await [of "\<lambda>s' _ _. P t s'" "\<lambda>s' _ _. P s s'" anyhow "m t"] preorder_trans [OF assms(1,3)]
    by simp
  then show ?thesis
    by (rule wp_mono) (use preorder_trans [OF assms(1,3)] in auto)
qed

lemma keeps_basic:
  assumes "preorder P"
  shows "keeps P (ret x)" "keeps P (fail e)" "keeps P (bail m)" "keeps P (lift r)" "keeps P (gets f)"
    "keeps P (read_to_string path)" "keeps P (send rq)" "keeps P build_client" "keeps P new_uuid"
    "keeps P now" "keeps P (sleep d)"
  by (simp_all add: keeps_def read_to_string_def send_def build_client_def new_uuid_def now_def sleep_def
      preorder_refl [OF assms])

lemma keeps_bind:
  assumes "preorder P" "keeps P m" "\<And>x. keeps P (f x)"
  shows "keeps P (bind m f)"
  unfolding keeps_def
proof
  fix s
  show "wp anyhow (\<lambda>s' _ _. P s s') (bind m f s) (\<lambda>(r, s') _. P s s') ()"
  proof (rule wp_seq_post [where P = "\<lambda>r s' _. P s s'"])
    show "wp anyhow (\<lambda>s' _ _. P s s') (m s) (\<lambda>(r, s') _. P s s') ()"
      using assms(2) by (simp add: keeps_def)
  next
    fix x s' and w :: unit
    assume "P s s'"
    then show "wp anyhow (\<lambda>s' _ _. P s s') (f x s') (\<lambda>(r, s') _. P s s') w"
      using keeps_from [OF assms(1,3)] by (cases w) simp
  qed
qed

lemma keeps_matching:
  assumes "preorder P" "keeps P m" "\<And>x. keeps P (f x)"
  shows "keeps P (matching m f)"
  unfolding keeps_def
proof
  fix s
  show "wp anyhow (\<lambda>s' _ _. P s s') (matching m f s) (\<lambda>(r, s') _. P s s') ()"
  proof (rule wp_try [where P = "\<lambda>r s' _. P s s'"])
    show "wp anyhow (\<lambda>s' _ _. P s s') (m s) (\<lambda>(r, s') _. P s s') ()"
      using assms(2) by (simp add: keeps_def)
  qed (use keeps_from [OF assms(1,3)] in \<open>simp_all\<close>)
qed

lemma keeps_only_if: "preorder P \<Longrightarrow> keeps P m \<Longrightarrow> keeps P (only_if b m)"
  by (simp add: only_if_def keeps_basic)

lemma keeps_runs: "keeps P m \<Longrightarrow> runs (m s) es (r, s') \<Longrightarrow> P s s'"
  using anyhow_runs [of "\<lambda>s' _ _. P s s'" "m s" "\<lambda>(r, s') _. P s s'" es "(r, s')"] by (simp add: keeps_def)

lemma keeps_suspends: "keeps P m \<Longrightarrow> suspends (m s) es s' q \<Longrightarrow> P s s'"
  using anyhow_suspends [of "\<lambda>s' _ _. P s s'" "m s" "\<lambda>(r, s') _. P s s'" es s' q] by (simp add: keeps_def)

lemmas keeps_rules = keeps_basic keeps_bind keeps_matching keeps_only_if

section \<open>Requests leave every field alone\<close>

lemma keeps_kube:
  assumes "preorder P"
  shows "keeps P (kube_deployment kube)" "keeps P (kube_pods kube)"
    "keeps P (kube_patch kube deployment owner operation replicas)"
  unfolding kube_deployment_def kube_pods_def kube_patch_def fetch_def
  by (intro keeps_rules assms)+

lemma keeps_backend:
  assumes "preorder P"
  shows "keeps P (from_pod pod config)" "keeps P (backend_status b susp config)"
    "keeps P (resume b permit config)"
  unfolding from_pod_def backend_status_def resume_def request_def
  by (intro keeps_rules assms)+

section \<open>Identity\<close>

lemma preorder_identity: "preorder same_identity"
  by (auto simp: preorder_def intro: same_identity_trans)

lemmas identity_rules = keeps_rules [OF preorder_identity] keeps_kube [OF preorder_identity]
  keeps_backend [OF preorder_identity]

lemma identity_setters: "keeps same_identity (set_needs_fence b)" "keeps same_identity (set_idle_since x)"
  by (simp_all add: keeps_def set_needs_fence_def set_idle_since_def)

lemma identity_current: "keeps same_identity current"
  unfolding current_def by (auto intro!: identity_rules)

lemma identity_patch: "keeps same_identity (guarded_patch deployment replicas)"
  unfolding guarded_patch_def by (intro identity_rules identity_setters)

lemma identity_fence: "keeps same_identity fence"
  unfolding fence_def by (intro identity_rules identity_current identity_patch)

lemma identity_scale: "keeps same_identity (scale deployment n)"
  unfolding scale_def by (rule identity_patch)

lemma identity_ready_backend: "keeps same_identity ready_backend"
  unfolding ready_backend_def by (auto simp: Let_def intro!: identity_rules split: list.splits)

lemma identity_wake_step: "keeps same_identity (wake_step kube config deployment)"
  unfolding wake_step_def start_worker_def attach_worker_def release_permit_def
  by (auto intro!: identity_rules identity_scale identity_ready_backend split: option.splits nat.splits)

lemma identity_wake_round: "keeps same_identity (wake_round deadline)"
  unfolding wake_round_def
  by (auto intro!: identity_rules identity_fence identity_current identity_wake_step)

lemma identity_wake_loop: "keeps same_identity (wake_loop fuel deadline)"
  by (induction fuel) (auto intro!: identity_rules identity_wake_round split: option.splits)

lemma identity_wake: "keeps same_identity (wake fuel)"
  unfolding wake_def add_duration_def
  by (auto intro!: identity_rules identity_setters identity_wake_loop)

lemma identity_idle_tick: "keeps same_identity idle_tick"
proof -
  note rules = identity_rules identity_setters identity_fence identity_current identity_scale identity_ready_backend
  have "keeps same_identity (put_to_sleep deployment b permit)" for deployment b permit
    unfolding put_to_sleep_def recover_worker_def by (auto intro!: rules split: sum.splits)
  then have "keeps same_identity (suspend_idle deployment b st)" for deployment b st
    unfolding suspend_idle_def observe_idle_def after_suspension_def
    by (auto simp: Let_def intro!: rules split: option.splits prod.splits)
  then have "keeps same_identity (idle_deployment config deployment)" for config deployment
    unfolding idle_deployment_def idle_backend_def by (auto intro!: rules split: option.splits)
  then show ?thesis unfolding idle_tick_def by (auto intro!: rules)
qed

section \<open>Results\<close>

text \<open>\<open>ends Q m\<close>: whatever the fields and the world, \<open>m\<close> ends with \<open>Q\<close>.\<close>

definition ends :: "(perror + 'a \<Rightarrow> 's \<Rightarrow> bool) \<Rightarrow> ('s, 'a) action \<Rightarrow> bool" where
  "ends Q m \<longleftrightarrow> (\<forall>s. wp anyhow (\<lambda>_ _ _. True) (m s) (\<lambda>(r, s') _. Q r s') ())"

lemma ends_true: "wp anyhow (\<lambda>_ _ _. True) t (\<lambda>_ _. True) w"
  by (induction t arbitrary: w) simp_all

lemma ends_bind:
  assumes "\<And>x. ends Q (f x)" "\<And>e s. Q (Inl e) s"
  shows "ends Q (bind m f)"
  unfolding ends_def
proof
  fix s
  show "wp anyhow (\<lambda>_ _ _. True) (bind m f s) (\<lambda>(r, s') _. Q r s') ()"
  proof (rule wp_seq_post [where P = "\<lambda>_ _ _. True"])
    show "wp anyhow (\<lambda>_ _ _. True) (m s) (\<lambda>(r, s') _. True) ()"
      using ends_true [of "m s" "()"] by (simp add: case_prod_unfold)
  next
    fix x s' and w :: unit
    show "wp anyhow (\<lambda>_ _ _. True) (f x s') (\<lambda>(r, s') _. Q r s') w"
      using assms(1) by (cases w) (simp add: ends_def)
  qed (use assms(2) in simp)
qed

lemma ends_runs: "ends Q m \<Longrightarrow> runs (m s) es (r, s') \<Longrightarrow> Q r s'"
  using anyhow_runs [of "\<lambda>_ _ _. True" "m s" "\<lambda>(r, s') _. Q r s'" es "(r, s')"] by (simp add: ends_def)

definition unfenced :: "perror + 'a \<Rightarrow> controller \<Rightarrow> bool" where
  "unfenced r s \<longleftrightarrow> is_ok r \<longrightarrow> \<not> ct_needs_fence s"

lemma unfenced_Inl [simp]: "unfenced (Inl e) s"
  by (simp add: unfenced_def is_ok_def)

lemma patch_unfenced: "ends unfenced (guarded_patch deployment replicas)"
  unfolding guarded_patch_def
  by (intro ends_bind) (simp_all add: ends_def set_needs_fence_def unfenced_def)

lemma fence_unfenced: "ends unfenced fence"
  unfolding fence_def by (intro ends_bind patch_unfenced) simp

lemma scale_unfenced: "ends unfenced (scale deployment n)"
  unfolding scale_def by (rule patch_unfenced)

text \<open>A round of the loop that finds a backend owes no fence; one that starts the worker finds none.\<close>

definition found_unfenced :: "perror + 'a option \<Rightarrow> controller \<Rightarrow> bool" where
  "found_unfenced r s \<longleftrightarrow> (\<forall>b. r = Inr (Some b) \<longrightarrow> \<not> ct_needs_fence s)"

lemma found_unfenced_Inl [simp]: "found_unfenced (Inl e) s"
  by (simp add: found_unfenced_def)

lemma preorder_eq: "preorder (\<lambda>s t. t = s)"
  by (simp add: preorder_def)

lemmas frame_rules = keeps_rules [OF preorder_eq] keeps_kube [OF preorder_eq] keeps_backend [OF preorder_eq]

lemma frame_current: "keeps (\<lambda>s t. t = s) current"
  unfolding current_def by (auto intro!: frame_rules)

lemma frame_attach_worker: "keeps (\<lambda>s t. t = s) (attach_worker config)"
  unfolding attach_worker_def ready_backend_def release_permit_def
  by (auto simp: Let_def intro!: frame_rules split: option.splits list.splits)

lemma start_worker_found: "ends found_unfenced (start_worker kube deployment)"
  unfolding start_worker_def by (intro ends_bind) (simp_all add: ends_def found_unfenced_def)

lemma wake_step_found:
  assumes "\<not> ct_needs_fence s"
  shows "wp anyhow (\<lambda>_ _ _. True) (wake_step kube config deployment s) (\<lambda>(r, s') _. found_unfenced r s') ()"
proof -
  have "wp anyhow (\<lambda>s' _ _. s' = s) (attach_worker config s) (\<lambda>(r, s') _. s' = s) ()"
    using frame_attach_worker [of config] by (simp add: keeps_def)
  then have "wp anyhow (\<lambda>_ _ _. True) (attach_worker config s) (\<lambda>(r, s') _. s' = s) ()"
    using wp_await [of "\<lambda>s' _ _. s' = s" "\<lambda>_ _ _. True" anyhow "attach_worker config s"] by simp
  then have "wp anyhow (\<lambda>_ _ _. True) (attach_worker config s) (\<lambda>(r, s') _. found_unfenced r s') ()"
    by (rule wp_mono) (use assms in \<open>auto simp: found_unfenced_def\<close>)
  then show ?thesis
    using start_worker_found [of kube deployment]
    by (auto simp: wake_step_def ends_def found_unfenced_def split: option.splits nat.splits)
qed

lemma wake_round_found: "ends found_unfenced (wake_round deadline)"
proof -
  let ?step = "\<lambda>self. bind current (\<lambda>deployment. wake_step (ct_kube self) (ct_config self) deployment)"
  have step: "wp anyhow (\<lambda>_ _ _. True) (?step self s) (\<lambda>(r, s') _. found_unfenced r s') w"
    if "\<not> ct_needs_fence s" for self s w
  proof (rule wp_seq_post [where P = "\<lambda>_ s' _. s' = s"])
    have "wp anyhow (\<lambda>s' _ _. s' = s) (current s) (\<lambda>(r, s') _. s' = s) ()"
      using frame_current by (simp add: keeps_def)
    then show "wp anyhow (\<lambda>_ _ _. True) (current s) (\<lambda>(r, s') _. s' = s) w"
      using wp_await [of "\<lambda>s' _ _. s' = s" "\<lambda>_ _ _. True" anyhow "current s"] by (cases w) simp
  next
    fix deployment s' and w :: unit
    assume "s' = s"
    with that show "wp anyhow (\<lambda>_ _ _. True) (wake_step (ct_kube self) (ct_config self) deployment s')
        (\<lambda>(r, s') _. found_unfenced r s') w"
      using wake_step_found by (cases w) simp
  qed (simp add: found_unfenced_def)
  have fenced: "wp anyhow (\<lambda>_ _ _. True) (bind (only_if (ct_needs_fence s) fence) (\<lambda>_. ?step s) s)
      (\<lambda>(r, s') _. found_unfenced r s') w" for s w
  proof (rule wp_seq_post [where P = "\<lambda>r s' _. unfenced r s'"])
    show "wp anyhow (\<lambda>_ _ _. True) (only_if (ct_needs_fence s) fence s) (\<lambda>(r, s') _. unfenced r s') w"
      using fence_unfenced by (cases w) (simp add: ends_def only_if_def unfenced_def)
  qed (auto simp: unfenced_def is_ok_def intro: step)
  show ?thesis
    unfolding wake_round_def
    by (intro ends_bind) (simp_all add: ends_def wp_bind [where m = "gets f" for f] fenced)
qed

lemma wake_loop_unfenced: "ends unfenced (wake_loop fuel deadline)"
proof (induction fuel)
  case (Suc fuel)
  show ?case
    unfolding ends_def wake_loop.simps
  proof
    fix s
    show "wp anyhow (\<lambda>_ _ _. True) (bind (wake_round deadline) (\<lambda>found. case found of
        Some backend \<Rightarrow> ret backend | None \<Rightarrow> bind (sleep 500) (\<lambda>_. wake_loop fuel deadline)) s)
        (\<lambda>(r, s') _. unfenced r s') ()"
    proof (rule wp_seq_post [where P = "\<lambda>r s' _. found_unfenced r s'"])
      show "wp anyhow (\<lambda>_ _ _. True) (wake_round deadline s) (\<lambda>(r, s') _. found_unfenced r s') ()"
        using wake_round_found by (simp add: ends_def)
    next
      fix found s' and w :: unit
      assume *: "found_unfenced (Inr found :: perror + backend option) s'"
      have "ends unfenced (bind (sleep 500) (\<lambda>_. wake_loop fuel deadline))"
        using Suc by (intro ends_bind) simp_all
      with * show "wp anyhow (\<lambda>_ _ _. True) ((case found of Some backend \<Rightarrow> ret backend
          | None \<Rightarrow> bind (sleep 500) (\<lambda>_. wake_loop fuel deadline)) s') (\<lambda>(r, s') _. unfenced r s') w"
        by (cases w; cases found) (simp_all add: ends_def found_unfenced_def unfenced_def)
    qed simp
  qed
qed (simp add: ends_def)

lemma wake_unfenced: "ends unfenced (wake fuel)"
  unfolding wake_def by (intro ends_bind wake_loop_unfenced) simp_all

end
