(* ===== verification/Controller_Fencing.thy ===== *)
theory Controller_Fencing
  imports Controller_Fields
begin

text \<open>
  Why the controller never puts a worker to sleep that has been resumed. The world outside
  is any that meets the locale \<open>idle_world\<close>: \<open>danger\<close> says that a sleep write still in
  flight would be applied if it arrived, \<open>closed\<close> that the worker admits no session,
  \<open>safe\<close> that no write has put an admitting worker to sleep and that none in flight can.
  Its laws are optimistic concurrency (a successful patch makes every earlier one stale)
  and the gate of the worker (a permit closes it, a resume opens it).

  Inside the locale each procedure of the controller is shown to keep \<open>guarded\<close>: the world
  is safe, and unless \<open>needs_fence\<close> is set nothing dangerous is in flight. This holds at
  every await as well, so a future that is dropped there leaves a guarded controller.
\<close>

text \<open>Events that may change the gate, or what is in flight.\<close>

definition delicate :: "event \<Rightarrow> bool" where
  "delicate e \<longleftrightarrow> (\<exists>rq r. e = EvHttp rq r \<and> (is_patch rq \<or> is_resume rq))"

lemma kube_patch_exchange:
  "kube_patch kube deployment owner operation replicas = exchange (kb_token_file kube)
     (patch_request kube (patch_body deployment owner operation replicas)) decoded"
  by (simp add: fun_eq_iff kube_patch_def bind_def read_to_string_def exchange_def fetch_eq
      map_err_def split: sum.splits)

locale idle_world =
  fixes R :: "'w world"
    and danger :: "'w \<Rightarrow> bool"
    and closed :: "'w \<Rightarrow> bool"
    and safe :: "'w \<Rightarrow> bool"
    and known :: "json \<Rightarrow> 'w \<Rightarrow> bool"
  assumes quiet: "safe w \<Longrightarrow> R w e w' \<Longrightarrow> \<not> delicate e \<Longrightarrow>
      safe w' \<and> (danger w' \<longrightarrow> danger w) \<and> (closed w \<longrightarrow> \<not> danger w \<longrightarrow> closed w')"
    and remembers: "safe w \<Longrightarrow> R w e w' \<Longrightarrow> known v w \<Longrightarrow> known v w'"
    and learns: "safe w \<Longrightarrow> R w (EvHttp (http_get kube path query t) r) w' \<Longrightarrow> decoded r = Inr v \<Longrightarrow>
      known (resource_version v) w'"
    and resumes: "safe w \<Longrightarrow> \<not> danger w \<Longrightarrow> R w (EvHttp rq r) w' \<Longrightarrow> is_resume rq \<Longrightarrow>
      safe w' \<and> \<not> danger w'"
    and patches: "safe w \<Longrightarrow> R w (EvHttp rq r) w' \<Longrightarrow> is_patch rq \<Longrightarrow> rq_body rq = Some b \<Longrightarrow>
      known (resource_version b) w \<Longrightarrow> \<not> is_sleep rq \<Longrightarrow>
      safe w' \<and> (danger w' \<longrightarrow> danger w)"
    and sleeps: "safe w \<Longrightarrow> R w (EvHttp rq r) w' \<Longrightarrow> is_sleep rq \<Longrightarrow> rq_body rq = Some b \<Longrightarrow>
      known (resource_version b) w \<Longrightarrow> closed w \<Longrightarrow> \<not> danger w \<Longrightarrow> safe w'"
    and fences: "safe w \<Longrightarrow> R w (EvHttp rq r) w' \<Longrightarrow> is_patch rq \<Longrightarrow> rq_body rq = Some b \<Longrightarrow>
      known (resource_version b) w \<Longrightarrow> is_sleep rq \<longrightarrow> closed w \<and> \<not> danger w \<Longrightarrow>
      is_ok (decoded r) \<Longrightarrow> \<not> danger w'"
    and suspends: "safe w \<Longrightarrow> \<not> danger w \<Longrightarrow> R w (EvHttp rq r) w' \<Longrightarrow> is_suspend rq \<Longrightarrow>
      status_of_reply r = Inr st \<Longrightarrow> is_permit st \<noteq> None \<Longrightarrow> \<not> is_busy st \<Longrightarrow> closed w'"
begin

definition guarded :: "controller \<Rightarrow> 'w \<Rightarrow> bool" where
  "guarded s w \<longleftrightarrow> safe w \<and> (ct_needs_fence s \<or> \<not> danger w)"

text \<open>What holds whenever the controller waits for a reply or sleeps.\<close>

definition awaiting :: "controller \<Rightarrow> http_request option \<Rightarrow> 'w \<Rightarrow> bool" where
  "awaiting s pending w \<longleftrightarrow> guarded s w \<and> (\<forall>rq. pending = Some rq \<longrightarrow>
     (is_patch rq \<longrightarrow> ct_needs_fence s \<and> (\<exists>b. rq_body rq = Some b \<and> known (resource_version b) w)) \<and>
     (is_resume rq \<longrightarrow> \<not> danger w) \<and> (is_suspend rq \<longrightarrow> ct_connections s = 0) \<and>
     (is_sleep rq \<longrightarrow> closed w \<and> \<not> danger w \<and> ct_connections s = 0))"

definition stays :: "'w \<Rightarrow> 'w \<Rightarrow> bool" where
  "stays w w' \<longleftrightarrow> safe w' \<and> (danger w' \<longrightarrow> danger w) \<and> (closed w \<longrightarrow> \<not> danger w \<longrightarrow> closed w') \<and>
     (\<forall>v. known v w \<longrightarrow> known v w')"

lemma stays_refl: "safe w \<Longrightarrow> stays w w"
  by (simp add: stays_def)

lemma stays_trans: "stays w w1 \<Longrightarrow> stays w1 w2 \<Longrightarrow> stays w w2"
  by (auto simp: stays_def)

lemma stays_guarded: "guarded s w \<Longrightarrow> stays w w' \<Longrightarrow> guarded s w'"
  by (auto simp: guarded_def stays_def)

lemma quiet_stays: "safe w \<Longrightarrow> R w e w' \<Longrightarrow> \<not> delicate e \<Longrightarrow> stays w w'"
  using quiet remembers by (auto simp: stays_def)

lemma delicate_simps [simp]:
  "\<not> delicate (EvRead p t)" "\<not> delicate (EvClient c)" "\<not> delicate (EvUuid u)" "\<not> delicate (EvNow i)"
  "\<not> delicate (EvSleep d)" "delicate (EvHttp rq r) \<longleftrightarrow> is_patch rq \<or> is_resume rq"
  by (simp_all add: delicate_def)

section \<open>Reads\<close>

abbreviation spec :: "(controller \<Rightarrow> 'w \<Rightarrow> perror + 'a \<Rightarrow> controller \<Rightarrow> 'w \<Rightarrow> bool) \<Rightarrow> 'a controlled \<Rightarrow>
    controller \<Rightarrow> 'w \<Rightarrow> bool" where
  "spec P m s w \<equiv> wp R awaiting (m s) (\<lambda>(r, s'). P s w r s') w"

text \<open>
  A read leaves the controller as it is and the world as safe as it was; what it found
  satisfies \<open>P\<close>.
\<close>

definition reads :: "('a \<Rightarrow> 'w \<Rightarrow> bool) \<Rightarrow> controller \<Rightarrow> 'w \<Rightarrow> perror + 'a \<Rightarrow> controller \<Rightarrow> 'w \<Rightarrow> bool" where
  "reads P s w r s' w' \<longleftrightarrow> s' = s \<and> stays w w' \<and> (\<forall>x. r = Inr x \<longrightarrow> P x w')"

abbreviation anything :: "'a \<Rightarrow> 'w \<Rightarrow> bool" where
  "anything \<equiv> \<lambda>_ _. True"

lemma reads_here [simp]: "guarded s w \<Longrightarrow> reads P s w r s w \<longleftrightarrow> (\<forall>x. r = Inr x \<longrightarrow> P x w)"
  by (simp add: reads_def stays_refl guarded_def)

lemma reads_file: "guarded s w \<Longrightarrow> spec (reads anything) (read_to_string p) s w"
  by (auto simp: read_to_string_def reads_def guarded_def intro: quiet_stays)

lemma reads_client: "guarded s w \<Longrightarrow> spec (reads anything) build_client s w"
  by (auto simp: build_client_def reads_def guarded_def intro: quiet_stays)

lemma reads_uuid: "guarded s w \<Longrightarrow> spec (reads anything) new_uuid s w"
  by (auto simp: new_uuid_def reads_def guarded_def intro: quiet_stays)

lemma reads_now: "guarded s w \<Longrightarrow> spec (reads anything) now s w"
  by (auto simp: now_def reads_def guarded_def intro: quiet_stays)

lemma reads_sleep: "guarded s w \<Longrightarrow> spec (reads anything) (sleep d) s w"
  by (auto simp: sleep_def reads_def guarded_def awaiting_def intro: quiet_stays)

lemma reads_send:
  "guarded s w \<Longrightarrow> \<not> is_patch rq \<Longrightarrow> \<not> is_resume rq \<Longrightarrow> \<not> is_suspend rq \<Longrightarrow> spec (reads anything) (send rq) s w"
  by (auto simp: send_def reads_def guarded_def awaiting_def is_sleep_def intro: quiet_stays)

lemma reads_lift: "guarded s w \<Longrightarrow> (\<And>x. r = Inr x \<Longrightarrow> P x w) \<Longrightarrow> spec (reads P) (lift r) s w"
  by (simp add: reads_def stays_refl guarded_def)

lemma reads_gets: "guarded s w \<Longrightarrow> P (f s) w \<Longrightarrow> spec (reads P) (gets f) s w"
  by (simp add: reads_def stays_refl guarded_def)

lemma reads_ret: "guarded s w \<Longrightarrow> P x w \<Longrightarrow> spec (reads P) (ret x) s w"
  by (simp add: reads_def stays_refl guarded_def)

lemma reads_bail: "guarded s w \<Longrightarrow> spec (reads P) (bail e) s w"
  by (simp add: reads_def stays_refl guarded_def)

lemma reads_fail: "guarded s w \<Longrightarrow> spec (reads P) (fail e) s w"
  by (simp add: reads_def stays_refl guarded_def)

lemma reads_bind:
  assumes "guarded s w" "spec (reads P) m s w"
    and "\<And>x w'. guarded s w' \<Longrightarrow> P x w' \<Longrightarrow> spec (reads Q) (f x) s w'"
  shows "spec (reads Q) (bind m f) s w"
proof (rule wp_seq [where P = "reads P s w"])
  show "spec (reads P) m s w" by (rule assms(2))
next
  fix x s' w1
  assume "reads P s w (Inr x) s' w1"
  then have st: "s' = s" "stays w w1" "P x w1" by (simp_all add: reads_def)
  show "wp R awaiting (f x s') (\<lambda>(r, s'). reads Q s w r s') w1"
    unfolding st(1) using assms(3) [OF stays_guarded [OF assms(1) st(2)] st(3)]
    by (rule wp_mono) (use st(2) in \<open>auto simp: reads_def intro: stays_trans\<close>)
qed (simp add: reads_def)

lemma reads_then:
  assumes "guarded s w" "spec (reads anything) m s w"
    and "\<And>x w'. guarded s w' \<Longrightarrow> spec (reads Q) (f x) s w'"
  shows "spec (reads Q) (bind m f) s w"
  by (rule reads_bind [where P = anything]) (rule assms; assumption?)+

lemma reads_fetch:
  "guarded s w \<Longrightarrow> \<not> is_patch rq \<Longrightarrow> \<not> is_resume rq \<Longrightarrow> \<not> is_suspend rq \<Longrightarrow> spec (reads anything) (fetch rq) s w"
  unfolding fetch_def by (intro reads_then reads_send reads_lift) simp_all

text \<open>A Deployment that was read carries a version the server has reached.\<close>

abbreviation seen :: "json \<Rightarrow> 'w \<Rightarrow> bool" where
  "seen deployment w \<equiv> known (resource_version deployment) w"

lemma reads_get:
  assumes "guarded s w"
  shows "spec (reads seen) (fetch (http_get kube path query t)) s w"
proof -
  have "reads seen s w (map_err Error (decoded r)) s w'"
    if "R w (EvHttp (http_get kube path query t) r) w'" for r w'
    using assms quiet_stays [OF _ that] learns [OF _ that]
    by (auto simp: reads_def guarded_def)
  then show ?thesis
    unfolding wp_fetch using assms by (auto simp: awaiting_def)
qed

lemma reads_deployment: "guarded s w \<Longrightarrow> spec (reads seen) (kube_deployment kube) s w"
  unfolding kube_deployment_def by (intro reads_then reads_file reads_get) simp_all

lemma reads_pods: "guarded s w \<Longrightarrow> spec (reads anything) (kube_pods kube) s w"
  unfolding kube_pods_def by (intro reads_then reads_file reads_fetch reads_lift) simp_all

lemma reads_current:
  assumes "guarded s w"
  shows "spec (reads seen) current s w"
  unfolding current_def
proof (rule reads_then)
  show "guarded s w" "spec (reads anything) (gets ct_kube) s w" using assms by simp_all
next
  fix kube w1
  assume g: "guarded s w1"
  show "spec (reads seen) (bind (kube_deployment kube) (\<lambda>deployment. bind (gets id) (\<lambda>self.
     if \<not> eq_text (deployment_uid deployment) (ct_uid self)
     then bail ''worker Deployment was replaced; restart proxy''
     else if \<not> ct_needs_fence self \<and> \<not> eq_text (deployment_owner deployment) (ct_owner self)
     then bail ''another controller owns this worker Deployment; restart proxy''
     else ret deployment))) s w1"
    by (rule reads_bind [where P = seen]) (use g reads_deployment [OF g] in \<open>auto simp: wp_bind\<close>)
qed

lemma reads_from_pod: "guarded s w \<Longrightarrow> spec (reads (\<lambda>b _. backend_of config b)) (from_pod pod config) s w"
  unfolding from_pod_def
  by (intro reads_then reads_lift reads_client reads_ret) (simp_all add: backend_of_def)

definition found_backend :: "config \<Rightarrow> backend option \<Rightarrow> bool" where
  "found_backend config found \<longleftrightarrow> (case found of None \<Rightarrow> True | Some b \<Rightarrow> backend_of config b)"

lemma found_backend_simps [simp]:
  "found_backend config None" "found_backend config (Some b) \<longleftrightarrow> backend_of config b"
  by (simp_all add: found_backend_def)

lemma reads_ready_backend:
  assumes "guarded s w"
  shows "spec (reads (\<lambda>f _. found_backend (ct_config s) f)) ready_backend s w"
proof -
  have one: "spec (reads (\<lambda>f _. found_backend (ct_config s) f))
      (bind (from_pod pod (ct_config s)) (\<lambda>backend. ret (Some backend))) s w" if "guarded s w" for pod w
    by (rule reads_bind [where P = "\<lambda>b _. backend_of (ct_config s) b"])
      (simp_all add: that reads_from_pod)
  have none: "spec (reads (\<lambda>f _. found_backend (ct_config s) f)) (ret None) s w" if "guarded s w" for w
    using that by (intro reads_ret) simp_all
  show ?thesis
    unfolding ready_backend_def
    by (rule reads_bind [where P = "\<lambda>x _. x = s"])
      (auto simp: Let_def assms intro!: assms reads_gets reads_then reads_pods reads_bail one none
        split: list.splits)
qed

lemma reads_request:
  assumes "guarded s w" "\<And>t. \<not> is_resume (control_request b v res t)" "\<And>t. \<not> is_suspend (control_request b v res t)"
  shows "spec (reads anything) (request b v res config) s w"
  unfolding request_def using assms by (intro reads_then reads_file reads_send reads_lift) simp_all

lemma reads_status: "guarded s w \<Longrightarrow> spec (reads anything) (backend_status b False config) s w"
  unfolding backend_status_def by (intro reads_then reads_request reads_lift) simp_all

section \<open>Writes\<close>

text \<open>A status request that asks for suspension closes the gate when it returns a permit.\<close>

definition suspended :: "controller \<Rightarrow> 'w \<Rightarrow> perror + idle_status \<Rightarrow> controller \<Rightarrow> 'w \<Rightarrow> bool" where
  "suspended s w r s' w' \<longleftrightarrow> s' = s \<and> stays w w' \<and>
     (\<forall>st. r = Inr st \<longrightarrow> is_permit st \<noteq> None \<longrightarrow> \<not> is_busy st \<longrightarrow> closed w')"

lemma suspend_spec:
  assumes "guarded s w" "hostname_ok config" "backend_of config b" "\<not> danger w" "ct_connections s = 0"
  shows "spec suspended (backend_status b True config) s w"
proof -
  note kinds = control_request_post [OF assms(2,3)]
  have http: "suspended s w (map_err Error (status_of_reply r)) s w2"
    if "stays w w1" "R w1 (EvHttp (control_request b POST ''/suspend'' t) r) w2" for w1 w2 t r
  proof -
    have "safe w1" using that(1) by (simp add: stays_def)
    moreover from quiet_stays [OF this that(2)] have "stays w w2"
      using kinds that(1) by (auto intro: stays_trans)
    moreover have "\<not> danger w1" using that(1) assms(4) by (auto simp: stays_def)
    ultimately show ?thesis
      using suspends [OF _ _ that(2)] kinds(1) by (auto simp: suspended_def)
  qed
  have tok: "stays w w1" if "R w (EvRead p r) w1" for p r w1
    using quiet_stays [OF _ that] assms(1) by (simp add: guarded_def)
  have wait: "awaiting s (Some (control_request b POST ''/suspend'' t)) w1" if "stays w w1" for w1 t
    using stays_guarded [OF assms(1) that] kinds assms(5) by (simp add: awaiting_def)
  show ?thesis
    unfolding status_exchange wp_exchange using http [OF tok] tok wait by (auto simp: suspended_def split: sum.splits)
qed

text \<open>A resume is sent with nothing dangerous in flight, and leaves nothing dangerous.\<close>

definition resumed :: "controller \<Rightarrow> 'w \<Rightarrow> perror + unit \<Rightarrow> controller \<Rightarrow> 'w \<Rightarrow> bool" where
  "resumed s w r s' w' \<longleftrightarrow> s' = s \<and> safe w' \<and> \<not> danger w'"

lemma resume_spec:
  assumes "guarded s w" "\<not> danger w" "hostname_ok config" "backend_of config b"
  shows "spec resumed (resume b permit config) s w"
proof -
  note kinds = control_request_post [OF assms(3,4)]
  have tok: "stays w w1" if "R w (EvRead p r) w1" for p r w1
    using quiet_stays [OF _ that] assms(1) by (simp add: guarded_def)
  then have tok': "safe w1 \<and> \<not> danger w1" if "R w (EvRead p r) w1" for p r w1
    using that assms(2) by (auto simp: stays_def)
  then have "awaiting s (Some (control_request b POST (''/resume/'' @ permit) t)) w1"
    if "R w (EvRead p r) w1" for p r w1 t
    using tok [OF that] stays_guarded [OF assms(1)] that kinds(4) by (auto simp: awaiting_def)
  then show ?thesis
    unfolding resume_exchange wp_exchange
    using tok' resumes [OF _ _ _ kinds(3)] by (auto simp: resumed_def split: sum.splits) blast+
qed

text \<open>
  A guarded patch: while its outcome is unknown \<open>needs_fence\<close> is set; when it succeeded
  nothing dangerous is in flight. One that puts the worker to sleep needs a closed gate.
\<close>

definition patched :: "controller \<Rightarrow> 'w \<Rightarrow> perror + unit \<Rightarrow> controller \<Rightarrow> 'w \<Rightarrow> bool" where
  "patched s w r s' w' \<longleftrightarrow> same_identity s s' \<and> guarded s' w' \<and>
     (is_ok r \<longrightarrow> \<not> ct_needs_fence s' \<and> \<not> danger w')"

lemma patch_replicas_zero:
  "eq_int (patch_replicas (patch_body deployment owner op replicas)) 0 \<longleftrightarrow> replicas = Some 0"
proof (cases replicas)
  case (Some n)
  have "unat n < 2 ^ 32" using unsigned_less [of n, where 'a = nat] by simp
  then show ?thesis using Some by (simp add: eq_int_def uint_0_iff)
qed (simp add: eq_int_def)

text \<open>What a patch based on a state that was read does to the world it reaches.\<close>

lemma patch_answer:
  assumes "seen deployment w" "replicas = Some 0 \<longrightarrow> closed w \<and> \<not> danger w" "stays w w2"
    and "R w2 (EvHttp (patch_request kube (patch_body deployment owner op replicas) t) r) w3"
  shows "safe w3" "decoded r = Inr v \<Longrightarrow> \<not> danger w3"
proof -
  have fresh: "safe w2 \<and> known (resource_version (patch_body deployment owner op replicas)) w2"
    using assms(1,3) by (simp add: stays_def)
  show "safe w3"
  proof (cases "replicas = Some 0")
    case True
    then show ?thesis
      using sleeps [OF _ assms(4)] fresh assms(2,3) by (auto simp: stays_def eq_int_def)
  next
    case False
    then show ?thesis using patches [OF _ assms(4)] fresh by (auto simp: patch_replicas_zero)
  qed
  show "\<not> danger w3" if "decoded r = Inr v"
    using fences [OF _ assms(4)] fresh that assms(2,3) by (auto simp: patch_replicas_zero stays_def)
qed

lemma patch_spec:
  assumes "guarded s w" "seen deployment w"
    "replicas = Some 0 \<longrightarrow> closed w \<and> \<not> danger w \<and> ct_connections s = 0"
  shows "spec patched (guarded_patch deployment replicas) s w"
proof -
  let ?s = "s\<lparr>ct_needs_fence := True\<rparr>" and ?kube = "ct_kube s"
  let ?rq = "\<lambda>op. patch_request ?kube (patch_body deployment (ct_owner s) op replicas)"
  have quiet_uuid: "stays w w1" if "R w (EvUuid u) w1" for u w1
    using quiet_stays [OF _ that] assms(1) by (simp add: guarded_def)
  have quiet_read: "stays w w2" if "stays w w1" "R w1 (EvRead p r) w2" for p r w1 w2
    using quiet_stays [OF _ that(2)] that(1) by (auto simp: stays_def)
  have wait: "awaiting ?s (Some (?rq op t)) w'" if "stays w w'" for w' op t
    using that assms(2,3) by (auto simp: awaiting_def patch_replicas_zero stays_def guarded_def)
  have post: "wp R awaiting (exchange (kb_token_file ?kube) (?rq op) decoded ?s)
      (\<lambda>(r, s') w'. s' = ?s \<and> safe w' \<and> (is_ok r \<longrightarrow> \<not> danger w')) w1" if w1: "stays w w1" for op w1
    unfolding wp_exchange
  proof (intro allI impI)
    fix tk w2
    assume "R w1 (EvRead (kb_token_file ?kube) tk) w2"
    from quiet_read [OF w1 this] have w2: "stays w w2" .
    have "safe w3 \<and> (is_ok (map_err Error (decoded r)) \<longrightarrow> \<not> danger w3)"
      if "R w2 (EvHttp (?rq op t) r) w3" for t r w3
      using patch_answer [OF assms(2) _ w2 that] assms(3) by (cases "decoded r") (simp_all add: is_ok_def map_err_def)
    with wait [OF w2] w2 show "case tk of Inl e \<Rightarrow> (case (Inl (Error e), ?s) of (r, s') \<Rightarrow>
        \<lambda>w'. s' = ?s \<and> safe w' \<and> (is_ok r \<longrightarrow> \<not> danger w')) w2
      | Inr t \<Rightarrow> awaiting ?s (Some (?rq op t)) w2 \<and> (\<forall>r w3. R w2 (EvHttp (?rq op t) r) w3 \<longrightarrow>
          (case (map_err Error (decoded r), ?s) of (r, s') \<Rightarrow>
            \<lambda>w'. s' = ?s \<and> safe w' \<and> (is_ok r \<longrightarrow> \<not> danger w')) w3)"
      by (cases tk) (simp_all add: stays_def)
  qed
  show ?thesis
    unfolding guarded_patch_def set_needs_fence_def kube_patch_exchange
    apply (simp add: wp_bind new_uuid_def)
    apply (intro allI impI)
    apply (rule wp_mono [OF post [OF quiet_uuid]], assumption)
    apply (auto simp: patched_def guarded_def is_ok_def split: sum.splits)
    done
qed

section \<open>Procedures\<close>

definition settled :: "controller \<Rightarrow> 'w \<Rightarrow> perror + 'a \<Rightarrow> controller \<Rightarrow> 'w \<Rightarrow> bool" where
  "settled s w r s' w' \<longleftrightarrow> same_identity s s' \<and> guarded s' w'"

definition clear :: "controller \<Rightarrow> 'w \<Rightarrow> bool" where
  "clear s w \<longleftrightarrow> safe w \<and> \<not> ct_needs_fence s \<and> \<not> danger w"

lemma clear_guarded: "clear s w \<Longrightarrow> guarded s w"
  by (simp add: clear_def guarded_def)

lemma clear_stays: "clear s w \<Longrightarrow> stays w w' \<Longrightarrow> clear s w'"
  by (auto simp: clear_def stays_def)

lemma settled_here [simp]: "settled s w r s w' \<longleftrightarrow> guarded s w'"
  by (simp add: settled_def)

lemma settled_mono:
  assumes "spec settled m s1 w1" "same_identity s s1"
  shows "wp R awaiting (m s1) (\<lambda>(r, s'). settled s w r s') w1"
  using assms(1)
  by (rule wp_mono) (use assms(2) in \<open>auto simp: settled_def intro: same_identity_trans\<close>)

lemma settled_reads:
  assumes "guarded s w" "spec (reads P) m s w"
    and "\<And>x w1. stays w w1 \<Longrightarrow> P x w1 \<Longrightarrow> spec settled (f x) s w1"
  shows "spec settled (bind m f) s w"
proof (rule wp_seq_post [where P = "reads P s w"])
  show "spec (reads P) m s w" by (rule assms(2))
next
  fix x s' w1
  assume "reads P s w (Inr x) s' w1"
  then have "s' = s" "stays w w1" "P x w1" by (simp_all add: reads_def)
  with assms(3) show "wp R awaiting (f x s') (\<lambda>(r, s'). settled s w r s') w1"
    by (auto intro: settled_mono)
next
  fix e s' w1
  assume "reads P s w (Inl e) s' w1"
  then show "settled s w (Inl e) s' w1"
    using stays_guarded [OF assms(1)] by (simp add: reads_def)
qed

lemma settled_patched:
  assumes "spec patched m s w"
    and "\<And>s1 w1. same_identity s s1 \<Longrightarrow> clear s1 w1 \<Longrightarrow> spec settled (f ()) s1 w1"
  shows "spec settled (bind m f) s w"
proof (rule wp_seq_post [where P = "patched s w"])
  show "spec patched m s w" by (rule assms(1))
next
  fix x s1 w1
  assume "patched s w (Inr x) s1 w1"
  then have "same_identity s s1" "clear s1 w1" by (auto simp: patched_def clear_def guarded_def)
  with assms(2) show "wp R awaiting (f x s1) (\<lambda>(r, s'). settled s w r s') w1"
    by (auto intro: settled_mono)
next
  fix e s1 w1
  assume "patched s w (Inl e) s1 w1"
  then show "settled s w (Inl e) s1 w1"
    by (simp add: patched_def settled_def)
qed

lemma settled_resumed:
  assumes "spec resumed m s w"
    and "\<And>w1. safe w1 \<Longrightarrow> \<not> danger w1 \<Longrightarrow> spec settled (f ()) s w1"
  shows "spec settled (bind m f) s w"
proof (rule wp_seq_post [where P = "resumed s w"])
  show "spec resumed m s w" by (rule assms(1))
next
  fix x s1 w1
  assume "resumed s w (Inr x) s1 w1"
  with assms(2) show "wp R awaiting (f x s1) (\<lambda>(r, s'). settled s w r s') w1"
    by (auto simp: resumed_def intro: settled_mono)
next
  fix e s1 w1
  assume "resumed s w (Inl e) s1 w1"
  then show "settled s w (Inl e) s1 w1"
    by (simp add: resumed_def guarded_def)
qed

lemma settled_ret: "guarded s w \<Longrightarrow> spec settled (ret x) s w"
  by simp

lemma settled_bail: "guarded s w \<Longrightarrow> spec settled (bail e) s w"
  by simp

lemma settled_fail: "guarded s w \<Longrightarrow> spec settled (fail e) s w"
  by simp

lemma settled_idle: "guarded s w \<Longrightarrow> spec settled (set_idle_since x) s w"
  by (simp add: set_idle_since_def settled_def guarded_def)

lemma settled_idle_then:
  assumes "guarded s w" "\<And>s1. same_identity s s1 \<Longrightarrow> guarded s1 w \<Longrightarrow>
      ct_needs_fence s1 = ct_needs_fence s \<Longrightarrow> spec settled (f ()) s1 w"
  shows "spec settled (bind (set_idle_since x) f) s w"
proof -
  let ?s = "s\<lparr>ct_idle_since := x\<rparr>"
  have "guarded ?s w" using assms(1) by (simp add: guarded_def)
  then have "spec settled (f ()) ?s w" using assms(2) by simp
  then have "wp R awaiting (f () ?s) (\<lambda>(r, s'). settled s w r s') w" by (rule settled_mono) simp
  then show ?thesis by (simp add: set_idle_since_def wp_bind)
qed

lemma settled_gets: "spec settled (f (g s)) s w \<Longrightarrow> spec settled (bind (gets g) f) s w"
  by (simp add: wp_bind)

lemma fence_spec:
  assumes "guarded s w"
  shows "spec patched fence s w"
  unfolding fence_def
proof (rule wp_seq_post [where P = "reads seen s w"])
  show "spec (reads seen) current s w" using assms by (rule reads_current)
next
  fix x s' w1
  assume "reads seen s w (Inr x) s' w1"
  then have s: "s' = s" and "guarded s w1" "seen x w1" using stays_guarded [OF assms] by (auto simp: reads_def)
  then have "spec patched (guarded_patch x None) s w1" by (intro patch_spec) simp_all
  then show "wp R awaiting (guarded_patch x None s') (\<lambda>(r, s'). patched s w r s') w1"
    unfolding s by (rule wp_mono) (auto simp: patched_def)
next
  fix e s' w1
  assume "reads seen s w (Inl e) s' w1"
  then show "patched s w (Inl e) s' w1"
    using stays_guarded [OF assms] by (auto simp: reads_def patched_def)
qed

lemma fence_first: "guarded s w \<Longrightarrow> spec patched (only_if (ct_needs_fence s) fence) s w"
  by (simp add: only_if_def fence_spec) (auto simp: patched_def guarded_def)

lemma scale_spec: "guarded s w \<Longrightarrow> seen deployment w \<Longrightarrow> n = 0 \<longrightarrow> closed w \<and> \<not> danger w \<and> ct_connections s = 0 \<Longrightarrow>
    spec patched (scale deployment n) s w"
  unfolding scale_def by (intro patch_spec) simp_all

lemma settled_end: "spec patched m s w \<Longrightarrow> spec settled m s w"
  by (erule wp_mono) (auto simp: patched_def settled_def)

text \<open>Resuming a worker that reports a permit, before its backend is returned.\<close>

lemma release_spec:
  assumes "clear s w" "hostname_ok config" "backend_of config b"
  shows "spec resumed (release_permit b config st) s w"
  using assms resume_spec [of s w config b]
  by (auto simp: release_permit_def clear_def guarded_def resumed_def split: option.splits)

lemma start_patched:
  assumes "clear s w" "seen deployment w"
  shows "spec patched (only_if b (scale deployment 1)) s w"
  using assms scale_spec [of s w deployment 1] clear_guarded [OF assms(1)]
  by (auto simp: only_if_def patched_def clear_def)

lemma start_worker_spec:
  assumes "clear s w" "seen deployment w"
  shows "spec settled (start_worker kube deployment) s w"
  unfolding start_worker_def
proof (rule settled_reads [where P = anything])
  show "guarded s w" using assms(1) by (rule clear_guarded)
  then show "spec (reads anything) (kube_pods kube) s w" by (rule reads_pods)
next
  fix pods w1
  assume st: "stays w w1"
  then have c: "clear s w1" using assms(1) by (blast intro: clear_stays)
  have "spec patched (only_if (pods = []) (scale deployment 1)) s w1"
    using c assms(2) st by (intro start_patched) (simp_all add: stays_def)
  then show "spec settled (bind (only_if (pods = []) (scale deployment 1)) (\<lambda>_. ret None)) s w1"
    by (rule settled_patched) (simp add: clear_guarded)
qed

lemma attach_worker_spec:
  assumes "clear s w" "hostname_ok (ct_config s)"
  shows "spec settled (attach_worker (ct_config s)) s w"
  unfolding attach_worker_def
proof (rule settled_reads [where P = "\<lambda>f _. found_backend (ct_config s) f"])
  show g: "guarded s w" using assms(1) by (rule clear_guarded)
  then show "spec (reads (\<lambda>f _. found_backend (ct_config s) f)) ready_backend s w" by (rule reads_ready_backend)
next
  fix found w1
  assume w1: "stays w w1" and f: "found_backend (ct_config s) found"
  then have c: "clear s w1" using assms(1) by (blast intro: clear_stays)
  have "spec settled (bind (backend_status b False (ct_config s)) (\<lambda>status.
      bind (release_permit b (ct_config s) status) (\<lambda>_. ret (Some b)))) s w1" if b: "found = Some b" for b
  proof (rule settled_reads [where P = anything])
    show "guarded s w1" using c by (rule clear_guarded)
    then show "spec (reads anything) (backend_status b False (ct_config s)) s w1" by (rule reads_status)
  next
    fix st w2
    assume "stays w1 w2"
    then have "clear s w2" using c by (blast intro: clear_stays)
    then have "spec resumed (release_permit b (ct_config s) st) s w2"
      using assms(2) f b by (intro release_spec) simp_all
    then show "spec settled (bind (release_permit b (ct_config s) st) (\<lambda>_. ret (Some b))) s w2"
      by (rule settled_resumed) (simp add: guarded_def)
  qed
  then show "spec settled (case found of None \<Rightarrow> ret None
      | Some backend \<Rightarrow> bind (backend_status backend False (ct_config s)) (\<lambda>status.
          bind (release_permit backend (ct_config s) status) (\<lambda>_. ret (Some backend)))) s w1"
    using clear_guarded [OF c] by (cases found) simp_all
qed

lemma wake_step_spec:
  assumes "clear s w" "hostname_ok (ct_config s)" "seen deployment w"
  shows "spec settled (wake_step kube (ct_config s) deployment) s w"
  using start_worker_spec [OF assms(1,3)] attach_worker_spec [OF assms(1,2)] clear_guarded [OF assms(1)]
  by (auto simp: wake_step_def split: option.splits nat.splits)

lemma current_then:
  assumes "clear s w" "\<And>deployment w1. clear s w1 \<Longrightarrow> seen deployment w1 \<Longrightarrow> spec settled (f deployment) s w1"
  shows "spec settled (bind current f) s w"
  by (rule settled_reads [where P = seen])
    (use assms in \<open>auto intro: clear_guarded reads_current clear_stays\<close>)

lemma wake_round_spec:
  assumes "guarded s w" "hostname_ok (ct_config s)"
  shows "spec settled (wake_round deadline) s w"
  unfolding wake_round_def
proof (rule settled_reads [where P = anything])
  show "guarded s w" "spec (reads anything) now s w" using assms(1) by (auto intro: reads_now)
next
  fix t w1
  assume "stays w w1"
  then have g: "guarded s w1" using assms(1) by (blast intro: stays_guarded)
  have "spec settled (bind (only_if (ct_needs_fence s) fence) (\<lambda>_.
      bind current (\<lambda>deployment. wake_step (ct_kube s) (ct_config s) deployment))) s w1"
  proof (rule settled_patched)
    show "spec patched (only_if (ct_needs_fence s) fence) s w1" using g by (rule fence_first)
  next
    fix s1 w2
    assume i: "same_identity s s1" and c: "clear s1 w2"
    then have "ct_config s1 = ct_config s" by (simp add: same_identity_def)
    with assms(2) c wake_step_spec [of s1] show
      "spec settled (bind current (\<lambda>deployment. wake_step (ct_kube s) (ct_config s) deployment)) s1 w2"
      by (intro current_then) simp_all
  qed
  then show "spec settled (if deadline \<le> t then bail ''DuckFlight cold start timed out''
      else bind (gets id) (\<lambda>self. bind (only_if (ct_needs_fence self) fence) (\<lambda>_.
        bind current (\<lambda>deployment. wake_step (ct_kube self) (ct_config self) deployment)))) s w1"
    using g by (auto intro: settled_gets)
qed

lemma settled_seq:
  assumes "spec settled m s w"
    and "\<And>x s1 w1. same_identity s s1 \<Longrightarrow> guarded s1 w1 \<Longrightarrow> spec settled (f x) s1 w1"
  shows "spec settled (bind m f) s w"
proof (rule wp_seq_post [where P = "settled s w"])
  show "spec settled m s w" by (rule assms(1))
next
  fix x s1 w1
  assume "settled s w (Inr x :: perror + 'a) s1 w1"
  then have i: "same_identity s s1" and "guarded s1 w1" by (simp_all add: settled_def)
  then have "spec settled (f x) s1 w1" by (rule assms(2))
  then show "wp R awaiting (f x s1) (\<lambda>(r, s'). settled s w r s') w1"
    using i by (rule settled_mono)
qed (simp add: settled_def)

lemma same_config: "same_identity s s1 \<Longrightarrow> ct_config s1 = ct_config s"
  by (simp add: same_identity_def)

lemma wake_loop_spec:
  assumes "guarded s w" "hostname_ok (ct_config s)"
  shows "spec settled (wake_loop fuel deadline) s w"
  using assms
proof (induction fuel arbitrary: s w)
  case (Suc fuel)
  have again: "spec settled (bind (sleep 500) (\<lambda>_. wake_loop fuel deadline)) s1 w1"
    if "same_identity s s1" "guarded s1 w1" for s1 w1
  proof (rule settled_reads [where P = anything])
    show "guarded s1 w1" "spec (reads anything) (sleep 500) s1 w1"
      using that(2) by (auto intro: reads_sleep)
  next
    fix w2
    assume "stays w1 w2"
    then show "spec settled (wake_loop fuel deadline) s1 w2"
      using that Suc.prems(2) same_config [OF that(1)] by (intro Suc.IH) (auto intro: stays_guarded)
  qed
  show ?case
    unfolding wake_loop.simps
  proof (rule settled_seq)
    show "spec settled (wake_round deadline) s w" using Suc.prems by (rule wake_round_spec)
  next
    fix found s1 w1
    assume "same_identity s s1" "guarded s1 w1"
    with again show "spec settled (case found of Some backend \<Rightarrow> ret backend
        | None \<Rightarrow> bind (sleep 500) (\<lambda>_. wake_loop fuel deadline)) s1 w1"
      by (cases found) auto
  qed
qed simp

theorem wake_spec:
  assumes "guarded s w" "hostname_ok (ct_config s)"
  shows "spec settled (wake fuel) s w"
  unfolding wake_def
proof (rule settled_idle_then [OF assms(1)])
  fix s1
  assume i: "same_identity s s1" and g: "guarded s1 w"
  have run: "spec settled (bind (add_duration t d) (wake_loop fuel)) s1 w1" if "guarded s1 w1" for t d w1
    using that wake_loop_spec [OF that] assms(2) same_config [OF i]
    by (simp add: add_duration_def wp_bind)
  show "spec settled (bind now (\<lambda>t. bind (gets ct_config) (\<lambda>config.
      bind (add_duration t (cf_cold_start_timeout config)) (\<lambda>deadline. wake_loop fuel deadline)))) s1 w"
    by (rule settled_reads [where P = anything])
      (use g in \<open>auto intro!: settled_gets run reads_now dest: stays_guarded\<close>)
qed

section \<open>The idle tick\<close>

lemma observe_idle_spec:
  assumes "clear s w"
  shows "wp R awaiting (observe_idle b st s)
    (\<lambda>(r, s') w'. same_identity s s' \<and> clear s' w' \<and> stays w w') w"
proof -
  have step: "stays w w1" if "R w (EvNow t) w1" for t w1
    using quiet_stays [OF _ that] assms by (auto simp: clear_def)
  have "wp R awaiting (bind now (\<lambda>t. bind (set_idle_since (Some (u, v, t))) (\<lambda>_. ret t)) s)
      (\<lambda>(r, s') w'. same_identity s s' \<and> clear s' w' \<and> stays w w') w" for u v
    using step clear_stays [OF assms] by (auto simp: wp_bind now_def set_idle_since_def clear_def)
  then show ?thesis using assms stays_refl [of w]
    by (auto simp: observe_idle_def wp_bind Let_def clear_def split: option.splits)
qed

lemma recover_spec:
  assumes "guarded s w" "hostname_ok (ct_config s)" "backend_of (ct_config s) b"
  shows "spec settled (recover_worker b permit e) s w"
  unfolding recover_worker_def
proof (rule settled_patched)
  show "spec patched fence s w" using assms(1) by (rule fence_spec)
next
  fix s1 w1
  assume i: "same_identity s s1" and c: "clear s1 w1"
  show "spec settled (bind current (\<lambda>observed. bind (gets ct_config) (\<lambda>config.
      bind (only_if (eq_int (deployment_replicas observed) 1) (resume b permit config)) (\<lambda>_. bail e)))) s1 w1"
  proof (rule current_then [OF c], rule settled_gets, rule settled_resumed)
    fix observed w2
    assume c2: "clear s1 w2"
    show "spec resumed (only_if (eq_int (deployment_replicas observed) 1) (resume b permit (ct_config s1))) s1 w2"
    proof (cases "eq_int (deployment_replicas observed) 1")
      case True
      have "spec resumed (resume b permit (ct_config s1)) s1 w2"
        unfolding same_config [OF i] using c2 assms(2,3)
        by (intro resume_spec clear_guarded) (simp_all add: clear_def)
      then show ?thesis using True by (simp add: only_if_def)
    qed (use c2 in \<open>simp add: only_if_def resumed_def clear_def\<close>)
  qed (simp add: guarded_def)
qed

lemma put_to_sleep_spec:
  assumes "clear s w" "closed w" "ct_connections s = 0" "hostname_ok (ct_config s)" "backend_of (ct_config s) b"
    and "seen deployment w"
  shows "spec settled (put_to_sleep deployment b permit) s w"
  unfolding put_to_sleep_def
proof (rule wp_try [where P = "patched s w"])
  show "spec patched (scale deployment 0) s w"
    using assms by (intro scale_spec) (auto simp: clear_def guarded_def)
next
  fix x s1 w1
  assume "patched s w (Inr x) s1 w1"
  then have i: "same_identity s s1" and "guarded s1 w1" by (simp_all add: patched_def)
  then have "spec settled (set_idle_since None) s1 w1" by (intro settled_idle)
  then have "wp R awaiting (set_idle_since None s1) (\<lambda>(r, s'). settled s w r s') w1"
    using i by (rule settled_mono)
  then show "wp R awaiting ((case Inr x of Inr _ \<Rightarrow> set_idle_since None | Inl error \<Rightarrow>
      recover_worker b permit error) s1) (\<lambda>(r, s'). settled s w r s') w1" by simp
next
  fix e s1 w1
  assume "patched s w (Inl (Error e)) s1 w1"
  then have i: "same_identity s s1" "guarded s1 w1" by (simp_all add: patched_def)
  then have "spec settled (recover_worker b permit e) s1 w1"
    using assms(4,5) same_config [OF i(1)] by (intro recover_spec) simp_all
  then have "wp R awaiting (recover_worker b permit e s1) (\<lambda>(r, s'). settled s w r s') w1"
    using i(1) by (rule settled_mono)
  then show "wp R awaiting ((case Inl e of Inr _ \<Rightarrow> set_idle_since None | Inl error \<Rightarrow>
      recover_worker b permit error) s1) (\<lambda>(r, s'). settled s w r s') w1" by simp
qed (simp add: patched_def settled_def)

lemma after_suspension_spec:
  assumes "clear s w" "ct_connections s = 0" "hostname_ok (ct_config s)" "backend_of (ct_config s) b"
    and "seen deployment w" "is_permit sus \<noteq> None \<longrightarrow> \<not> is_busy sus \<longrightarrow> closed w"
  shows "spec settled (after_suspension deployment b st sus) s w"
proof (cases "is_permit sus")
  case None
  then show ?thesis using clear_guarded [OF assms(1)] by (simp add: after_suspension_def settled_idle)
next
  case (Some permit)
  show ?thesis
  proof (cases "is_busy sus \<or> is_boot_id sus \<noteq> is_boot_id st")
    case True
    then show ?thesis using Some clear_guarded [OF assms(1)] by (simp add: after_suspension_def)
  next
    case False
    then have "spec settled (put_to_sleep deployment b permit) s w"
      using assms Some by (intro put_to_sleep_spec) simp_all
    then show ?thesis using Some False by (simp add: after_suspension_def)
  qed
qed

lemma suspend_then:
  assumes "clear s w" "ct_connections s = 0" "hostname_ok (ct_config s)" "backend_of (ct_config s) b"
    and "seen deployment w"
  shows "spec settled (bind (backend_status b True (ct_config s)) (after_suspension deployment b st)) s w"
proof (rule wp_seq_post [where P = "suspended s w"])
  show "spec suspended (backend_status b True (ct_config s)) s w"
    using assms(1-4) by (intro suspend_spec) (auto simp: clear_def guarded_def)
next
  fix sus s1 w1
  assume "suspended s w (Inr sus) s1 w1"
  then have s1: "s1 = s" and st: "stays w w1" and c: "is_permit sus \<noteq> None \<longrightarrow> \<not> is_busy sus \<longrightarrow> closed w1"
    by (simp_all add: suspended_def)
  have "clear s w1" using assms(1) st by (rule clear_stays)
  moreover have "seen deployment w1" using assms(5) st by (simp add: stays_def)
  ultimately have "spec settled (after_suspension deployment b st sus) s w1"
    using assms(2-4) c by (intro after_suspension_spec)
  then show "wp R awaiting (after_suspension deployment b st sus s1) (\<lambda>(r, s'). settled s w r s') w1"
    unfolding s1 by (rule settled_mono) simp
next
  fix e s1 w1
  assume "suspended s w (Inl e) s1 w1"
  then show "settled s w (Inl e) s1 w1"
    using stays_guarded [OF clear_guarded [OF assms(1)]] by (simp add: suspended_def)
qed

lemma suspend_idle_spec:
  assumes "clear s w" "ct_connections s = 0" "hostname_ok (ct_config s)" "backend_of (ct_config s) b"
    and "seen deployment w"
  shows "spec settled (suspend_idle deployment b st) s w"
  unfolding suspend_idle_def
proof (rule wp_seq_post [where P = "\<lambda>r s' w'. same_identity s s' \<and> clear s' w' \<and> stays w w'"])
  show "wp R awaiting (observe_idle b st s) (\<lambda>(r, s') w'. same_identity s s' \<and> clear s' w' \<and> stays w w') w"
    using assms(1) by (rule observe_idle_spec)
next
  fix since s1 w1
  assume "same_identity s s1 \<and> clear s1 w1 \<and> stays w w1"
  then have i: "same_identity s s1" and c: "clear s1 w1" and d: "seen deployment w1"
    using assms(5) by (simp_all add: stays_def)
  then have k: "ct_connections s1 = 0" "hostname_ok (ct_config s1)" "backend_of (ct_config s1) b"
    using assms(2-4) by (simp_all add: same_identity_def)
  have late: "spec settled (bind (backend_status b True (ct_config s1)) (after_suspension deployment b st)) s1 w2"
    if "stays w1 w2" for w2
    using clear_stays [OF c that] k d that by (intro suspend_then) (simp_all add: stays_def)
  have "spec settled (bind now (\<lambda>t. bind (gets ct_config) (\<lambda>config.
     if t - since < cf_idle_timeout config then ret ()
     else bind (backend_status b True config) (after_suspension deployment b st)))) s1 w1"
  proof (rule settled_reads [where P = anything])
    show g: "guarded s1 w1" using c by (rule clear_guarded)
    then show "spec (reads anything) now s1 w1" by (rule reads_now)
    fix t w2
    assume "stays w1 w2"
    with late stays_guarded [OF g] show "spec settled (bind (gets ct_config) (\<lambda>config.
       if t - since < cf_idle_timeout config then ret ()
       else bind (backend_status b True config) (after_suspension deployment b st))) s1 w2"
      by (intro settled_gets) simp
  qed
  then show "wp R awaiting (bind now (\<lambda>t. bind (gets ct_config) (\<lambda>config.
     if t - since < cf_idle_timeout config then ret ()
     else bind (backend_status b True config) (after_suspension deployment b st))) s1)
       (\<lambda>(r, s'). settled s w r s') w1"
    using i by (rule settled_mono)
qed (auto simp: settled_def intro: clear_guarded)

lemma idle_backend_spec:
  assumes "clear s w" "ct_connections s = 0" "hostname_ok (ct_config s)" "backend_of (ct_config s) b"
    and "seen deployment w"
  shows "spec settled (idle_backend (ct_config s) deployment b) s w"
  unfolding idle_backend_def
proof (rule settled_reads [where P = anything])
  show "guarded s w" using assms(1) by (rule clear_guarded)
  then show "spec (reads anything) (backend_status b False (ct_config s)) s w" by (rule reads_status)
next
  fix st w1
  assume stay: "stays w w1"
  then have c: "clear s w1" using assms(1) by (blast intro: clear_stays)
  have d: "seen deployment w1" using assms(5) stay by (simp add: stays_def)
  have wake: "spec settled (bind (resume b permit (ct_config s)) (\<lambda>_. set_idle_since None)) s w1" for permit
  proof (rule settled_resumed)
    show "spec resumed (resume b permit (ct_config s)) s w1"
      using c assms(3,4) clear_guarded [OF c] by (intro resume_spec) (simp_all add: clear_def)
  qed (simp add: settled_idle guarded_def)
  have "spec settled (set_idle_since None) s w1" using clear_guarded [OF c] by (rule settled_idle)
  then show "spec settled (case is_permit st of
       Some permit \<Rightarrow> bind (resume b permit (ct_config s)) (\<lambda>_. set_idle_since None)
     | None \<Rightarrow> if is_busy st then set_idle_since None else suspend_idle deployment b st) s w1"
    using wake suspend_idle_spec [OF c assms(2-4) d] by (cases "is_permit st") simp_all
qed

lemma idle_deployment_spec:
  assumes "clear s w" "ct_connections s = 0" "hostname_ok (ct_config s)" "seen deployment w"
  shows "spec settled (idle_deployment (ct_config s) deployment) s w"
proof -
  have g: "guarded s w" using assms(1) by (rule clear_guarded)
  have "spec settled (bind ready_backend (\<lambda>found. case found of None \<Rightarrow> set_idle_since None
      | Some backend \<Rightarrow> idle_backend (ct_config s) deployment backend)) s w"
  proof (rule settled_reads [where P = "\<lambda>f _. found_backend (ct_config s) f"])
    show "guarded s w" "spec (reads (\<lambda>f _. found_backend (ct_config s) f)) ready_backend s w"
      using g by (auto intro: reads_ready_backend)
    fix found w1
    assume stay: "stays w w1" and f: "found_backend (ct_config s) found"
    then have c: "clear s w1" using assms(1) by (blast intro: clear_stays)
    have d: "seen deployment w1" using assms(4) stay by (simp add: stays_def)
    show "spec settled (case found of None \<Rightarrow> set_idle_since None
      | Some backend \<Rightarrow> idle_backend (ct_config s) deployment backend) s w1"
      using f idle_backend_spec [OF c assms(2,3) _ d] settled_idle [OF clear_guarded [OF c]]
      by (cases found) simp_all
  qed
  then show ?thesis using g settled_idle [OF g, of None] by (simp add: idle_deployment_def)
qed

theorem idle_tick_spec:
  assumes "guarded s w" "hostname_ok (ct_config s)"
  shows "spec settled idle_tick s w"
  unfolding idle_tick_def
proof (rule settled_gets, rule settled_patched)
  show "spec patched (only_if (ct_needs_fence (id s)) fence) s w"
    using assms(1) by (simp add: fence_first)
next
  fix s1 w1
  assume i: "same_identity s s1" and c: "clear s1 w1"
  then have k: "ct_config s1 = ct_config s" "ct_connections s1 = ct_connections s"
    by (simp_all add: same_identity_def)
  have "spec settled (bind current (idle_deployment (ct_config s))) s1 w1" if "ct_connections s = 0"
    using idle_deployment_spec [of s1] assms(2) k that by (intro current_then c) simp
  then show "spec settled (if 0 < ct_connections (id s) then set_idle_since None
      else bind current (idle_deployment (ct_config (id s)))) s1 w1"
    using settled_idle [OF clear_guarded [OF c]] by simp
qed

section \<open>A new controller\<close>

text \<open>
  Whatever an earlier controller left in flight, a controller that starts is safe at each
  of its awaits, and one that has started has made all of it stale.
\<close>

definition starting :: "unit \<Rightarrow> http_request option \<Rightarrow> 'w \<Rightarrow> bool" where
  "starting u pending w \<longleftrightarrow> safe w \<and> (\<forall>rq. pending = Some rq \<longrightarrow>
     (is_resume rq \<longrightarrow> \<not> danger w) \<and> (is_sleep rq \<longrightarrow> closed w \<and> \<not> danger w) \<and>
     (is_patch rq \<longrightarrow> (\<exists>b. rq_body rq = Some b \<and> known (resource_version b) w)))"

lemma quiet_safe: "safe w \<Longrightarrow> R w e w' \<Longrightarrow> \<not> delicate e \<Longrightarrow> safe w'"
  using quiet by blast

lemma wp_deployment:
  assumes "safe w"
  shows "wp R starting (kube_deployment kube ()) (\<lambda>(r, u). safe) w"
proof -
  have tok: "safe w1" if "R w (EvRead p r) w1" for p r w1
    using quiet_safe [OF assms that] by simp
  have reply: "safe w2" if "safe w1" "R w1 (EvHttp (http_get kube p q t) r) w2" for w1 w2 p q t r
    using quiet_safe [OF that] by simp
  show ?thesis
    by (auto simp: kube_deployment_def wp_bind wp_fetch read_to_string_def starting_def map_err_def
        split: sum.splits intro: tok reply)
qed

lemma owned_fence:
  assumes "safe w" "ct_needs_fence s"
  shows "wp R starting (owning s fence ()) (\<lambda>(r, u) w'. safe w' \<and>
    (\<forall>x s'. r = Inr (x, s') \<longrightarrow> same_identity s s' \<and> clear s' w')) w"
proof -
  have "spec patched fence s w" using assms by (intro fence_spec) (simp add: guarded_def)
  then have "wp R (\<lambda>_. starting ()) (fence s) (\<lambda>(r, s'). patched s w r s') w"
    using wp_await [of awaiting "\<lambda>_. starting ()" R "fence s"]
    by (auto simp: awaiting_def starting_def guarded_def)
  then show ?thesis
    unfolding wp_owning
    by (rule wp_mono) (auto simp: patched_def clear_def guarded_def map_sum_def split: sum.splits)
qed

definition started :: "config \<Rightarrow> perror + controller \<Rightarrow> unit \<Rightarrow> 'w \<Rightarrow> bool" where
  "started config r u w \<longleftrightarrow> safe w \<and>
     (\<forall>c. r = Inr c \<longrightarrow> clear c w \<and> ct_connections c = 0 \<and> ct_config c = config)"

lemma started_fence:
  assumes "safe w" "ct_needs_fence s" "ct_connections s = 0" "ct_config s = config"
  shows "wp R starting (bind (owning s fence) (\<lambda>(_, c). ret c) ()) (\<lambda>(r, u). started config r u) w"
proof (rule wp_seq_post [where P = "\<lambda>r u w'. safe w' \<and>
    (\<forall>x s'. r = Inr (x, s') \<longrightarrow> same_identity s s' \<and> clear s' w')"])
  show "wp R starting (owning s fence ()) (\<lambda>(r, u) w'. safe w' \<and>
      (\<forall>x s'. r = Inr (x, s') \<longrightarrow> same_identity s s' \<and> clear s' w')) w"
    using assms(1,2) by (rule owned_fence)
next
  fix x :: "unit \<times> controller" and u :: unit and w1
  assume p: "safe w1 \<and> (\<forall>y s'. (Inr x :: perror + unit \<times> controller) = Inr (y, s') \<longrightarrow>
      same_identity s s' \<and> clear s' w1)"
  obtain y c where x: "x = (y, c)" by (cases x)
  with p have "same_identity s c" "clear c w1" "safe w1" by simp_all
  then have "started config (Inr c) u w1"
    using assms(3,4) by (simp add: started_def same_identity_def)
  then show "wp R starting ((case x of (_, c) \<Rightarrow> ret c) u) (\<lambda>(r, u). started config r u) w1"
    by (simp add: x)
qed (simp add: started_def)

lemma starting_bind:
  assumes "wp R starting (m ()) (\<lambda>(r, u). safe) w"
    and "\<And>x w'. safe w' \<Longrightarrow> wp R starting (f x ()) (\<lambda>(r, u). started config r u) w'"
  shows "wp R starting (bind m f ()) (\<lambda>(r, u). started config r u) w"
  by (rule wp_seq_post [where P = "\<lambda>r u. safe"]) (use assms in \<open>auto simp: started_def\<close>)

lemma starting_steps:
  assumes "safe w"
  shows "wp R starting (lift x ()) (\<lambda>(r, u). safe) w" "wp R starting (new_uuid ()) (\<lambda>(r, u). safe) w"
  using assms quiet_safe [OF assms, of "EvUuid u" for u] by (auto simp: new_uuid_def)

theorem controller_new_spec:
  assumes "safe w"
  shows "wp R starting (controller_new env config ()) (\<lambda>(r, u). started config r u) w"
  unfolding controller_new_def
  apply (rule starting_bind, rule starting_steps(1) [OF assms])
  apply (rule starting_bind, erule wp_deployment)
  apply (rule starting_bind, erule starting_steps(1))
  apply (rule starting_bind, erule starting_steps(2))
  apply (rule started_fence)
     apply simp_all
  done

end

end
