(* ===== verification/Proxy_Server.thy ===== *)
theory Proxy_Server
  imports Controller_Fencing
begin

text \<open>
  The proxy process (\<open>proxy_connection\<close> and \<open>main\<close> of \<open>main.rs\<close>): what a connection
  does under the controller's lock, what the idle task does, how the process starts, and the
  step relation in which these procedures interleave with each other, with the world, and
  with a crash at any await. The lock makes every procedure one step; the sockets
  themselves (accepting, copying bytes) appear as the steps they cause.
\<close>

section \<open>Connections\<close>

text \<open>
  The first read, into a buffer of one byte: it may time out (the outer error) or fail (the
  inner one), and a client that closes without a byte is a probe that wakes nothing.
\<close>

definition wants_worker :: "string + string + char option \<Rightarrow> string + bool" where
  "wants_worker first = andThen first (\<lambda>read. andThen read (\<lambda>byte. Inr (byte \<noteq> None)))"

definition count_up :: "unit controlled" where
  "count_up = modify (\<lambda>s. s\<lparr>ct_connections := ct_connections s + 1\<rparr>)"

definition count_down :: "unit controlled" where
  "count_down = modify (\<lambda>s. s\<lparr>ct_connections := ct_connections s - 1\<rparr>)"

definition attach :: "nat \<Rightarrow> backend controlled" where
  "attach fuel =
     bind count_up (\<lambda>_.
     matching (wake fuel) (\<lambda>outcome.
     case outcome of
       Inr backend \<Rightarrow> ret backend
     | Inl error \<Rightarrow> bind count_down (\<lambda>_. bail error)))"

text \<open>After the copy has ended, with whatever result.\<close>

definition detach :: "unit controlled" where
  "detach = bind count_down (\<lambda>_. set_idle_since None)"

text \<open>The address a connection is forwarded to.\<close>

definition upstream_address :: "backend \<Rightarrow> u16 \<Rightarrow> ip_addr \<times> nat" where
  "upstream_address backend port = (be_ip backend, unat port)"

section \<open>The process\<close>

definition idle_round :: "unit controlled" where
  "idle_round = matching idle_tick (\<lambda>outcome. case outcome of Inr _ \<Rightarrow> ret () | Inl _ \<Rightarrow> set_idle_since None)"

text \<open>The loop of the idle task, for some of its rounds.\<close>

primrec idle_task :: "nat \<Rightarrow> unit controlled" where
  "idle_task 0 = ret ()"
| "idle_task (Suc n) = bind (sleep 5000) (\<lambda>_. bind idle_round (\<lambda>_. idle_task n))"

text \<open>Start: configuration, listeners, controller, the health listener.\<close>

fun bind_all :: "(nat \<Rightarrow> string + unit) \<Rightarrow> u16 list \<Rightarrow> string + unit" where
  "bind_all listen [] = Inr ()"
| "bind_all listen (port # ports) = andThen (listen (unat port)) (\<lambda>_. bind_all listen ports)"

definition start_proxy :: "process \<Rightarrow> (nat \<Rightarrow> string + unit) \<Rightarrow> (unit, controller) action" where
  "start_proxy env listen =
     bind (lift (from_env env)) (\<lambda>config.
     bind (lift (bind_all listen (cf_listeners config))) (\<lambda>_.
     bind (controller_new env config) (\<lambda>controller.
     bind (lift (listen 4090)) (\<lambda>_. ret controller))))"

text \<open>
  A running process: its controller, the sockets that have sent nothing yet, the forwarded
  ones, the connections whose task panicked under the lock, and whether it is terminating.
\<close>

record proxy =
  px_controller :: controller
  px_reading :: "u16 list"
  px_attached :: "(u16 \<times> backend) list"
  px_panicked :: nat
  px_terminating :: bool

definition proxy_init :: "controller \<Rightarrow> proxy" where
  "proxy_init controller = \<lparr>px_controller = controller, px_reading = [], px_attached = [],
     px_panicked = 0, px_terminating = False\<rparr>"

text \<open>A dropped future: the request it was waiting for, if any, has some outcome.\<close>

inductive dropped :: "'w world \<Rightarrow> 'w \<Rightarrow> ('s, 'a) proc \<Rightarrow> 's \<Rightarrow> 'w \<Rightarrow> bool" for R :: "'w world" where
  InFlight: "suspends t es s (Some rq) \<Longrightarrow> goes R w es w1 \<Longrightarrow> R w1 (EvHttp rq r) w' \<Longrightarrow> dropped R w t s w'"
| Asleep: "suspends t es s None \<Longrightarrow> goes R w es w' \<Longrightarrow> dropped R w t s w'"

inductive proxy_step :: "'w world \<Rightarrow> process \<Rightarrow> (nat \<Rightarrow> string + unit) \<Rightarrow>
    proxy option \<times> 'w \<Rightarrow> proxy option \<times> 'w \<Rightarrow> bool"
  for R :: "'w world" and env :: process and listen :: "nat \<Rightarrow> string + unit" where
  Accept: "\<not> px_terminating p \<Longrightarrow> port \<in> set (cf_listeners (ct_config (px_controller p))) \<Longrightarrow>
    proxy_step R env listen (Some p, w) (Some (p\<lparr>px_reading := port # px_reading p\<rparr>), w)"
| Silent: "wants_worker first \<noteq> Inr True \<Longrightarrow>
    proxy_step R env listen (Some p, w) (Some (p\<lparr>px_reading := remove1 port (px_reading p)\<rparr>), w)"
| Attach: "port \<in> set (px_reading p) \<Longrightarrow> wants_worker first = Inr True \<Longrightarrow>
    runs (attach fuel (px_controller p)) es (Inr backend, c) \<Longrightarrow> goes R w es w' \<Longrightarrow>
    proxy_step R env listen (Some p, w) (Some (p\<lparr>px_controller := c, px_reading := remove1 port (px_reading p),
      px_attached := (port, backend) # px_attached p\<rparr>), w')"
| Refuse: "port \<in> set (px_reading p) \<Longrightarrow> wants_worker first = Inr True \<Longrightarrow>
    runs (attach fuel (px_controller p)) es (Inl (Error error), c) \<Longrightarrow> goes R w es w' \<Longrightarrow>
    proxy_step R env listen (Some p, w) (Some (p\<lparr>px_controller := c, px_reading := remove1 port (px_reading p)\<rparr>), w')"
| Panic: "port \<in> set (px_reading p) \<Longrightarrow> wants_worker first = Inr True \<Longrightarrow>
    runs (attach fuel (px_controller p)) es (Inl (Panicked error), c) \<Longrightarrow> goes R w es w' \<Longrightarrow>
    proxy_step R env listen (Some p, w) (Some (p\<lparr>px_controller := c, px_reading := remove1 port (px_reading p),
      px_panicked := px_panicked p + 1\<rparr>), w')"
| Detach: "conn \<in> set (px_attached p) \<Longrightarrow> runs (detach (px_controller p)) [] (Inr (), c) \<Longrightarrow>
    proxy_step R env listen (Some p, w) (Some (p\<lparr>px_controller := c, px_attached := remove1 conn (px_attached p)\<rparr>), w)"
| Tick: "\<not> px_terminating p \<Longrightarrow> runs (idle_round (px_controller p)) es (Inr (), c) \<Longrightarrow> goes R w es w' \<Longrightarrow>
    proxy_step R env listen (Some p, w) (Some (p\<lparr>px_controller := c\<rparr>), w')"
| Terminate: "proxy_step R env listen (Some p, w) (Some (p\<lparr>px_terminating := True\<rparr>), w)"
| Abort: "dropped R w (idle_round (px_controller p)) c w' \<Longrightarrow>
    proxy_step R env listen (Some p, w) (Some (p\<lparr>px_controller := c, px_terminating := True\<rparr>), w')"
| Crash: "proxy_step R env listen (Some p, w) (None, w)"
| CrashWaking: "dropped R w (attach fuel (px_controller p)) c w' \<Longrightarrow>
    proxy_step R env listen (Some p, w) (None, w')"
| CrashTicking: "dropped R w (idle_round (px_controller p)) c w' \<Longrightarrow>
    proxy_step R env listen (Some p, w) (None, w')"
| Start: "runs (start_proxy env listen ()) es (Inr c, ()) \<Longrightarrow> goes R w es w' \<Longrightarrow>
    proxy_step R env listen (None, w) (Some (proxy_init c), w')"
| StartFails: "runs (start_proxy env listen ()) es (Inl error, ()) \<Longrightarrow> goes R w es w' \<Longrightarrow>
    proxy_step R env listen (None, w) (None, w')"
| CrashStarting: "dropped R w (start_proxy env listen ()) () w' \<Longrightarrow>
    proxy_step R env listen (None, w) (None, w')"
| World: "R w (EvSleep d) w' \<Longrightarrow> proxy_step R env listen (x, w) (x, w')"

abbreviation proxy_runs :: "'w world \<Rightarrow> process \<Rightarrow> (nat \<Rightarrow> string + unit) \<Rightarrow>
    proxy option \<times> 'w \<Rightarrow> proxy option \<times> 'w \<Rightarrow> bool" where
  "proxy_runs R env listen \<equiv> (proxy_step R env listen)\<^sup>*\<^sup>*"


end
