(* ===== verification/Proxy_Safety.thy ===== *)
theory Proxy_Safety
  imports Proxy_Server
begin

text \<open>
  The proxy process in any world that meets the laws. First the specifications of what runs
  under the lock, in \<open>idle_world\<close>; then \<open>attached_world\<close>, whose one further law says that the
  worker is put to sleep only by a sleep write. Restricted to traces without sleep writes, a
  world without danger is an \<open>idle_world\<close> again: this \<open>sublocale\<close> reuses every
  specification to show that while a connection is counted the worker stays up.
\<close>

text \<open>How a procedure changes the number of connections.\<close>

definition counted :: "controller \<Rightarrow> nat \<Rightarrow> controller \<Rightarrow> bool" where
  "counted s n s' \<longleftrightarrow> ct_connections s' = n \<and> ct_config s' = ct_config s"

definition attach_count :: "controller \<Rightarrow> perror + backend \<Rightarrow> nat" where
  "attach_count s r = (case r of Inl (Error e) \<Rightarrow> ct_connections s | _ \<Rightarrow> ct_connections s + 1)"

lemma attach_keeps:
  "wp anyhow (\<lambda>s' _ _. counted s (ct_connections s + 1) s') (attach fuel s)
     (\<lambda>(r, s') _. counted s (attach_count s r) s' \<and> unfenced r s') ()"
proof -
  let ?s = "s\<lparr>ct_connections := ct_connections s + 1\<rparr>"
  have "wp anyhow (\<lambda>s' _ _. same_identity ?s s') (wake fuel ?s) (\<lambda>(r, s') _. same_identity ?s s') ()"
    using identity_wake by (simp add: keeps_def)
  moreover have "wp anyhow (\<lambda>_ _ _. True) (wake fuel ?s) (\<lambda>(r, s') _. unfenced r s') ()"
    using wake_unfenced by (simp add: ends_def)
  ultimately have "wp anyhow (\<lambda>s' _ _. same_identity ?s s' \<and> True) (wake fuel ?s)
      (\<lambda>x w. (\<lambda>(r, s') _. same_identity ?s s') x w \<and> (\<lambda>(r, s') _. unfenced r s') x w) ()"
    by (rule wp_conj)
  then have wake: "wp anyhow (\<lambda>s' _ _. counted s (ct_connections s + 1) s') (wake fuel ?s)
      (\<lambda>(r, s') _. counted s (ct_connections s + 1) s' \<and> unfenced r s') ()"
    by (rule wp_both) (auto simp: same_identity_def counted_def)
  show ?thesis
    unfolding attach_def count_up_def
    unfolding wp_bind wp_modify prod.case sum.case
    by (rule wp_try [where P = "\<lambda>r s' _. counted s (ct_connections s + 1) s' \<and> unfenced r s'"], rule wake)
      (auto simp: counted_def attach_count_def count_down_def wp_bind split: perror.splits)
qed

lemma attach_connections: "suspends (attach fuel s) es s' q \<Longrightarrow> 0 < ct_connections s'"
  using anyhow_suspends [OF attach_keeps] by (simp add: counted_def)

lemma attach_result:
  assumes "runs (attach fuel s) es (r, s')"
  shows "ct_connections s' = attach_count s r" "ct_config s' = ct_config s" "is_ok r \<longrightarrow> \<not> ct_needs_fence s'"
  using anyhow_runs [OF attach_keeps assms] by (simp_all add: counted_def unfenced_def)

lemma detach_result: "runs (detach s) es (r, s') \<Longrightarrow>
    s' = s\<lparr>ct_connections := ct_connections s - 1, ct_idle_since := None\<rparr>"
  by (auto simp: detach_def count_down_def set_idle_since_def bind_def modify_def)

lemma identity_idle_round: "keeps same_identity idle_round"
  unfolding idle_round_def by (auto intro!: identity_rules identity_setters identity_idle_tick split: sum.splits)

definition sleep_event :: "event \<Rightarrow> bool" where
  "sleep_event e \<longleftrightarrow> (\<exists>rq r. e = EvHttp rq r \<and> is_sleep rq)"

definition suspend_event :: "event \<Rightarrow> bool" where
  "suspend_event e \<longleftrightarrow> (\<exists>rq r. e = EvHttp rq r \<and> is_suspend rq)"

lemma idle_connections: "suspends (idle_round s) es s' q \<Longrightarrow> ct_connections s' = ct_connections s"
  using keeps_suspends [OF identity_idle_round] by (simp add: same_identity_def)

section \<open>Under the lock\<close>

context idle_world
begin

lemma attach_spec:
  assumes "guarded s w" "hostname_ok (ct_config s)"
  shows "wp R awaiting (attach fuel s) (\<lambda>(r, s') w'. guarded s' w') w"
proof -
  let ?s = "s\<lparr>ct_connections := ct_connections s + 1\<rparr>"
  have "guarded ?s w" "hostname_ok (ct_config ?s)" using assms by (simp_all add: guarded_def)
  then have wake: "spec settled (wake fuel) ?s w" by (rule wake_spec)
  show ?thesis
    unfolding attach_def count_up_def wp_bind wp_modify prod.case sum.case
    by (rule wp_try [where P = "settled ?s w"], rule wake)
      (auto simp: settled_def count_down_def wp_bind guarded_def)
qed

lemma idle_round_spec:
  assumes "guarded s w" "hostname_ok (ct_config s)"
  shows "wp R awaiting (idle_round s) (\<lambda>(r, s') w'. guarded s' w') w"
  unfolding idle_round_def
  by (rule wp_try [where P = "settled s w"], rule idle_tick_spec [OF assms])
    (auto simp: settled_def set_idle_since_def guarded_def)

text \<open>The request a dropped future waited for leaves the controller guarded, whatever becomes of it.\<close>

lemma awaiting_settles:
  assumes "awaiting s (Some rq) w" "R w (EvHttp rq r) w'"
  shows "guarded s w'"
proof -
  have g: "safe w" and f: "ct_needs_fence s \<or> \<not> danger w" using assms(1) by (auto simp: awaiting_def guarded_def)
  consider (sleep) "is_sleep rq" | (patch) "is_patch rq" "\<not> is_sleep rq" | (resume) "is_resume rq"
    | (quiet) "\<not> is_patch rq" "\<not> is_resume rq"
    by blast
  then show ?thesis
  proof cases
    case sleep
    then have "is_patch rq" by (simp add: is_sleep_def)
    with assms sleep sleeps [OF g assms(2) sleep] show ?thesis by (auto simp: awaiting_def guarded_def)
  next
    case patch
    with assms patches [OF g assms(2) patch(1)] show ?thesis by (auto simp: awaiting_def guarded_def)
  next
    case resume
    then have "\<not> danger w" using assms(1) by (simp add: awaiting_def)
    from resumes [OF g this assms(2) resume] show ?thesis by (simp add: guarded_def)
  next
    case quiet
    then have "\<not> delicate (EvHttp rq r)" by simp
    with idle_world_axioms quiet_stays [OF g assms(2)] f show ?thesis by (auto simp: guarded_def stays_def)
  qed
qed

lemma dropped_guarded:
  assumes "dropped R w t s w'" "wp R awaiting t Q w"
  shows "guarded s w'"
  using assms(1)
proof cases
  case (InFlight es rq w1 r)
  then have "awaiting s (Some rq) w1" using wp_suspends assms(2) by metis
  then show ?thesis using InFlight(3) by (rule awaiting_settles)
next
  case (Asleep es)
  then have "awaiting s None w'" using wp_suspends assms(2) by metis
  then show ?thesis by (simp add: awaiting_def)
qed

lemma start_proxy_spec:
  assumes "safe w"
  shows "wp R starting (start_proxy env listen ()) (\<lambda>(r, u) w'. safe w' \<and>
    (\<forall>c. r = Inr c \<longrightarrow> clear c w' \<and> ct_connections c = 0 \<and> from_env env = Inr (ct_config c))) w"
proof (cases "from_env env")
  case (Inr config)
  show ?thesis
  proof (cases "bind_all listen (cf_listeners config)")
    case (Inr u)
    have "wp R starting (bind (controller_new env config) (\<lambda>c. bind (lift (listen 4090)) (\<lambda>_. ret c)) ())
      (\<lambda>(r, u) w'. safe w' \<and> (\<forall>c. r = Inr c \<longrightarrow> clear c w' \<and> ct_connections c = 0 \<and>
        from_env env = Inr (ct_config c))) w"
      by (rule wp_seq [where P = "started config"], rule controller_new_spec [OF assms])
        (auto simp: started_def wp_bind \<open>from_env env = Inr config\<close> map_err_def split: sum.splits)
    then show ?thesis by (simp add: start_proxy_def wp_bind [where m = "lift r" for r] \<open>from_env env = Inr config\<close> Inr)
  qed (simp add: start_proxy_def wp_bind Inr assms)
qed (simp add: start_proxy_def wp_bind assms)

lemma starting_settles:
  assumes "starting u (Some rq) w" "R w (EvHttp rq r) w'"
  shows "safe w'"
proof -
  have s: "safe w" using assms(1) by (simp add: starting_def)
  consider (sleep) "is_sleep rq" | (patch) "is_patch rq" "\<not> is_sleep rq" | (resume) "is_resume rq"
    | (quiet) "\<not> is_patch rq" "\<not> is_resume rq"
    by blast
  then show ?thesis
  proof cases
    case sleep
    then have "is_patch rq" by (simp add: is_sleep_def)
    with assms(1) sleep sleeps [OF s assms(2) sleep] show ?thesis by (auto simp: starting_def)
  next
    case patch
    with assms(1) patches [OF s assms(2) patch(1)] show ?thesis by (auto simp: starting_def)
  next
    case resume
    with assms(1) resumes [OF s _ assms(2) resume] show ?thesis by (simp add: starting_def)
  next
    case quiet
    then have "\<not> delicate (EvHttp rq r)" by simp
    with quiet_safe [OF s assms(2)] show ?thesis by simp
  qed
qed

lemma dropped_safe:
  assumes "dropped R w t () w'" "wp R starting t Q w"
  shows "safe w'"
  using assms(1)
proof cases
  case (InFlight es rq w1 r)
  then have "starting () (Some rq) w1" using wp_suspends assms(2) by metis
  then show ?thesis using InFlight(3) by (rule starting_settles)
next
  case (Asleep es)
  then have "starting () None w'" using wp_suspends assms(2) by metis
  then show ?thesis by (simp add: starting_def)
qed

end

section \<open>What lasts while a connection is counted\<close>

text \<open>
  \<open>calm\<close> events leave \<open>holds\<close> alone in a world that is not in danger; what is not calm puts
  the worker to sleep or suspends it. With the calm events only, a world out of danger where
  \<open>holds\<close> is true is an \<open>idle_world\<close> again, so every specification above gives that it lasts.
\<close>

locale lasting_world = idle_world +
  fixes calm :: "event \<Rightarrow> bool" and holds :: "'a \<Rightarrow> bool"
  assumes calm_awake: "calm e \<Longrightarrow> \<not> sleep_event e"
    and restless: "\<not> calm e \<Longrightarrow> sleep_event e \<or> suspend_event e"
    and lasts: "safe w \<Longrightarrow> \<not> danger w \<Longrightarrow> R w e w' \<Longrightarrow> calm e \<Longrightarrow>
      (\<And>rq r b. e = EvHttp rq r \<Longrightarrow> is_patch rq \<Longrightarrow> rq_body rq = Some b \<Longrightarrow> known (resource_version b) w) \<Longrightarrow>
      holds w \<Longrightarrow> holds w'"

sublocale lasting_world \<subseteq> kept: idle_world "\<lambda>w e w'. R w e w' \<and> calm e" "\<lambda>_. False" "\<lambda>_. True"
  "\<lambda>w. safe w \<and> \<not> danger w \<and> holds w" known
proof unfold_locales
  fix w e w'
  assume s: "safe w \<and> \<not> danger w \<and> holds w" and r: "R w e w' \<and> calm e" and d: "\<not> delicate e"
  then show "(safe w' \<and> \<not> danger w' \<and> holds w') \<and> (False \<longrightarrow> False) \<and> (True \<longrightarrow> \<not> False \<longrightarrow> True)"
    using quiet [of w e w'] lasts [of w e w'] by (auto simp: delicate_def)
next
  fix w e w' v
  assume "safe w \<and> \<not> danger w \<and> holds w" "R w e w' \<and> calm e" "known v w"
  then show "known v w'" using remembers by blast
next
  fix w kube path query t r w' v
  assume "safe w \<and> \<not> danger w \<and> holds w" "R w (EvHttp (http_get kube path query t) r) w' \<and>
    calm (EvHttp (http_get kube path query t) r)" "decoded r = Inr v"
  then show "known (resource_version v) w'" using learns by blast
next
  fix w rq r w'
  assume "safe w \<and> \<not> danger w \<and> holds w" "R w (EvHttp rq r) w' \<and> calm (EvHttp rq r)" "is_resume rq"
  then show "(safe w' \<and> \<not> danger w' \<and> holds w') \<and> \<not> False"
    using resumes [of w rq r w'] lasts [of w "EvHttp rq r" w'] by (auto simp: is_resume_def is_patch_def to_worker_def)
next
  fix w rq r w' b
  assume "safe w \<and> \<not> danger w \<and> holds w" "R w (EvHttp rq r) w' \<and> calm (EvHttp rq r)" "is_patch rq"
    "rq_body rq = Some b" "known (resource_version b) w" "\<not> is_sleep rq"
  moreover from this have "holds w'"
    by (intro lasts [of w "EvHttp rq r" w']) auto
  ultimately show "(safe w' \<and> \<not> danger w' \<and> holds w') \<and> (False \<longrightarrow> False)"
    using patches [of w rq r w' b] by auto
next
  fix w rq r w' b
  assume "R w (EvHttp rq r) w' \<and> calm (EvHttp rq r)" "is_sleep rq"
  then show "safe w' \<and> \<not> danger w' \<and> holds w'" using calm_awake [of "EvHttp rq r"] by (simp add: sleep_event_def)
qed simp_all

context lasting_world
begin

definition lasting :: "'a \<Rightarrow> bool" where
  "lasting w \<longleftrightarrow> safe w \<and> \<not> danger w \<and> holds w"

lemma kept_guarded: "kept.guarded s w \<longleftrightarrow> lasting w"
  by (auto simp: kept.guarded_def lasting_def)

lemma guarded_lasting: "guarded s w \<Longrightarrow> \<not> danger w \<Longrightarrow> holds w \<Longrightarrow> kept.guarded s w"
  by (simp add: kept.guarded_def guarded_def)

lemma goes_calm: "goes R w es w' \<Longrightarrow> \<forall>e \<in> set es. calm e \<Longrightarrow> goes (\<lambda>w e w'. R w e w' \<and> calm e) w es w'"
  by (induction es arbitrary: w) auto

lemma awaiting_calm: "awaiting s (Some rq) w \<Longrightarrow> 0 < ct_connections s \<Longrightarrow> calm (EvHttp rq r)"
  using restless [of "EvHttp rq r"] by (auto simp: awaiting_def sleep_event_def suspend_event_def)

text \<open>While a connection is counted, the traces are calm.\<close>

lemma trace_calm:
  assumes "goes R w es w'" "wp R awaiting t Q w"
    and "\<And>es1 s' q. suspends t es1 s' q \<Longrightarrow> 0 < ct_connections s'"
    and "(\<exists>x. runs t es x) \<or> (\<exists>s q. suspends t es s q)"
  shows "\<forall>e \<in> set es. calm e"
proof
  fix e
  assume "e \<in> set es"
  then obtain es1 es2 where es: "es = es1 @ e # es2" by (auto simp: in_set_conv_decomp)
  show "calm e"
  proof (rule ccontr)
    assume no: "\<not> calm e"
    then obtain rq r where e: "e = EvHttp rq r"
      using restless [of e] by (auto simp: sleep_event_def suspend_event_def)
    have "\<exists>s. suspends t es1 s (Some rq)"
      using assms(4) by (auto simp: es e dest: runs_exchange suspends_exchange)
    then obtain s where s: "suspends t es1 s (Some rq)" ..
    obtain w1 where "goes R w es1 w1" using assms(1) by (auto simp: es goes_append)
    from wp_suspends [OF s this assms(2)] have "awaiting s (Some rq) w1" .
    from awaiting_calm [OF this assms(3) [OF s]] no show False by (simp add: e)
  qed
qed

lemma runs_lasting:
  assumes "runs t es x" "goes R w es w'" "wp R awaiting t Q w"
    and "\<And>es1 s' q. suspends t es1 s' q \<Longrightarrow> 0 < ct_connections s'"
    and "wp (\<lambda>w e w'. R w e w' \<and> calm e) kept.awaiting t (\<lambda>(r, s') w'. kept.guarded s' w') w"
  shows "lasting w'"
proof -
  have "\<forall>e \<in> set es. calm e"
    by (rule trace_calm [OF assms(2,3)], rule assms(4), assumption) (use assms(1) in blast)
  with assms(2) have "goes (\<lambda>w e w'. R w e w' \<and> calm e) w es w'" by (rule goes_calm)
  from wp_sound [OF assms(1) this assms(5)] show ?thesis
    by (auto simp: kept_guarded split: prod.splits)
qed

lemma dropped_lasting:
  assumes "dropped R w t s w'" "wp R awaiting t Q w"
    and "\<And>es1 s' q. suspends t es1 s' q \<Longrightarrow> 0 < ct_connections s'"
    and "wp (\<lambda>w e w'. R w e w' \<and> calm e) kept.awaiting t P w"
  shows "lasting w'"
proof -
  have calm: "goes (\<lambda>w e w'. R w e w' \<and> calm e) w es w1" if "suspends t es s q" "goes R w es w1" for es q w1
  proof (rule goes_calm [OF that(2)])
    show "\<forall>e \<in> set es. calm e"
      by (rule trace_calm [OF that(2) assms(2)], rule assms(3), assumption) (use that(1) in blast)
  qed
  have "dropped (\<lambda>w e w'. R w e w' \<and> calm e) w t s w'"
    using assms(1)
  proof cases
    case (InFlight es rq w1 r)
    have "awaiting s (Some rq) w1" using wp_suspends [OF InFlight(1,2) assms(2)] .
    from awaiting_calm [OF this assms(3) [OF InFlight(1)]] have "calm (EvHttp rq r)" .
    with InFlight calm show ?thesis by (blast intro: dropped.InFlight)
  qed (use calm in \<open>blast intro: dropped.Asleep\<close>)
  from kept.dropped_guarded [OF this assms(4)] show ?thesis by (simp add: kept_guarded)
qed

lemma attach_lasts:
  assumes "guarded s w" "hostname_ok (ct_config s)" "\<not> danger w" "holds w"
    and "runs (attach fuel s) es x" "goes R w es w'"
  shows "lasting w'"
proof (rule runs_lasting [OF assms(5,6)])
  show "wp R awaiting (attach fuel s) (\<lambda>(r, s') w'. guarded s' w') w" using assms(1,2) by (rule attach_spec)
  show "wp (\<lambda>w e w'. R w e w' \<and> calm e) kept.awaiting (attach fuel s)
      (\<lambda>(r, s') w'. kept.guarded s' w') w"
    using guarded_lasting [OF assms(1,3,4)] assms(2) by (rule kept.attach_spec)
qed (rule attach_connections)

lemma idle_lasts:
  assumes "guarded s w" "hostname_ok (ct_config s)" "\<not> danger w" "holds w" "0 < ct_connections s"
  shows "runs (idle_round s) es x \<Longrightarrow> goes R w es w' \<Longrightarrow> lasting w'"
    and "dropped R w (idle_round s) s' w' \<Longrightarrow> lasting w'"
proof -
  have base: "wp R awaiting (idle_round s) (\<lambda>(r, s') w'. guarded s' w') w"
    using assms(1,2) by (rule idle_round_spec)
  have kept: "wp (\<lambda>w e w'. R w e w' \<and> calm e) kept.awaiting (idle_round s)
      (\<lambda>(r, s') w'. kept.guarded s' w') w"
    using guarded_lasting [OF assms(1,3,4)] assms(2) by (rule kept.idle_round_spec)
  have n: "0 < ct_connections s1" if "suspends (idle_round s) es1 s1 q" for es1 s1 q
    using idle_connections [OF that] assms(5) by simp
  show "runs (idle_round s) es x \<Longrightarrow> goes R w es w' \<Longrightarrow> lasting w'"
    by (rule runs_lasting [OF _ _ base _ kept]) (auto intro: n)
  show "dropped R w (idle_round s) s' w' \<Longrightarrow> lasting w'"
    by (rule dropped_lasting [OF _ base _ kept]) (auto intro: n)
qed

end

section \<open>The worker stays up while a connection is counted\<close>

locale attached_world = idle_world +
  fixes downs :: "'a \<Rightarrow> nat"
  assumes steady: "safe w \<Longrightarrow> \<not> danger w \<Longrightarrow> R w e w' \<Longrightarrow> \<not> sleep_event e \<Longrightarrow>
      (\<And>rq r b. e = EvHttp rq r \<Longrightarrow> is_patch rq \<Longrightarrow> rq_body rq = Some b \<Longrightarrow> known (resource_version b) w) \<Longrightarrow>
      downs w' = downs w"

text \<open>Without sleep writes a world that is not in danger never is, and its worker stays up.\<close>

sublocale attached_world \<subseteq> pinned: lasting_world R danger closed safe known
  "\<lambda>e. \<not> sleep_event e" "\<lambda>w. downs w = k" for k
proof unfold_locales
  fix w e w'
  assume "safe w" "\<not> danger w" "R w e w'" "\<not> sleep_event e" "downs w = k"
    "\<And>rq r b. e = EvHttp rq r \<Longrightarrow> is_patch rq \<Longrightarrow> rq_body rq = Some b \<Longrightarrow> known (resource_version b) w"
  then show "downs w' = k" using steady [of w e w'] by simp
qed simp_all

context attached_world
begin

lemma attach_up:
  assumes "guarded s w" "hostname_ok (ct_config s)" "\<not> danger w"
    and "runs (attach fuel s) es x" "goes R w es w'"
  shows "\<not> danger w'" "downs w' = downs w"
  using pinned.attach_lasts [OF assms(1-3) refl assms(4,5)] by (simp_all add: pinned.lasting_def)

lemma idle_up:
  assumes "guarded s w" "hostname_ok (ct_config s)" "\<not> danger w" "0 < ct_connections s"
    and "runs (idle_round s) es (r, s') \<and> goes R w es w' \<or> dropped R w (idle_round s) s' w'"
  shows "\<not> danger w'" "downs w' = downs w"
  using pinned.idle_lasts [OF assms(1-3) refl assms(4)] assms(5) by (simp_all add: pinned.lasting_def) blast+

text \<open>
  The invariant of the process: it is guarded, it counts its connections, and while one is
  attached no sleep write in flight would be applied.
\<close>

definition sound :: "proxy option \<Rightarrow> 'a \<Rightarrow> bool" where
  "sound x w \<longleftrightarrow> safe w \<and> (\<forall>p. x = Some p \<longrightarrow>
     guarded (px_controller p) w \<and> hostname_ok (ct_config (px_controller p)) \<and>
     ct_connections (px_controller p) = length (px_attached p) + px_panicked p \<and>
     (px_attached p \<noteq> [] \<longrightarrow> \<not> danger w))"

lemma dropped_identity: "dropped R w (idle_round s) s' w' \<Longrightarrow> same_identity s s'"
  by (auto elim!: dropped.cases dest: keeps_suspends [OF identity_idle_round])

lemma attach_guarded:
  assumes "guarded s w" "hostname_ok (ct_config s)" "runs (attach fuel s) es (r, s')" "goes R w es w'"
  shows "guarded s' w'"
  using wp_sound [OF assms(3,4) attach_spec [OF assms(1,2)]] by simp

lemma idle_guarded:
  assumes "guarded s w" "hostname_ok (ct_config s)" "runs (idle_round s) es (r, s')" "goes R w es w'"
  shows "guarded s' w'"
  using wp_sound [OF assms(3,4) idle_round_spec [OF assms(1,2)]] by simp

lemma quiet_sound: "sound x w \<Longrightarrow> R w (EvSleep d) w' \<Longrightarrow> sound x w'"
  using quiet_stays [of w "EvSleep d" w'] by (auto simp: sound_def stays_def guarded_def)

lemma guarded_safe: "guarded s w \<Longrightarrow> safe w"
  by (simp add: guarded_def)

lemma sound_guarded:
  assumes "sound (Some p) w"
  shows "guarded (px_controller p) w" "hostname_ok (ct_config (px_controller p))" "safe w"
  using assms by (simp_all add: sound_def)

lemma attach_sound:
  assumes "sound (Some p) w" "runs (attach fuel (px_controller p)) es (r, c)" "goes R w es w'"
  shows "guarded c w'" "hostname_ok (ct_config c)" "ct_connections c = attach_count (px_controller p) r"
    "is_ok r \<or> px_attached p \<noteq> [] \<longrightarrow> \<not> danger w'"
proof -
  note g = sound_guarded [OF assms(1)] and c = attach_result [OF assms(2)]
  show "guarded c w'" using attach_guarded [OF g(1,2) assms(2,3)] .
  then show "is_ok r \<or> px_attached p \<noteq> [] \<longrightarrow> \<not> danger w'"
    using attach_up(1) [OF g(1,2) _ assms(2,3)] assms(1) c(3) by (auto simp: sound_def guarded_def)
qed (use attach_result [OF assms(2)] sound_guarded [OF assms(1)] in simp_all)

lemma idle_sound:
  assumes "sound (Some p) w"
    and "runs (idle_round (px_controller p)) es (r, c) \<and> goes R w es w' \<or> dropped R w (idle_round (px_controller p)) c w'"
  shows "sound (Some (p\<lparr>px_controller := c\<rparr>)) w'"
proof -
  note g = sound_guarded [OF assms(1)]
  have "guarded c w'"
    using assms(2) idle_guarded [OF g(1,2)] dropped_guarded [OF _ idle_round_spec [OF g(1,2)]] by blast
  moreover have "same_identity (px_controller p) c"
    using assms(2) keeps_runs [OF identity_idle_round] dropped_identity by blast
  moreover have "\<not> danger w'" if "px_attached p \<noteq> []"
  proof -
    have "\<not> danger w" "0 < ct_connections (px_controller p)" using assms(1) that by (simp_all add: sound_def)
    from idle_up(1) [OF g(1,2) this assms(2)] show ?thesis .
  qed
  ultimately show ?thesis using assms(1) by (simp add: sound_def guarded_def same_identity_def)
qed

lemma detach_sound:
  assumes "sound (Some p) w" "conn \<in> set (px_attached p)" "runs (detach (px_controller p)) es (r, c)"
  shows "sound (Some (p\<lparr>px_controller := c, px_attached := remove1 conn (px_attached p)\<rparr>)) w"
proof -
  obtain n where "length (px_attached p) = Suc n" using assms(2) by (cases "px_attached p") auto
  with assms(1,2) detach_result [OF assms(3)] show ?thesis by (auto simp: sound_def guarded_def length_remove1)
qed

lemma start_sound:
  assumes "safe w" "runs (start_proxy env listen ()) es (r, ())" "goes R w es w'"
    and "\<And>config. from_env env = Inr config \<Longrightarrow> hostname_ok config"
  shows "sound (case r of Inr c \<Rightarrow> Some (proxy_init c) | Inl _ \<Rightarrow> None) w'"
  using wp_sound [OF assms(2,3) start_proxy_spec [OF assms(1)]] assms(4)
  by (auto simp: sound_def proxy_init_def clear_def guarded_def split: sum.splits)

lemma safe_sound: "safe w \<Longrightarrow> sound None w"
  by (simp add: sound_def)

lemma dropped_sound:
  assumes "sound (Some p) w"
    and "dropped R w (attach fuel (px_controller p)) c w' \<or> dropped R w (idle_round (px_controller p)) c w'"
  shows "sound None w'"
proof -
  note g = sound_guarded [OF assms(1)]
  show ?thesis
    using assms(2) dropped_guarded [OF _ attach_spec [OF g(1,2)]] dropped_guarded [OF _ idle_round_spec [OF g(1,2)]]
    by (blast intro: safe_sound guarded_safe)
qed

theorem sound_step:
  assumes "proxy_step R env listen (x, w) (y, w')" "sound x w"
    and "\<And>config. from_env env = Inr config \<Longrightarrow> hostname_ok config"
  shows "sound y w'"
  using assms(1)
proof cases
  case (Attach port p first fuel es backend c)
  with attach_sound [of p w, OF _ Attach(5,6)] assms(2) show ?thesis
    by (simp add: sound_def guarded_def attach_count_def is_ok_def)
next
  case (Refuse port p first fuel es error c)
  with attach_sound [of p w, OF _ Refuse(5,6)] assms(2) show ?thesis
    by (simp add: sound_def guarded_def attach_count_def)
next
  case (Panic port p first fuel es error c)
  with attach_sound [of p w, OF _ Panic(5,6)] assms(2) show ?thesis
    by (simp add: sound_def guarded_def attach_count_def)
next
  case (Detach conn p c)
  then show ?thesis using detach_sound assms(2) by blast
next
  case (Tick p es c)
  then show ?thesis using idle_sound assms(2) by blast
next
  case (Abort p c)
  then have "sound (Some (p\<lparr>px_controller := c\<rparr>)) w'" using idle_sound assms(2) by blast
  then show ?thesis using Abort(2) by (simp add: sound_def)
next
  case (CrashWaking fuel p c)
  then show ?thesis using dropped_sound assms(2) by blast
next
  case (CrashTicking p c)
  then show ?thesis using dropped_sound assms(2) by blast
next
  case (Start es c)
  from start_sound [OF _ Start(3,4) assms(3)] Start(2) assms(2) show ?thesis by (simp add: sound_def)
next
  case (StartFails es error)
  from start_sound [OF _ StartFails(3,4) assms(3)] StartFails(2) assms(2) show ?thesis by (simp add: sound_def)
next
  case CrashStarting
  have "safe w" using assms(2) by (simp add: sound_def)
  from dropped_safe [OF CrashStarting(3) start_proxy_spec [OF this]] CrashStarting(2) show ?thesis
    by (simp add: safe_sound)
next
  case World
  then show ?thesis using assms(2) quiet_sound by blast
qed (use assms(2) in \<open>auto simp: sound_def\<close>)

theorem sound_reachable:
  assumes "proxy_runs R env listen (None, w0) (x, w)" "safe w0"
    and "\<And>config. from_env env = Inr config \<Longrightarrow> hostname_ok config"
  shows "sound x w"
  using assms(1)
proof (induction rule: rtranclp_induct2)
  case refl
  then show ?case using assms(2) by (simp add: sound_def)
next
  case (step x w y w')
  then show ?case using sound_step assms(3) by blast
qed

theorem steady_step:
  assumes "proxy_step R env listen (Some p, w) (Some p', w')" "sound (Some p) w" "px_attached p \<noteq> []"
  shows "downs w' = downs w"
proof -
  have g: "guarded (px_controller p) w" "hostname_ok (ct_config (px_controller p))" "\<not> danger w"
    and n: "0 < ct_connections (px_controller p)"
    using assms(2,3) by (simp_all add: sound_def)
  from assms(1) show ?thesis
  proof cases
    case (World d)
    then show ?thesis using g(3) steady [of w "EvSleep d" w'] assms(2) by (simp add: sound_def sleep_event_def)
    next
    case (Tick es c)
    then show ?thesis using idle_up(2) [OF g n, of es "Inr ()" c w'] by blast
  next
    case (Abort c)
    then show ?thesis using idle_up(2) [OF g n, of "[]" "Inr ()" c w'] by blast
  qed (use attach_up(2) [OF g] in auto)
qed

text \<open>A tick after which the worker is down has sent a sleep write.\<close>

lemma went_down:
  assumes "guarded s w" "hostname_ok (ct_config s)" "\<not> danger w"
    and "runs (idle_tick s) es x" "goes R w es w'" "downs w' \<noteq> downs w"
  obtains es1 rq r es2 s' where "es = es1 @ EvHttp rq r # es2" "is_sleep rq" "suspends (idle_tick s) es1 s' (Some rq)"
proof -
  have "\<not> (\<forall>e \<in> set es. \<not> sleep_event e)"
  proof
    assume "\<forall>e \<in> set es. \<not> sleep_event e"
    with assms(5) have g: "goes (\<lambda>w e w'. R w e w' \<and> \<not> sleep_event e) w es w'" by (rule pinned.goes_calm)
    from wp_sound [OF assms(4) g pinned.kept.idle_tick_spec [OF pinned.guarded_lasting [OF assms(1,3) refl] assms(2)]]
    show False using assms(6) by (auto simp: pinned.kept.settled_def pinned.kept_guarded pinned.lasting_def split: prod.splits)
  qed
  then obtain rq r where e: "EvHttp rq r \<in> set es" "is_sleep rq" by (auto simp: sleep_event_def)
  then obtain es1 es2 where es: "es = es1 @ EvHttp rq r # es2" by (meson split_list)
  have "\<exists>s'. suspends (idle_tick s) es1 s' (Some rq)"
    by (rule runs_exchange) (rule assms(4) [unfolded es])
  then obtain s' where "suspends (idle_tick s) es1 s' (Some rq)" ..
  with es e(2) show thesis by (rule that)
qed

end

end
