(* ===== verification/Proxy_Connection.thy ===== *)
theory Proxy_Connection
  imports Proxy_Safety "HOL-Library.Sublist"
begin

text \<open>
  A connection as one task (\<open>proxy_connection\<close> of \<open>main.rs\<close>): the first byte, the wake-up,
  the calls on the two sockets, and the count taken back; then the handler of the health
  listener and the choice the program makes from its arguments. A socket is a function from
  the calls made on it to their outcomes, and a task's calls are kept in their order. The
  lock is free between the wake-up and the end: \<open>Proxy_Server\<close> interleaves the two parts
  with everything else, here they follow each other.
\<close>

section \<open>Sockets\<close>

datatype side = Client | Upstream

datatype socket_call =
    Connect "ip_addr \<times> nat"
  | Nodelay side
  | WriteAll side string
  | CopyBidirectional

text \<open>Calls in sequence, each followed by the question mark.\<close>

fun calls :: "(socket_call \<Rightarrow> string + unit) \<Rightarrow> socket_call list \<Rightarrow> socket_call list \<times> (string + unit)" where
  "calls answer [] = ([], Inr ())"
| "calls answer (c # cs) = (case answer c of
     Inl e \<Rightarrow> ([c], Inl e)
   | Inr _ \<Rightarrow> (let (made, result) = calls answer cs in (c # made, result)))"

text \<open>The bytes the worker receives when every call succeeded and the client sends \<open>rest\<close>
  after its first byte: \<open>copy_bidirectional\<close> moves all of it.\<close>

fun received :: "string \<Rightarrow> socket_call list \<Rightarrow> string" where
  "received rest [] = []"
| "received rest (WriteAll Upstream bytes # cs) = bytes @ received rest cs"
| "received rest (CopyBidirectional # cs) = rest @ received rest cs"
| "received rest (c # cs) = received rest cs"

lemma calls_prefix: "calls answer cs = (made, result) \<Longrightarrow> prefix made cs"
  by (induction cs arbitrary: made) (auto split: sum.splits prod.splits)

lemma calls_Inr: "calls answer cs = (made, Inr ()) \<longleftrightarrow> made = cs \<and> (\<forall>c \<in> set cs. answer c = Inr ())"
proof (induction cs arbitrary: made)
  case (Cons c cs)
  obtain m r where "calls answer cs = (m, r)" by (cases "calls answer cs")
  with Cons show ?case by (cases "answer c"; cases r) auto
qed auto

lemma calls_Inl:
  "calls answer cs = (made, Inl e) \<Longrightarrow> made \<noteq> [] \<and> answer (last made) = Inl e \<and>
    (\<forall>c \<in> set (butlast made). answer c = Inr ())"
  by (induction cs arbitrary: made) (force split: sum.splits prod.splits if_splits)+

section \<open>The task of a connection\<close>

definition forwarding :: "char \<Rightarrow> backend \<Rightarrow> u16 \<Rightarrow> socket_call list" where
  "forwarding byte backend port =
     [Connect (upstream_address backend port), Nodelay Upstream, Nodelay Client,
      WriteAll Upstream [byte], CopyBidirectional]"

text \<open>The result of the task with the calls it made on the sockets.\<close>

definition proxy_connection :: "nat \<Rightarrow> string + string + char option \<Rightarrow> (socket_call \<Rightarrow> string + unit) \<Rightarrow>
    u16 \<Rightarrow> (socket_call list \<times> (string + unit)) controlled" where
  "proxy_connection fuel first answer port =
     bind (lift first) (\<lambda>read.
     bind (lift read) (\<lambda>byte.
     case byte of
       None \<Rightarrow> ret ([], Inr ())
     | Some byte \<Rightarrow>
         bind (attach fuel) (\<lambda>backend.
         let outcome = calls answer (forwarding byte backend port)
         in bind detach (\<lambda>_. ret outcome))))"

text \<open>The health listener's handler: whatever fails or takes too long is ignored.\<close>

definition CRLF :: string where
  "CRLF = [CHR 0x0D, CHR 0x0A]"

definition health_body :: string where
  "health_body = ''ok''"

definition health_reply :: string where
  "health_reply = ''HTTP/1.1 200 OK'' @ CRLF @ ''Content-Length: 2'' @ CRLF @ ''Connection: close'' @ CRLF @ CRLF @ health_body"

definition health_connection :: "(socket_call \<Rightarrow> string + unit) \<Rightarrow> string + string + nat \<Rightarrow> socket_call list" where
  "health_connection answer first =
     (case andThen first id of
        Inl _ \<Rightarrow> []
      | Inr n \<Rightarrow> if n = 0 then [] else fst (calls answer [WriteAll Client health_reply]))"

section \<open>Lemmas: a connection\<close>

lemma calls_forwarding:
  assumes "calls answer (forwarding byte backend port) = (made, Inr ())"
  shows "received rest made = byte # rest"
  using calls_Inr [THEN iffD1, OF assms] by (simp add: forwarding_def)

text \<open>However the task ends, short of a panic under the lock, it has given its count back.\<close>

lemma attached_then_detached:
  assumes "runs (attach fuel s) es (Inr backend, s1)" "runs (detach s1) es1 (r, s')"
  shows "ct_connections s' = ct_connections s" "ct_idle_since s' = None"
  using attach_result(1) [OF assms(1)] detach_result [OF assms(2)] by (simp_all add: attach_count_def)

lemma connection_outcome:
  assumes "runs (proxy_connection fuel (Inr (Inr (Some byte))) answer port s) es (Inr (made, result), s')"
  shows "\<exists>backend es1 s1. runs (attach fuel s) es1 (Inr backend, s1) \<and>
    calls answer (forwarding byte backend port) = (made, result) \<and>
    ct_connections s' = ct_connections s \<and> ct_idle_since s' = None"
proof -
  from assms obtain backend es1 s1 es2 es3 u s2 where
    "runs (attach fuel s) es1 (Inr backend, s1)" "runs (detach s1) es2 (Inr u, s2)"
    "runs (ret (calls answer (forwarding byte backend port)) s2) es3 (Inr (made, result), s')"
    unfolding proxy_connection_def by (auto elim!: runs_bindE simp: Let_def lift_def)
  then show ?thesis using attached_then_detached [of fuel s es1 backend s1 es2 "Inr u" s2]
    by (auto simp: ret_def) blast
qed

lemma connection_error:
  assumes "runs (proxy_connection fuel first answer port s) es (Inl (Error m), s')"
  shows "ct_connections s' = ct_connections s"
  using assms unfolding proxy_connection_def
  by (auto elim!: runs_bindE simp: Let_def lift_def ret_def detach_def count_down_def modify_def set_idle_since_def
      attach_count_def map_err_def dest!: attach_result(1) split: option.splits sum.splits)

lemma connection_runs:
  assumes "runs (attach fuel s) es (Inr backend, s1)"
  shows "runs (proxy_connection fuel (Inr (Inr (Some byte))) answer port s) es
    (Inr (calls answer (forwarding byte backend port)), s1\<lparr>ct_connections := ct_connections s1 - 1, ct_idle_since := None\<rparr>)"
proof -
  have attached: "runs (pbind (attach fuel s) f) es y" if "runs (f (Inr backend, s1)) [] y" for f y
    using runs_pbind [where t = "attach fuel s" and f = f, OF assms that] by simp
  have detached: "detach s1 = Done (Inr (), s1\<lparr>ct_connections := ct_connections s1 - 1, ct_idle_since := None\<rparr>)"
    by (simp add: detach_def bind_def count_down_def modify_def set_idle_since_def)
  show ?thesis
    unfolding proxy_connection_def bind_def lift_def map_err_def
    by simp (rule attached, simp add: detached ret_def Let_def runs.Done)
qed

text \<open>A silent client costs nothing.\<close>

lemma connection_silent: "proxy_connection fuel (Inr (Inr None)) answer port s = Done (Inr ([], Inr ()), s)"
  by (simp add: proxy_connection_def bind_def lift_def map_err_def ret_def)

text \<open>The declared length is that of the body, and one write sends the whole reply.\<close>

lemma health_connection_calls:
  "set (health_connection answer first) \<subseteq> {WriteAll Client health_reply}"
  by (auto simp: health_connection_def split: sum.splits if_splits)

section \<open>The program\<close>

text \<open>\<open>None\<close> is the end of the probe; the proxy goes on with its controller.\<close>

definition program :: "process \<Rightarrow> string list \<Rightarrow> (nat \<Rightarrow> string + unit) \<Rightarrow> (unit, controller option) action" where
  "program env args listen =
     (if 1 < length args \<and> args ! 1 = ''worker-ready'' then bind (worker_ready env) (\<lambda>_. ret None)
      else bind (start_proxy env listen) (\<lambda>controller. ret (Some controller)))"

text \<open>What a procedure asks of the network.\<close>

definition asks :: "(http_request \<Rightarrow> bool) \<Rightarrow> ('s, 'a) action \<Rightarrow> bool" where
  "asks P m \<longleftrightarrow> (\<forall>s es x. runs (m s) es x \<longrightarrow> (\<forall>rq r. EvHttp rq r \<in> set es \<longrightarrow> P rq))"

lemma asks_bind: "asks P m \<Longrightarrow> (\<And>x. asks P (f x)) \<Longrightarrow> asks P (bind m f)"
  unfolding asks_def by (intro allI impI, erule runs_bindE) (simp, blast, force)

lemma asks_basic [simp]:
  "asks P (lift x)" "asks P (ret y)" "asks P (bail e)" "asks P build_client" "asks P (read_to_string path)"
  "P rq \<Longrightarrow> asks P (send rq)"
  by (auto simp: asks_def lift_def ret_def bail_def fail_def build_client_def read_to_string_def send_def)

lemma asks_mono: "asks P m \<Longrightarrow> (\<And>rq. P rq \<Longrightarrow> Q rq) \<Longrightarrow> asks Q m"
  unfolding asks_def by blast

text \<open>The probe never reaches the cluster and changes nothing: its only request is a status
  request on the loopback address.\<close>

lemma probe_asks_status: "asks (\<lambda>rq. \<exists>hostname port token. rq = probe_request hostname port token) (worker_ready env)"
  unfolding worker_ready_def by (intro asks_bind) (auto intro: asks_basic(6))

lemma program_probe:
  assumes "1 < length args" "args ! 1 = ''worker-ready''"
  shows "asks (\<lambda>rq. rq_method rq = GET \<and> rq_body rq = None \<and> (\<exists>port. rq_peer rq = WorkerAt loopback port))
    (program env args listen)"
  using assms by (auto simp: program_def probe_request_def intro!: asks_bind asks_mono [OF probe_asks_status])

text \<open>Any other argument starts the proxy.\<close>

lemma program_proxy:
  assumes "\<not> (1 < length args \<and> args ! 1 = ''worker-ready'')" "runs (program env args listen ()) es (Inr x, ())"
  shows "\<exists>c. x = Some c \<and> runs (start_proxy env listen ()) es (Inr c, ())"
  using assms by (auto simp: program_def ret_def elim!: runs_bindE)

end
