(* ===== verification/Controller_Evidence.thy ===== *)
theory Controller_Evidence
  imports Controller_Fencing
begin

text \<open>
  What the controller has seen when it acts, as facts about the trace of events: before a
  sleep write it has seen one ready worker, idle for the timeout, that granted it a permit;
  and when \<open>wake\<close> returns a backend it has seen that worker ready and released.
\<close>

section \<open>Requests as single exchanges\<close>

lemma kube_deployment_exchange:
  "kube_deployment kube = exchange (kb_token_file kube) (http_get kube (kb_deployment_path kube) []) decoded"
  by (simp add: fun_eq_iff kube_deployment_def bind_def read_to_string_def exchange_def fetch_eq
      map_err_def split: sum.splits)

definition pods_request :: "kubernetes \<Rightarrow> string \<Rightarrow> http_request" where
  "pods_request kube = http_get kube (kb_pods_path kube) [(''labelSelector'', kb_selector kube)]"

definition pods_of_reply :: "string + http_response \<Rightarrow> string + json list" where
  "pods_of_reply r = andThen (decoded r) (\<lambda>result. ok_or ''missing pod list'' (as_array (index result ''items'')))"

lemma kube_pods_exchange: "kube_pods kube = exchange (kb_token_file kube) (pods_request kube) pods_of_reply"
proof -
  have "(kube_pods kube :: ('s, json list) action) = bind (exchange (kb_token_file kube) (pods_request kube) decoded)
      (\<lambda>result. lift (ok_or ''missing pod list'' (as_array (index result ''items''))))"
  proof (rule ext)
    fix s :: 's
    have "bind (fetch rq) f s = bind (\<lambda>s. Http s rq (\<lambda>r. Done (map_err Error (decoded r), s))) f s" for rq and f :: "json \<Rightarrow> ('s, json list) action"
      by (simp add: bind_def fetch_eq)
    then show "kube_pods kube s = bind (exchange (kb_token_file kube) (pods_request kube) decoded)
      (\<lambda>result. lift (ok_or ''missing pod list'' (as_array (index result ''items'')))) s"
      by (auto simp: kube_pods_def pods_request_def bind_def read_to_string_def exchange_def fun_eq_iff map_err_def
          split: sum.splits)
  qed
  then show ?thesis by (simp add: exchange_lift pods_of_reply_def [abs_def])
qed

section \<open>What a trace shows\<close>

text \<open>One pod in the list, ready, from which the backend was made.\<close>

definition saw_worker :: "kubernetes \<Rightarrow> backend \<Rightarrow> event list \<Rightarrow> bool" where
  "saw_worker kube b es \<longleftrightarrow> (\<exists>t r pod. EvHttp (pods_request kube t) r \<in> set es \<and> pods_of_reply r = Inr [pod] \<and>
     ready pod \<and> as_text (index (index pod ''metadata'') ''uid'') = Some (be_uid b) \<and>
     andThen (ok_or ''missing pod IP'' (as_text (index (index pod ''status'') ''podIP''))) parse_ip = Inr (be_ip b))"

definition saw_status :: "backend \<Rightarrow> idle_status \<Rightarrow> event list \<Rightarrow> bool" where
  "saw_status b st es \<longleftrightarrow> (\<exists>t r. EvHttp (control_request b GET ''/status'' t) r \<in> set es \<and> status_of_reply r = Inr st)"

definition saw_suspension :: "backend \<Rightarrow> idle_status \<Rightarrow> event list \<Rightarrow> bool" where
  "saw_suspension b st es \<longleftrightarrow>
     (\<exists>t r. EvHttp (control_request b POST ''/suspend'' t) r \<in> set es \<and> status_of_reply r = Inr st)"

text \<open>The idle timeout has passed since an instant read now or remembered for this boot.\<close>

definition saw_idle_time :: "controller \<Rightarrow> backend \<Rightarrow> string \<Rightarrow> event list \<Rightarrow> bool" where
  "saw_idle_time s b boot es \<longleftrightarrow> (\<exists>since t. EvNow t \<in> set es \<and> cf_idle_timeout (ct_config s) \<le> t - since \<and>
     (ct_idle_since s = Some (be_uid b, boot, since) \<or> EvNow since \<in> set es))"

text \<open>All that a sleep write rests on.\<close>

definition sleep_evidence :: "controller \<Rightarrow> event list \<Rightarrow> bool" where
  "sleep_evidence s es \<longleftrightarrow> (\<exists>b st granted. saw_worker (ct_kube s) b es \<and>
     saw_status b st es \<and> is_permit st = None \<and> \<not> is_busy st \<and> saw_idle_time s b (is_boot_id st) es \<and>
     saw_suspension b granted es \<and> is_permit granted \<noteq> None \<and> \<not> is_busy granted \<and>
     is_boot_id granted = is_boot_id st)"

lemma saw_mono:
  assumes "set es \<subseteq> set fs"
  shows "saw_worker kube b es \<Longrightarrow> saw_worker kube b fs" "saw_status b st es \<Longrightarrow> saw_status b st fs"
    "saw_suspension b st es \<Longrightarrow> saw_suspension b st fs" "saw_idle_time s b boot es \<Longrightarrow> saw_idle_time s b boot fs"
  using assms unfolding saw_worker_def saw_status_def saw_suspension_def saw_idle_time_def by blast+

lemma sleep_evidence_mono: "set es \<subseteq> set fs \<Longrightarrow> sleep_evidence s es \<Longrightarrow> sleep_evidence s fs"
  unfolding sleep_evidence_def using saw_mono by meson

section \<open>Procedures that send no sleep write\<close>

definition no_sleep :: "'s \<Rightarrow> http_request option \<Rightarrow> 'w \<Rightarrow> bool" where
  "no_sleep s pending w \<longleftrightarrow> (\<forall>rq. pending = Some rq \<longrightarrow> \<not> is_sleep rq)"

definition awake :: "('s, 'a) action \<Rightarrow> bool" where
  "awake m \<longleftrightarrow> (\<forall>s. wp anyhow no_sleep (m s) (\<lambda>_ _. True) ())"

lemma awake_basic:
  "awake (ret x)" "awake (fail e)" "awake (bail m)" "awake (lift r)" "awake (gets f)" "awake (modify g)"
  "awake (read_to_string p)" "awake build_client" "awake new_uuid" "awake now" "awake (sleep d)"
  by (simp_all add: awake_def no_sleep_def read_to_string_def build_client_def new_uuid_def now_def sleep_def)

lemma awake_bind:
  assumes "awake m" "\<And>x. awake (f x)"
  shows "awake (bind m f)"
  unfolding awake_def
proof
  fix s
  show "wp anyhow no_sleep (bind m f s) (\<lambda>_ _. True) ()"
    by (rule wp_seq [where P = "\<lambda>_ _ _. True"])
      (use assms in \<open>simp_all add: awake_def case_prod_unfold\<close>)
qed

lemma awake_matching:
  assumes "awake m" "\<And>x. awake (f x)"
  shows "awake (matching m f)"
  unfolding awake_def
proof
  fix s
  show "wp anyhow no_sleep (matching m f s) (\<lambda>_ _. True) ()"
    by (rule wp_try [where P = "\<lambda>_ _ _. True"])
      (use assms in \<open>simp_all add: awake_def case_prod_unfold\<close>)
qed

lemma awake_only_if: "awake m \<Longrightarrow> awake (only_if b m)"
  by (simp add: only_if_def awake_basic)

lemma awake_exchange: "(\<And>t. \<not> is_sleep (rq t)) \<Longrightarrow> awake (exchange tf rq f)"
  by (auto simp: awake_def exchange_def no_sleep_def split: sum.splits)

lemmas awake_rules = awake_basic awake_bind awake_matching awake_only_if

lemma awake_requests:
  "awake (kube_deployment kube)" "awake (kube_pods kube)" "awake (kube_patch kube d owner op None)"
  "awake (from_pod pod config)" "awake (backend_status b susp config)" "awake (resume b permit config)"
proof -
  show "awake (from_pod pod config)" unfolding from_pod_def by (intro awake_rules)
  have "\<not> is_sleep (pods_request kube t)" for t by (simp add: pods_request_def)
  then show "awake (kube_pods kube)" unfolding kube_pods_exchange by (rule awake_exchange)
  have "\<not> is_sleep (patch_request kube (patch_body d owner op None) t)" for t by (simp add: eq_int_def)
  then show "awake (kube_patch kube d owner op None)" unfolding kube_patch_exchange by (rule awake_exchange)
qed (unfold kube_deployment_exchange status_exchange resume_exchange, (rule awake_exchange, simp)+)

lemma awake_current: "awake current"
  unfolding current_def by (auto intro!: awake_rules awake_requests)

lemma awake_fence: "awake fence"
  unfolding fence_def guarded_patch_def set_needs_fence_def
  by (intro awake_rules awake_requests awake_current)

section \<open>Following the trace\<close>

text \<open>The invariant at every await, from the fields \<open>s0\<close> the procedure started with.\<close>

definition backed :: "controller \<Rightarrow> 's \<Rightarrow> http_request option \<Rightarrow> event list \<Rightarrow> bool" where
  "backed s0 s pending h \<longleftrightarrow> (\<forall>rq. pending = Some rq \<longrightarrow> is_sleep rq \<longrightarrow> sleep_evidence s0 h)"

abbreviation traced :: "controller \<Rightarrow> ('s, 'a) action \<Rightarrow> 's \<Rightarrow> event list \<Rightarrow> bool" where
  "traced s0 m s h \<equiv> wp history (backed s0) (m s) (\<lambda>_ _. True) h"

lemma awake_backed:
  assumes "wp R no_sleep t Q w"
  shows "wp R (backed s0) t Q w"
  using assms by (rule wp_both) (auto simp: no_sleep_def backed_def)

lemma awake_world:
  assumes "awake m"
  shows "wp R no_sleep (m s) (\<lambda>_ _. True) w"
proof -
  let ?J = "\<lambda>s q. \<forall>rq. q = Some rq \<longrightarrow> \<not> is_sleep rq"
  have "wp anyhow (\<lambda>s q _. ?J s q) (m s) (\<lambda>x _. True) ()"
    using assms by (simp add: awake_def no_sleep_def [abs_def])
  then have "wp R (\<lambda>s q _. ?J s q) (m s) (\<lambda>x _. True) w"
    using anyhow_world [of ?J "m s" "\<lambda>_. True" R w] by simp
  then show ?thesis by (rule wp_both) (simp_all add: no_sleep_def)
qed

lemma awake_traced: "awake m \<Longrightarrow> traced s0 m s h"
  by (intro awake_backed awake_world)

lemma evidence_traced:
  fixes m :: "('s, 'a) action"
  assumes "sleep_evidence s0 h"
  shows "traced s0 m s h"
proof -
  have "set h \<subseteq> set h1 \<Longrightarrow> wp history (backed s0) t (\<lambda>_ _. True) h1"
    for h1 and t :: "('s, (perror + 'a) \<times> 's) proc"
    by (induction t arbitrary: h1)
      (simp_all add: history_def subset_insertI2 backed_def sleep_evidence_mono [OF _ assms])
  then show ?thesis by simp
qed

lemma traced_bind:
  assumes "wp history no_sleep (m s) (\<lambda>(r, s') h'. P r s' h') h"
    and "\<And>x s' h'. P (Inr x) s' h' \<Longrightarrow> traced s0 (f x) s' h'"
  shows "traced s0 (bind m f) s h"
  by (rule wp_seq [where P = P], rule awake_backed, rule assms(1)) (simp_all add: assms(2))

definition moves :: "('s \<Rightarrow> 's \<Rightarrow> bool) \<Rightarrow> 's \<Rightarrow> event list \<Rightarrow> perror + 'a \<Rightarrow> 's \<Rightarrow> event list \<Rightarrow> bool" where
  "moves P s h r s' h' \<longleftrightarrow> P s s' \<and> set h \<subseteq> set h'"

lemma follow:
  assumes "preorder P" "keeps P m" "awake m"
  shows "wp history no_sleep (m s) (\<lambda>(r, s'). moves P s h r s') h"
proof -
  have "wp anyhow (\<lambda>s' _ _. P s s') (m s) (\<lambda>x _. P s (snd x)) ()"
    using assms(2) by (simp add: keeps_def case_prod_unfold)
  then have "wp history (\<lambda>s' _ _. P s s') (m s) (\<lambda>x _. P s (snd x)) h"
    using anyhow_world [of "\<lambda>s' _. P s s'" "m s" "\<lambda>x. P s (snd x)" history h] by simp
  moreover have "wp history no_sleep (m s) (\<lambda>_ _. True) h" using assms(3) by (rule awake_world)
  ultimately have "wp history (\<lambda>s' q w. P s s' \<and> no_sleep s' q w) (m s)
      (\<lambda>x h'. P s (snd x) \<and> True) h"
    by (rule wp_conj)
  from wp_conj [OF this history_grows] show ?thesis
    by (rule wp_both) (auto simp: moves_def)
qed

section \<open>The idle tick\<close>

text \<open>What stays the same up to the observation of idleness.\<close>

definition same_fields :: "controller \<Rightarrow> controller \<Rightarrow> bool" where
  "same_fields s s' \<longleftrightarrow> same_identity s s' \<and> ct_idle_since s' = ct_idle_since s"

lemma preorder_fields: "preorder same_fields"
  by (auto simp: preorder_def same_fields_def intro: same_identity_trans)

lemma fields_current: "keeps same_fields current"
  unfolding current_def
  by (auto intro!: keeps_rules [OF preorder_fields] keeps_kube [OF preorder_fields])

lemma fields_fence: "keeps same_fields fence"
proof -
  have "keeps same_fields (set_needs_fence b)" for b
    by (simp add: keeps_def set_needs_fence_def same_fields_def)
  then show ?thesis
    unfolding fence_def guarded_patch_def
    by (intro keeps_rules [OF preorder_fields] keeps_kube [OF preorder_fields] fields_current)
qed

text \<open>A read that leaves the fields alone and, when it succeeds, makes \<open>F\<close> true of the trace.\<close>

definition frames :: "('a \<Rightarrow> event list \<Rightarrow> bool) \<Rightarrow> 's \<Rightarrow> event list \<Rightarrow> perror + 'a \<Rightarrow> 's \<Rightarrow> event list \<Rightarrow> bool" where
  "frames F s h r s' h' \<longleftrightarrow> s' = s \<and> set h \<subseteq> set h' \<and> (\<forall>x. r = Inr x \<longrightarrow> F x h')"

lemma frames_Inr [simp]: "frames F s h (Inr x) s' h' \<longleftrightarrow> s' = s \<and> set h \<subseteq> set h' \<and> F x h'"
  by (simp add: frames_def)

lemma frames_Inl [simp]: "frames F s h (Inl e) s' h' \<longleftrightarrow> s' = s \<and> set h \<subseteq> set h'"
  by (simp add: frames_def)

lemma trace_exchange:
  assumes "\<And>t. \<not> is_sleep (rq t)"
    and "\<And>t r x fs. f r = Inr x \<Longrightarrow> set h \<subseteq> set fs \<Longrightarrow> EvHttp (rq t) r \<in> set fs \<Longrightarrow> F x fs"
  shows "wp history no_sleep (exchange tf rq f s) (\<lambda>(r, s'). frames F s h r s') h"
  using assms(1)
  by (auto simp: wp_exchange history_def no_sleep_def map_err_def split: sum.splits intro!: assms(2))

lemma trace_status:
  "wp history no_sleep (backend_status b False config s)
     (\<lambda>(r, s'). frames (saw_status b) s h r s') h"
  unfolding status_exchange by (rule trace_exchange) (auto simp: saw_status_def)

lemma trace_suspension:
  "wp history no_sleep (backend_status b True config s)
     (\<lambda>(r, s'). frames (saw_suspension b) s h r s') h"
  unfolding status_exchange by (rule trace_exchange) (auto simp: saw_suspension_def)

definition saw_pods :: "kubernetes \<Rightarrow> json list \<Rightarrow> event list \<Rightarrow> bool" where
  "saw_pods kube pods es \<longleftrightarrow> (\<exists>t r. EvHttp (pods_request kube t) r \<in> set es \<and> pods_of_reply r = Inr pods)"

lemma trace_pods: "wp history no_sleep (kube_pods kube s) (\<lambda>(r, s'). frames (saw_pods kube) s h r s') h"
  unfolding kube_pods_exchange by (rule trace_exchange) (auto simp: pods_request_def saw_pods_def)

definition made_from :: "json \<Rightarrow> backend \<Rightarrow> event list \<Rightarrow> bool" where
  "made_from pod b es \<longleftrightarrow> as_text (index (index pod ''metadata'') ''uid'') = Some (be_uid b) \<and>
     andThen (ok_or ''missing pod IP'' (as_text (index (index pod ''status'') ''podIP''))) parse_ip = Inr (be_ip b)"

lemma trace_from_pod:
  "wp history no_sleep (from_pod pod config s) (\<lambda>(r, s'). frames (made_from pod) s h r s') h"
proof (cases "andThen (ok_or ''missing pod IP'' (as_text (index (index pod ''status'') ''podIP''))) parse_ip")
  case (Inl e)
  then show ?thesis by (simp add: from_pod_def wp_bind)
next
  case (Inr ip)
  show ?thesis
  proof (cases "as_text (index (index pod ''metadata'') ''uid'')")
    case None
    with Inr show ?thesis by (simp add: from_pod_def wp_bind)
  next
    case (Some uid)
    with Inr show ?thesis
      by (auto simp: from_pod_def wp_bind build_client_def history_def map_err_def made_from_def subset_insertI2 split: sum.splits)
  qed
qed

definition saw_found :: "kubernetes \<Rightarrow> backend option \<Rightarrow> event list \<Rightarrow> bool" where
  "saw_found kube found es \<longleftrightarrow> (\<forall>b. found = Some b \<longrightarrow> saw_worker kube b es)"

lemma trace_ready_backend:
  "wp history no_sleep (ready_backend s) (\<lambda>(r, s'). frames (saw_found (ct_kube s)) s h r s') h"
proof -
  let ?Q = "\<lambda>(r, s'). frames (saw_found (ct_kube s)) s h r s'"
  have one: "wp history no_sleep (bind (from_pod pod (ct_config s)) (\<lambda>backend. ret (Some backend)) s) ?Q h1"
    if "set h \<subseteq> set h1" "saw_pods (ct_kube s) [pod] h1" "ready pod" for pod h1
    by (rule wp_seq_post, rule trace_from_pod)
      (use that in \<open>auto simp: saw_worker_def saw_found_def saw_pods_def made_from_def\<close>)
  have "wp history no_sleep (bind (kube_pods (ct_kube s)) (\<lambda>pods. if length pods \<noteq> 1 then ret None
     else let ready_pods = filter ready pods in
       if 1 < length ready_pods then bail ''idle mode requires exactly one worker''
       else case ready_pods of [] \<Rightarrow> ret None
         | pod # _ \<Rightarrow> bind (from_pod pod (ct_config s)) (\<lambda>backend. ret (Some backend))) s) ?Q h"
  proof (rule wp_seq_post, rule trace_pods)
    fix pods s1 h1
    assume "frames (saw_pods (ct_kube s)) s h (Inr pods) s1 h1"
    then have s1: "s1 = s" and h1: "set h \<subseteq> set h1" and l: "saw_pods (ct_kube s) pods h1" by simp_all
    have "wp history no_sleep (bind (from_pod pod (ct_config s)) (\<lambda>backend. ret (Some backend)) s) ?Q h1"
      if "pods = [pod]" "ready pod" for pod
      using one [OF h1 _ that(2)] l that(1) by blast
    with h1 show "wp history no_sleep ((if length pods \<noteq> 1 then ret None
     else let ready_pods = filter ready pods in
       if 1 < length ready_pods then bail ''idle mode requires exactly one worker''
       else case ready_pods of [] \<Rightarrow> ret None
         | pod # _ \<Rightarrow> bind (from_pod pod (ct_config s)) (\<lambda>backend. ret (Some backend))) s1) ?Q h1"
      unfolding s1 by (cases pods; cases "tl pods") (auto simp: Let_def saw_found_def)
  qed simp
  then show ?thesis by (simp add: ready_backend_def wp_bind [where m = "gets f" for f])
qed

lemma awake_setters: "awake (set_idle_since x)"
  by (simp add: set_idle_since_def awake_basic)

lemma trace_after_suspension:
  assumes "saw_worker (ct_kube s0) b h" "saw_status b st h" "is_permit st = None" "\<not> is_busy st"
    and "saw_idle_time s0 b (is_boot_id st) h" "saw_suspension b granted h"
  shows "traced s0 (after_suspension deployment b st granted) s h"
proof (cases "is_permit granted = None \<or> is_busy granted \<or> is_boot_id granted \<noteq> is_boot_id st")
  case True
  then have "awake (after_suspension deployment b st granted)"
    by (auto simp: after_suspension_def intro!: awake_rules awake_setters split: option.splits)
  then show ?thesis by (rule awake_traced)
next
  case False
  then have "sleep_evidence s0 h" using assms by (auto simp: sleep_evidence_def)
  then show ?thesis by (rule evidence_traced)
qed

definition observed :: "controller \<Rightarrow> backend \<Rightarrow> string \<Rightarrow> instant \<Rightarrow> event list \<Rightarrow> bool" where
  "observed s b boot since h \<longleftrightarrow> ct_idle_since s = Some (be_uid b, boot, since) \<or> EvNow since \<in> set h"

definition observes :: "controller \<Rightarrow> backend \<Rightarrow> string \<Rightarrow> controller \<Rightarrow> event list \<Rightarrow> perror + instant \<Rightarrow>
    controller \<Rightarrow> event list \<Rightarrow> bool" where
  "observes s0 b boot s h r s' h' \<longleftrightarrow> ct_config s' = ct_config s \<and> set h \<subseteq> set h' \<and>
     (\<forall>since. r = Inr since \<longrightarrow> observed s0 b boot since h')"

lemma trace_observe_idle:
  assumes "ct_idle_since s = ct_idle_since s0"
  shows "wp history no_sleep (observe_idle b st s) (\<lambda>(r, s'). observes s0 b (is_boot_id st) s h r s') h"
  using assms
  by (auto simp: observe_idle_def wp_bind now_def set_idle_since_def history_def observed_def observes_def Let_def
      subset_insertI2 split: option.splits)

lemma trace_now:
  "wp history no_sleep (now s) (\<lambda>(r, s'). frames (\<lambda>t h'. EvNow t \<in> set h') s h r s') h"
  by (auto simp: now_def history_def)

lemma trace_suspend_idle:
  assumes "saw_worker (ct_kube s0) b h" "saw_status b st h" "is_permit st = None" "\<not> is_busy st"
    and "ct_idle_since s = ct_idle_since s0" "ct_config s = ct_config s0"
  shows "traced s0 (suspend_idle deployment b st) s h"
  unfolding suspend_idle_def
proof (rule traced_bind, rule trace_observe_idle [OF assms(5)])
  fix since s1 h1
  assume "observes s0 b (is_boot_id st) s h (Inr since) s1 h1"
  then have s1: "ct_config s1 = ct_config s0" and h1: "set h \<subseteq> set h1"
    and ob: "observed s0 b (is_boot_id st) since h1" using assms(6) by (simp_all add: observes_def)
  show "traced s0 (bind now (\<lambda>t. bind (gets ct_config) (\<lambda>config.
      if t - since < cf_idle_timeout config then ret ()
      else bind (backend_status b True config) (after_suspension deployment b st)))) s1 h1"
  proof (rule traced_bind, rule trace_now)
    fix t s2 h2
    assume "frames (\<lambda>t h'. EvNow t \<in> set h') s1 h1 (Inr t) s2 h2"
    then have s2: "s2 = s1" and h2: "set h1 \<subseteq> set h2" and t: "EvNow t \<in> set h2" by simp_all
    have "traced s0 (bind (backend_status b True (ct_config s0)) (after_suspension deployment b st)) s1 h2"
      if late: "\<not> t - since < cf_idle_timeout (ct_config s0)"
    proof (rule traced_bind, rule trace_suspension)
      fix granted s3 h3
      assume "frames (saw_suspension b) s1 h2 (Inr granted) s3 h3"
      then have h3: "set h \<subseteq> set h3" "set h2 \<subseteq> set h3" and g: "saw_suspension b granted h3"
        using h1 h2 by auto
      have "EvNow t \<in> set h3" "cf_idle_timeout (ct_config s0) \<le> t - since" "observed s0 b (is_boot_id st) since h3"
        using late ob t h2 h3(2) by (auto simp: observed_def)
      then have "saw_idle_time s0 b (is_boot_id st) h3"
        unfolding saw_idle_time_def observed_def by blast
      with g assms(1-4) saw_mono [OF h3(1)] show "traced s0 (after_suspension deployment b st granted) s3 h3"
        by (intro trace_after_suspension)
    qed
    then show "traced s0 (bind (gets ct_config) (\<lambda>config. if t - since < cf_idle_timeout config then ret ()
        else bind (backend_status b True config) (after_suspension deployment b st))) s2 h2"
      unfolding s2 by (simp add: wp_bind [where m = "gets f" for f] s1)
  qed
qed

lemma trace_idle_backend:
  assumes "saw_worker (ct_kube s0) b h" "same_fields s0 s"
  shows "traced s0 (idle_backend config deployment b) s h"
  unfolding idle_backend_def
proof (rule traced_bind, rule trace_status)
  fix st s1 h1
  assume "frames (saw_status b) s h (Inr st) s1 h1"
  then have s1: "s1 = s" and h1: "set h \<subseteq> set h1" and st: "saw_status b st h1" by simp_all
  have "traced s0 (suspend_idle deployment b st) s h1" if "is_permit st = None" "\<not> is_busy st"
    using saw_mono(1) [OF h1 assms(1)] st that assms(2)
    by (intro trace_suspend_idle) (simp_all add: same_fields_def same_identity_def)
  moreover have "traced s0 (set_idle_since None) s h1" by (intro awake_traced awake_setters)
  moreover have "traced s0 (bind (resume b permit config) (\<lambda>_. set_idle_since None)) s h1" for permit
    by (intro awake_traced awake_rules awake_requests awake_setters)
  ultimately show "traced s0 (case is_permit st of
       Some permit \<Rightarrow> bind (resume b permit config) (\<lambda>_. set_idle_since None)
     | None \<Rightarrow> if is_busy st then set_idle_since None else suspend_idle deployment b st) s1 h1"
    unfolding s1 by (cases "is_permit st") simp_all
qed

lemma trace_idle_deployment:
  assumes "same_fields s0 s"
  shows "traced s0 (idle_deployment config deployment) s h"
proof -
  have idle: "traced s0 (set_idle_since None) s h1" for h1 by (intro awake_traced awake_setters)
  have "traced s0 (bind ready_backend (\<lambda>found. case found of None \<Rightarrow> set_idle_since None
      | Some backend \<Rightarrow> idle_backend config deployment backend)) s h"
  proof (rule traced_bind, rule trace_ready_backend)
    fix found s1 h1
    assume "frames (saw_found (ct_kube s)) s h (Inr found) s1 h1"
    moreover have "ct_kube s = ct_kube s0" using assms by (simp add: same_fields_def same_identity_def)
    ultimately show "traced s0 (case found of None \<Rightarrow> set_idle_since None
      | Some backend \<Rightarrow> idle_backend config deployment backend) s1 h1"
      using idle trace_idle_backend [OF _ assms] by (cases found) (simp_all add: saw_found_def)
  qed
  then show ?thesis using idle by (auto simp: idle_deployment_def)
qed

theorem trace_idle_tick: "traced s idle_tick s h"
proof -
  have "traced s (bind (only_if (ct_needs_fence s) fence) (\<lambda>_. if 0 < ct_connections s then set_idle_since None
      else bind current (idle_deployment (ct_config s)))) s h"
  proof (rule traced_bind, rule follow [OF preorder_fields, where m = "only_if (ct_needs_fence s) fence"])
    show "keeps same_fields (only_if (ct_needs_fence s) fence)" "awake (only_if (ct_needs_fence s) fence)"
      by (auto intro!: keeps_rules [OF preorder_fields] awake_rules fields_fence awake_fence)
  next
    fix u :: unit and s1 h1
    assume "moves same_fields s h (Inr u :: perror + unit) s1 h1"
    then have s1: "same_fields s s1" by (simp add: moves_def)
    have "traced s (bind current (idle_deployment (ct_config s))) s1 h1"
    proof (rule traced_bind, rule follow [OF preorder_fields fields_current awake_current])
      fix deployment s2 h2
      assume "moves same_fields s1 h1 (Inr deployment :: perror + json) s2 h2"
      with s1 have "same_fields s s2" using preorder_trans [OF preorder_fields] by (auto simp: moves_def)
      then show "traced s (idle_deployment (ct_config s) deployment) s2 h2" by (rule trace_idle_deployment)
    qed
    moreover have "traced s (set_idle_since None) s1 h1" by (intro awake_traced awake_setters)
    ultimately show "traced s (if 0 < ct_connections s then set_idle_since None
        else bind current (idle_deployment (ct_config s))) s1 h1" by simp
  qed
  then show ?thesis by (simp add: idle_tick_def wp_bind [where m = "gets f" for f])
qed

section \<open>Wake\<close>

definition saw_resume :: "backend \<Rightarrow> string \<Rightarrow> event list \<Rightarrow> bool" where
  "saw_resume b permit es \<longleftrightarrow> (\<exists>t r reply. EvHttp (control_request b POST (''/resume/'' @ permit) t) r \<in> set es \<and>
     andThen r error_for_status = Inr reply)"

text \<open>What a backend that \<open>wake\<close> returns rests on.\<close>

definition wake_evidence :: "kubernetes \<Rightarrow> backend \<Rightarrow> event list \<Rightarrow> bool" where
  "wake_evidence kube b es \<longleftrightarrow> saw_worker kube b es \<and>
     (\<exists>st. saw_status b st es \<and> (\<forall>permit. is_permit st = Some permit \<longrightarrow> saw_resume b permit es))"

definition found_evidence :: "kubernetes \<Rightarrow> perror + backend option \<Rightarrow> 's \<Rightarrow> event list \<Rightarrow> bool" where
  "found_evidence kube r s h \<longleftrightarrow> (\<forall>b. r = Inr (Some b) \<longrightarrow> wake_evidence kube b h)"

abbreviation shown :: "('s, 'a) proc \<Rightarrow> ('a \<Rightarrow> event list \<Rightarrow> bool) \<Rightarrow> event list \<Rightarrow> bool" where
  "shown \<equiv> wp history (\<lambda>_ _ _. True)"

lemma shown_awake: "wp history no_sleep t Q h \<Longrightarrow> shown t Q h"
  by (rule wp_both) simp_all

lemma found_evidence_simps [simp]:
  "found_evidence kube (Inl e) s h" "found_evidence kube (Inr None) s h"
  "found_evidence kube (Inr (Some b)) s h \<longleftrightarrow> wake_evidence kube b h"
  by (simp_all add: found_evidence_def)

lemma follow_any:
  assumes "preorder P" "keeps P m"
  shows "shown (m s) (\<lambda>(r, s'). moves P s h r s') h"
proof -
  have "wp anyhow (\<lambda>s' _ _. P s s') (m s) (\<lambda>x _. P s (snd x)) ()"
    using assms(2) by (simp add: keeps_def case_prod_unfold)
  then have "wp history (\<lambda>s' _ _. P s s') (m s) (\<lambda>x _. P s (snd x)) h"
    using anyhow_world [of "\<lambda>s' _. P s s'" "m s" "\<lambda>x. P s (snd x)" history h] by simp
  from wp_conj [OF this history_grows] show ?thesis by (rule wp_both) (auto simp: moves_def)
qed

lemma trace_release:
  "shown (release_permit b config st s) (\<lambda>(r, s'). frames (\<lambda>_ h'. \<forall>permit. is_permit st = Some permit \<longrightarrow>
     saw_resume b permit h') s h r s') h"
proof (cases "is_permit st")
  case (Some permit)
  have "shown (resume b permit config s) (\<lambda>(r, s'). frames (\<lambda>_. saw_resume b permit) s h r s') h"
    unfolding resume_exchange
  proof (rule shown_awake, rule trace_exchange)
    fix t r x fs
    assume "andThen (andThen r error_for_status) (\<lambda>_. Inr ()) = Inr x"
      and e: "EvHttp (control_request b POST (''/resume/'' @ permit) t) r \<in> set fs"
    then obtain y where "andThen r error_for_status = Inr y"
      by (cases "andThen r error_for_status") simp_all
    with e show "saw_resume b permit fs" unfolding saw_resume_def by blast
  qed simp
  with Some show ?thesis by (simp add: release_permit_def)
qed (simp add: release_permit_def)

lemma trace_attach_worker:
  "shown (attach_worker config s) (\<lambda>(r, s'). found_evidence (ct_kube s) r s') h"
  unfolding attach_worker_def
proof (rule wp_seq_post, rule shown_awake, rule trace_ready_backend)
  fix found s1 h1
  assume f: "frames (saw_found (ct_kube s)) s h (Inr found) s1 h1"
  show "shown ((case found of None \<Rightarrow> ret None
      | Some backend \<Rightarrow> bind (backend_status backend False config) (\<lambda>status.
          bind (release_permit backend config status) (\<lambda>_. ret (Some backend)))) s1)
      (\<lambda>(r, s'). found_evidence (ct_kube s) r s') h1"
  proof (cases found)
    case (Some b)
    with f have w: "saw_worker (ct_kube s) b h1" by (simp add: saw_found_def)
    have "shown (bind (backend_status b False config) (\<lambda>status.
          bind (release_permit b config status) (\<lambda>_. ret (Some b))) s1) (\<lambda>(r, s'). found_evidence (ct_kube s) r s') h1"
    proof (rule wp_seq_post, rule shown_awake, rule trace_status)
      fix st s2 h2
      assume "frames (saw_status b) s1 h1 (Inr st) s2 h2"
      then have h2: "set h1 \<subseteq> set h2" and st: "saw_status b st h2" by simp_all
      show "shown (bind (release_permit b config st) (\<lambda>_. ret (Some b)) s2) (\<lambda>(r, s'). found_evidence (ct_kube s) r s') h2"
      proof (rule wp_seq_post, rule trace_release)
        fix u s3 h3
        assume "frames (\<lambda>_ h'. \<forall>permit. is_permit st = Some permit \<longrightarrow> saw_resume b permit h') s2 h2 (Inr u) s3 h3"
        then have h3: "set h2 \<subseteq> set h3" and p: "\<forall>permit. is_permit st = Some permit \<longrightarrow> saw_resume b permit h3"
          by simp_all
        have "saw_status b st h3" using h3 st by (rule saw_mono(2))
        moreover have "saw_worker (ct_kube s) b h3" using subset_trans [OF h2 h3] w by (rule saw_mono(1))
        ultimately have "wake_evidence (ct_kube s) b h3" unfolding wake_evidence_def using p by blast
        then show "shown (ret (Some b) s3) (\<lambda>(r, s'). found_evidence (ct_kube s) r s') h3" by simp
      qed simp
    qed simp
    with Some show ?thesis by simp
  qed simp
qed simp

lemma trace_wake_step:
  "shown (wake_step kube config deployment s) (\<lambda>(r, s'). found_evidence (ct_kube s) r s') h"
proof -
  have "ends (\<lambda>r s'. \<forall>b. r \<noteq> Inr (Some b)) (start_worker kube deployment)"
    unfolding start_worker_def by (intro ends_bind) (simp_all add: ends_def)
  then have "wp anyhow (\<lambda>_ _ _. True) (start_worker kube deployment s) (\<lambda>x _. \<forall>b. fst x \<noteq> Inr (Some b)) ()"
    by (simp add: ends_def case_prod_unfold)
  then have "shown (start_worker kube deployment s) (\<lambda>x _. \<forall>b. fst x \<noteq> Inr (Some b)) h"
    using anyhow_world [of "\<lambda>_ _. True" "start_worker kube deployment s" "\<lambda>x. \<forall>b. fst x \<noteq> Inr (Some b)" history h]
    by simp
  then have "shown (start_worker kube deployment s) (\<lambda>(r, s'). found_evidence (ct_kube s) r s') h"
    by (rule wp_mono) (auto simp: found_evidence_def)
  then show ?thesis
    using trace_attach_worker by (auto simp: wake_step_def split: option.splits nat.splits)
qed

lemma trace_wake_round:
  "shown (wake_round deadline s) (\<lambda>(r, s'). found_evidence (ct_kube s) r s') h"
proof -
  have kube: "ct_kube s' = ct_kube s" if "moves same_identity s h r s' h'" for s s' h h' and r :: "perror + 'b"
    using that by (simp add: moves_def same_identity_def)
  have step: "shown (bind current (\<lambda>deployment. wake_step kube config deployment) s1)
      (\<lambda>(r, s'). found_evidence (ct_kube s1) r s') h1" for kube config s1 h1
  proof (rule wp_seq_post, rule follow_any [OF preorder_identity identity_current])
    fix deployment :: json and s2 h2
    assume "moves same_identity s1 h1 (Inr deployment :: perror + json) s2 h2"
    from kube [OF this] trace_wake_step [of kube config deployment s2 h2]
    show "shown (wake_step kube config deployment s2) (\<lambda>(r, s'). found_evidence (ct_kube s1) r s') h2" by simp
  qed simp
  have "shown (bind (only_if (ct_needs_fence s) fence) (\<lambda>_.
      bind current (\<lambda>deployment. wake_step (ct_kube s) (ct_config s) deployment)) s)
      (\<lambda>(r, s'). found_evidence (ct_kube s) r s') h1" for h1
  proof (rule wp_seq_post, rule follow_any [OF preorder_identity, where m = "only_if (ct_needs_fence s) fence"])
    show "keeps same_identity (only_if (ct_needs_fence s) fence)" by (intro identity_rules identity_fence)
  next
    fix u :: unit and s1 h2
    assume "moves same_identity s h1 (Inr u :: perror + unit) s1 h2"
    from kube [OF this] step [of "ct_kube s" "ct_config s" s1 h2]
    show "shown (bind current (\<lambda>deployment. wake_step (ct_kube s) (ct_config s) deployment) s1)
      (\<lambda>(r, s'). found_evidence (ct_kube s) r s') h2" by simp
  qed simp
  then show ?thesis
    by (simp add: wake_round_def wp_bind [where m = now] wp_bind [where m = "gets f" for f] now_def)
qed

definition woken :: "kubernetes \<Rightarrow> perror + backend \<Rightarrow> 's \<Rightarrow> event list \<Rightarrow> bool" where
  "woken kube r s h \<longleftrightarrow> (\<forall>b. r = Inr b \<longrightarrow> wake_evidence kube b h)"

lemma woken_simps [simp]: "woken kube (Inl e) s h" "woken kube (Inr b) s h \<longleftrightarrow> wake_evidence kube b h"
  by (simp_all add: woken_def)

definition rounded :: "controller \<Rightarrow> event list \<Rightarrow> perror + backend option \<Rightarrow> controller \<Rightarrow> event list \<Rightarrow> bool" where
  "rounded s h r s' h' \<longleftrightarrow> moves same_identity s h r s' h' \<and> found_evidence (ct_kube s) r s' h'"

lemma trace_wake_loop:
  "shown (wake_loop fuel deadline s) (\<lambda>(r, s'). woken (ct_kube s) r s') h"
proof (induction fuel arbitrary: s h)
  case (Suc fuel s h)
  have round: "shown (wake_round deadline s) (\<lambda>(r, s'). rounded s h r s') h"
    using wp_conj [OF follow_any [OF preorder_identity identity_wake_round] trace_wake_round]
    by (rule wp_both) (auto simp: rounded_def)
  show ?case
    unfolding wake_loop.simps
  proof (rule wp_seq_post, rule round)
    fix found s1 h1
    assume "rounded s h (Inr found) s1 h1"
    then show "shown ((case found of Some backend \<Rightarrow> ret backend
        | None \<Rightarrow> bind (sleep 500) (\<lambda>_. wake_loop fuel deadline)) s1)
        (\<lambda>(r, s'). woken (ct_kube s) r s') h1"
      using Suc [of s1]
      by (cases found) (simp_all add: wp_bind [where m = "sleep d" for d] sleep_def rounded_def moves_def same_identity_def)
  qed simp
qed simp

theorem trace_wake:
  "shown (wake fuel s) (\<lambda>(r, s'). woken (ct_kube s) r s') h"
proof -
  have "shown (wake_loop fuel deadline (s\<lparr>ct_idle_since := None\<rparr>))
      (\<lambda>(r, s'). woken (ct_kube s) r s') h1" for deadline h1
    using trace_wake_loop [of fuel deadline "s\<lparr>ct_idle_since := None\<rparr>" h1] by simp
  then show ?thesis
    by (simp add: wake_def wp_bind set_idle_since_def now_def add_duration_def)
qed

end
