(* ===== verification/Proxy_Service.thy ===== *)
theory Proxy_Service
  imports Proxy_Safety Controller_Evidence "HOL-Library.Multiset"
begin

text \<open>
  What the proxy is for: a forwarded connection is served. The locale \<open>serving_world\<close> adds to
  \<open>attached_world\<close> when a reply shows the worker running and its gate open, and how long both
  last; in it a backend returned by \<open>wake\<close> is running and admits sessions, and stays so while
  the connection is attached. An abstract service, whose worker sleeps only without a session
  and which opens a session only on a listened port of an awake worker, is then refined by the
  steps of the process.
\<close>

section \<open>The abstract service\<close>

text \<open>The sessions by port, and whether the worker runs and admits sessions.\<close>

record service =
  sv_sessions :: "u16 multiset"
  sv_awake :: bool

inductive service_step :: "u16 set \<Rightarrow> service \<Rightarrow> service \<Rightarrow> bool" for ports :: "u16 set" where
  Wake: "service_step ports v (v\<lparr>sv_awake := True\<rparr>)"
| Open: "sv_awake v \<Longrightarrow> port \<in> ports \<Longrightarrow> service_step ports v (v\<lparr>sv_sessions := add_mset port (sv_sessions v)\<rparr>)"
| Close: "port \<in># sv_sessions v \<Longrightarrow> service_step ports v (v\<lparr>sv_sessions := sv_sessions v - {#port#}\<rparr>)"
| Sleep: "sv_sessions v = {#} \<Longrightarrow> service_step ports v (v\<lparr>sv_awake := False\<rparr>)"
| Stop: "service_step ports v (v\<lparr>sv_sessions := {#}\<rparr>)"

abbreviation service_steps :: "u16 set \<Rightarrow> service \<Rightarrow> service \<Rightarrow> bool" where
  "service_steps ports \<equiv> (service_step ports)\<^sup>*\<^sup>*"

text \<open>Its promise: with a session the worker is awake.\<close>

lemma service_awake:
  "service_steps ports v v' \<Longrightarrow> sv_sessions v \<noteq> {#} \<longrightarrow> sv_awake v \<Longrightarrow> sv_sessions v' \<noteq> {#} \<longrightarrow> sv_awake v'"
  by (induction rule: rtranclp_induct) (auto elim!: service_step.cases)

lemma service_ports:
  "service_steps ports v v' \<Longrightarrow> set_mset (sv_sessions v) \<subseteq> ports \<Longrightarrow> set_mset (sv_sessions v') \<subseteq> ports"
  proof (induction rule: rtranclp_induct)
  case (step v1 v2)
  have "x \<in> ports" if "x \<in># m - {#port#}" "set_mset m \<subseteq> ports" for x port m
    using in_diffD [OF that(1)] that(2) by blast
  with step show ?case by (auto elim!: service_step.cases)
qed

lemma service_toggles: "service_steps ports \<lparr>sv_sessions = {#}, sv_awake = a\<rparr> \<lparr>sv_sessions = {#}, sv_awake = b\<rparr>"
  using service_step.Wake [of ports "\<lparr>sv_sessions = {#}, sv_awake = a\<rparr>"]
    service_step.Sleep [of "\<lparr>sv_sessions = {#}, sv_awake = a\<rparr>" ports]
  by (cases b) auto

lemma service_lasts:
  assumes "m \<noteq> {#} \<longrightarrow> a \<and> b"
  shows "service_steps ports \<lparr>sv_sessions = m, sv_awake = a\<rparr> \<lparr>sv_sessions = m, sv_awake = b\<rparr>"
  using assms service_toggles [of ports a b] by (cases "m = {#}") auto

lemma service_opens:
  assumes "port \<in> ports"
  shows "service_steps ports \<lparr>sv_sessions = m, sv_awake = a\<rparr> \<lparr>sv_sessions = add_mset port m, sv_awake = True\<rparr>"
proof -
  have "service_step ports \<lparr>sv_sessions = m, sv_awake = a\<rparr> \<lparr>sv_sessions = m, sv_awake = True\<rparr>"
    using service_step.Wake [of ports "\<lparr>sv_sessions = m, sv_awake = a\<rparr>"] by simp
  moreover have "service_step ports \<lparr>sv_sessions = m, sv_awake = True\<rparr> \<lparr>sv_sessions = add_mset port m, sv_awake = True\<rparr>"
    using service_step.Open [of "\<lparr>sv_sessions = m, sv_awake = True\<rparr>" port ports] assms by simp
  ultimately show ?thesis by (rule converse_rtranclp_into_rtranclp [OF _ r_into_rtranclp])
qed

lemma service_closes:
  "port \<in># m \<Longrightarrow> service_steps ports \<lparr>sv_sessions = m, sv_awake = a\<rparr> \<lparr>sv_sessions = m - {#port#}, sv_awake = a\<rparr>"
  using service_step.Close [of port "\<lparr>sv_sessions = m, sv_awake = a\<rparr>" ports] by auto

lemma service_stops:
  "service_steps ports \<lparr>sv_sessions = m, sv_awake = a\<rparr> \<lparr>sv_sessions = {#}, sv_awake = b\<rparr>"
proof -
  have "service_step ports \<lparr>sv_sessions = m, sv_awake = a\<rparr> \<lparr>sv_sessions = {#}, sv_awake = a\<rparr>"
    using service_step.Stop [of ports "\<lparr>sv_sessions = m, sv_awake = a\<rparr>"] by simp
  then show ?thesis using service_toggles by (rule converse_rtranclp_into_rtranclp)
qed

text \<open>The sessions of a process, and the ports it listens on.\<close>

definition sessions_of :: "proxy option \<Rightarrow> u16 multiset" where
  "sessions_of x = (case x of None \<Rightarrow> {#} | Some p \<Rightarrow> image_mset fst (mset (px_attached p)))"

definition listened :: "process \<Rightarrow> u16 set" where
  "listened env = (case from_env env of Inl e \<Rightarrow> {} | Inr config \<Rightarrow> set (cf_listeners config))"

lemma sessions_of_simps [simp]:
  "sessions_of None = {#}" "sessions_of (Some p) = image_mset fst (mset (px_attached p))"
  by (simp_all add: sessions_of_def)

section \<open>When the worker serves\<close>

locale serving_world = attached_world R danger closed safe known downs
  for R :: "'w world" and danger closed safe :: "'w \<Rightarrow> bool" and known :: "json \<Rightarrow> 'w \<Rightarrow> bool" and downs :: "'w \<Rightarrow> nat" +
  fixes running gate_open :: "'w \<Rightarrow> bool"
  assumes lists: "safe w \<Longrightarrow> \<not> danger w \<Longrightarrow> R w (EvHttp (pods_request kube t) r) w' \<Longrightarrow> pods_of_reply r = Inr [pod] \<Longrightarrow>
      running w'"
    and unpermitted: "safe w \<Longrightarrow> \<not> danger w \<Longrightarrow> R w (EvHttp (control_request b GET ''/status'' t) r) w' \<Longrightarrow>
      status_of_reply r = Inr st \<Longrightarrow> is_permit st = None \<Longrightarrow> gate_open w'"
    and released: "safe w \<Longrightarrow> \<not> danger w \<Longrightarrow> R w (EvHttp rq r) w' \<Longrightarrow> is_resume rq \<Longrightarrow>
      andThen r error_for_status = Inr y \<Longrightarrow> gate_open w'"
    and runs_on: "R w e w' \<Longrightarrow> downs w' = downs w \<Longrightarrow> running w \<Longrightarrow> running w'"
    and stays_open: "R w e w' \<Longrightarrow> \<not> suspend_event e \<Longrightarrow> gate_open w \<Longrightarrow> gate_open w'"

sublocale serving_world \<subseteq> serving: lasting_world R danger closed safe known
  "\<lambda>e. \<not> sleep_event e \<and> \<not> suspend_event e" "\<lambda>w. running w \<and> gate_open w"
proof unfold_locales
  fix w e w'
  assume "safe w" "\<not> danger w" "R w e w'" "\<not> sleep_event e \<and> \<not> suspend_event e" "running w \<and> gate_open w"
    "\<And>rq r b. e = EvHttp rq r \<Longrightarrow> is_patch rq \<Longrightarrow> rq_body rq = Some b \<Longrightarrow> known (resource_version b) w"
  then show "running w' \<and> gate_open w'"
    using steady [of w e w'] runs_on [of w e w'] stays_open [of w e w'] by simp
qed auto

context serving_world
begin

definition serves :: "'w \<Rightarrow> bool" where
  "serves w \<longleftrightarrow> running w \<and> gate_open w"

section \<open>What \<open>wake\<close> returns serves\<close>

lemma reads_running:
  assumes "safe w" "\<not> danger w" "R w e w'" "\<not> delicate e" "running w"
  shows "running w'"
proof -
  have "downs w' = downs w"
    using assms(1-4) by (intro steady [of w e w']) (auto simp: delicate_def sleep_event_def is_sleep_def)
  with runs_on assms(3,5) show ?thesis by blast
qed

lemma clear_world: "clear s w \<Longrightarrow> safe w \<and> \<not> danger w"
  by (simp add: clear_def)

text \<open>A read as an exchange, from a world out of danger.\<close>

lemma reads_exchange:
  assumes "clear s w" "\<And>t. \<not> delicate (EvHttp (rq t) (Inl ''''))" "\<And>t. \<not> is_suspend (rq t)"
    and "\<And>t r x w1 w2. safe w1 \<Longrightarrow> \<not> danger w1 \<Longrightarrow> R w1 (EvHttp (rq t) r) w2 \<Longrightarrow> f r = Inr x \<Longrightarrow>
      (running w \<longrightarrow> running w2) \<Longrightarrow> P x w2"
  shows "spec (reads P) (exchange tf rq f) s w"
proof -
  have kind: "\<not> is_patch (rq t)" "\<not> is_resume (rq t)" for t using assms(2) [of t] by simp_all
  have tok: "stays w w1 \<and> safe w1 \<and> \<not> danger w1 \<and> (running w \<longrightarrow> running w1)" if "R w (EvRead p r) w1" for p r w1
    using quiet_stays [OF _ that] reads_running [OF _ _ that] assms(1) by (auto simp: clear_def stays_def)
  have reply: "reads P s w (map_err Error (f r)) s w2"
    if "stays w w1" "safe w1" "\<not> danger w1" "running w \<longrightarrow> running w1" "R w1 (EvHttp (rq t) r) w2" for t r w1 w2
  proof -
    have "stays w1 w2" using quiet_stays [OF that(2,5)] kind by simp
    moreover have "running w1 \<longrightarrow> running w2" using reads_running [OF that(2,3,5)] kind by simp
    ultimately show ?thesis
      using assms(4) [OF that(2,3,5)] that(1,4) by (auto simp: reads_def map_err_def split: sum.splits intro: stays_trans)
  qed
  have wait: "awaiting s (Some (rq t)) w1" if "stays w w1" for t w1
    using stays_guarded [OF clear_guarded [OF assms(1)] that] kind assms(3) by (simp add: awaiting_def is_sleep_def)
  show ?thesis
    unfolding wp_exchange
  proof (intro allI impI)
    fix tok w1
    assume "R w (EvRead tf tok) w1"
    note w1 = tok [OF this]
    then have "reads P s w (Inl (Error e)) s w1" for e by (simp add: reads_def)
    with w1 wait reply show "case tok of Inl e \<Rightarrow> (case (Inl (Error e), s) of (r, s') \<Rightarrow> reads P s w r s') w1
      | Inr t \<Rightarrow> awaiting s (Some (rq t)) w1 \<and> (\<forall>r w2. R w1 (EvHttp (rq t) r) w2 \<longrightarrow>
          (case (map_err Error (f r), s) of (r, s') \<Rightarrow> reads P s w r s') w2)"
      by (cases tok) (simp, simp, blast)
  qed
qed

lemma pods_running:
  assumes "clear s w"
  shows "spec (reads (\<lambda>pods w. length pods = 1 \<longrightarrow> running w)) (kube_pods kube) s w"
  unfolding kube_pods_exchange
  by (rule reads_exchange [OF assms]) (auto simp: pods_request_def length_Suc_conv intro: lists [unfolded pods_request_def])

lemma from_pod_running:
  assumes "clear s w" "running w"
  shows "spec (reads (\<lambda>b w. backend_of config b \<and> running w)) (from_pod pod config) s w"
proof -
  have "stays w w1 \<and> running w1" if "R w (EvClient c) w1" for c w1
    using quiet_stays [OF _ that] reads_running [OF _ _ that] assms by (simp add: clear_def)
  then show ?thesis
    using assms stays_refl [of w]
    by (auto simp: from_pod_def wp_bind build_client_def reads_def backend_of_def clear_def map_err_def split: sum.splits)
qed

lemma ready_running:
  assumes "clear s w"
  shows "spec (reads (\<lambda>f w. found_backend (ct_config s) f \<and> (f \<noteq> None \<longrightarrow> running w))) ready_backend s w"
proof -
  let ?P = "\<lambda>f w. found_backend (ct_config s) f \<and> (f \<noteq> None \<longrightarrow> running w)"
  have one: "spec (reads ?P) (bind (from_pod pod (ct_config s)) (\<lambda>backend. ret (Some backend))) s w1"
    if "clear s w1" "running w1" for pod w1
  proof (rule reads_bind [where P = "\<lambda>b w. backend_of (ct_config s) b \<and> running w"])
    show "guarded s w1" using that(1) by (rule clear_guarded)
    show "spec (reads (\<lambda>b w. backend_of (ct_config s) b \<and> running w)) (from_pod pod (ct_config s)) s w1"
      using that by (rule from_pod_running)
  qed simp
  have "spec (reads ?P) (bind (kube_pods (ct_kube s)) (\<lambda>pods. if length pods \<noteq> 1 then ret None
     else let ready_pods = filter ready pods in
       if 1 < length ready_pods then bail ''idle mode requires exactly one worker''
       else case ready_pods of [] \<Rightarrow> ret None
         | pod # _ \<Rightarrow> bind (from_pod pod (ct_config s)) (\<lambda>backend. ret (Some backend)))) s w"
  proof (rule wp_seq_post, rule pods_running [OF assms])
    fix pods :: "json list" and s1 w1
    assume r: "reads (\<lambda>pods w. length pods = 1 \<longrightarrow> running w) s w (Inr pods) s1 w1"
    then have s1: "s1 = s" and st: "stays w w1" and run: "length pods = 1 \<longrightarrow> running w1" by (simp_all add: reads_def)
    have c: "clear s w1" using assms st by (rule clear_stays)
    have "spec (reads ?P) (if length pods \<noteq> 1 then ret None
       else let ready_pods = filter ready pods in
         if 1 < length ready_pods then bail ''idle mode requires exactly one worker''
         else case ready_pods of [] \<Rightarrow> ret None
           | pod # _ \<Rightarrow> bind (from_pod pod (ct_config s)) (\<lambda>backend. ret (Some backend))) s w1"
      using clear_guarded [OF c] one [OF c] run by (auto simp: Let_def split: list.splits)
    then show "wp R awaiting ((if length pods \<noteq> 1 then ret None
       else let ready_pods = filter ready pods in
         if 1 < length ready_pods then bail ''idle mode requires exactly one worker''
         else case ready_pods of [] \<Rightarrow> ret None
           | pod # _ \<Rightarrow> bind (from_pod pod (ct_config s)) (\<lambda>backend. ret (Some backend))) s1)
       (\<lambda>(r, s'). reads ?P s w r s') w1"
      unfolding s1 by (rule wp_mono) (use st in \<open>auto simp: reads_def intro: stays_trans\<close>)
  qed (simp add: reads_def)
  then show ?thesis by (simp add: ready_backend_def wp_bind [where m = "gets f" for f])
qed

lemma status_serves:
  assumes "clear s w" "running w"
  shows "spec (reads (\<lambda>st w. running w \<and> (is_permit st = None \<longrightarrow> gate_open w))) (backend_status b False config) s w"
  unfolding status_exchange
  by (rule reads_exchange [OF assms(1)]) (use assms(2) unpermitted in auto)

lemma resume_serves:
  assumes "clear s w" "running w" "hostname_ok config" "backend_of config b"
  shows "wp R awaiting (resume b permit config s) (\<lambda>(r, s') w'. is_ok r \<longrightarrow> serves w') w"
proof -
  note kinds = control_request_post [OF assms(3,4)]
  let ?rq = "\<lambda>t. control_request b POST (''/resume/'' @ permit) t"
  have tok: "safe w1 \<and> \<not> danger w1 \<and> running w1 \<and> guarded s w1" if "R w (EvRead p r) w1" for p r w1
    using quiet_stays [OF _ that] reads_running [OF _ _ that] assms(1,2) by (auto simp: clear_def stays_def guarded_def)
  have reply: "serves w2" if "safe w1" "\<not> danger w1" "running w1" "R w1 (EvHttp (?rq t) r) w2"
      "andThen r error_for_status = Inr y" for t r y w1 w2
  proof -
    have "downs w2 = downs w1"
      using that(1,2,4) by (intro steady [of w1 "EvHttp (?rq t) r" w2]) (auto simp: sleep_event_def)
    with that(3,4) have "running w2" using runs_on by blast
    moreover have "gate_open w2" using released [OF that(1,2,4) kinds(3) that(5)] .
    ultimately show ?thesis by (simp add: serves_def)
  qed
  show ?thesis
    unfolding resume_exchange wp_exchange
  proof (intro allI impI)
    fix tok w1
    assume "R w (EvRead (cf_token_file config) tok) w1"
    note w1 = tok [OF this]
    then have "awaiting s (Some (?rq t)) w1" for t using kinds(4) by (simp add: awaiting_def)
    moreover have "is_ok (map_err Error (andThen (andThen r error_for_status) (\<lambda>_. Inr ()))) \<longrightarrow> serves w2"
      if "R w1 (EvHttp (?rq t) r) w2" for t r w2
      using reply [OF _ _ _ that] w1 by (cases "andThen r error_for_status") (simp_all add: is_ok_def map_err_def)
    ultimately show "case tok of
        Inl e \<Rightarrow> (case (Inl (Error e), s) of (r, s') \<Rightarrow> \<lambda>w'. is_ok r \<longrightarrow> serves w') w1
      | Inr t \<Rightarrow> awaiting s (Some (?rq t)) w1 \<and> (\<forall>r w2. R w1 (EvHttp (?rq t) r) w2 \<longrightarrow>
          (case (map_err Error (andThen (andThen r error_for_status) (\<lambda>_. Inr ())), s) of (r, s') \<Rightarrow>
             \<lambda>w'. is_ok r \<longrightarrow> serves w') w2)"
      by (cases tok) (simp add: is_ok_def, simp)
  qed
qed

text \<open>What a procedure yields when it succeeds, whatever else it does.\<close>

abbreviation yields :: "('a \<Rightarrow> 'w \<Rightarrow> bool) \<Rightarrow> 'a controlled \<Rightarrow> controller \<Rightarrow> 'w \<Rightarrow> bool" where
  "yields P m s w \<equiv> wp R awaiting (m s) (\<lambda>(r, s') w'. \<forall>x. r = Inr x \<longrightarrow> P x w') w"

lemma yields_bind:
  assumes "spec Q m s w" "\<And>x s1 w1. Q s w (Inr x) s1 w1 \<Longrightarrow> yields P (f x) s1 w1"
  shows "yields P (bind m f) s w"
  by (rule wp_seq_post [where P = "Q s w"]) (use assms in auto)

lemma yields_ret: "P x w \<Longrightarrow> yields P (ret x) s w"
  by simp

abbreviation found_serves :: "backend option \<Rightarrow> 'w \<Rightarrow> bool" where
  "found_serves found w \<equiv> found \<noteq> None \<longrightarrow> serves w"

lemma release_serves:
  assumes "clear s w" "running w" "is_permit st = None \<longrightarrow> gate_open w"
    and "hostname_ok config" "backend_of config b"
  shows "yields found_serves (bind (release_permit b config st) (\<lambda>_. ret (Some b))) s w"
proof (cases "is_permit st")
  case None
  then show ?thesis using assms(2,3) by (simp add: release_permit_def wp_bind serves_def)
next
  case (Some permit)
  have "yields (\<lambda>_. serves) (resume b permit config) s w"
    by (rule wp_mono, rule resume_serves [OF assms(1,2,4,5)]) (auto simp: is_ok_def)
  then have "yields found_serves (bind (resume b permit config) (\<lambda>_. ret (Some b))) s w"
    by (rule wp_seq_post [where P = "\<lambda>r s' w'. \<forall>x. r = Inr x \<longrightarrow> serves w'"]) simp_all
  with Some show ?thesis by (simp add: release_permit_def)
qed

lemma attach_worker_serves:
  assumes "clear s w" "hostname_ok (ct_config s)"
  shows "yields found_serves (attach_worker (ct_config s)) s w"
  unfolding attach_worker_def
proof (rule yields_bind, rule ready_running [OF assms(1)])
  fix found s1 w1
  assume r: "reads (\<lambda>f w. found_backend (ct_config s) f \<and> (f \<noteq> None \<longrightarrow> running w)) s w (Inr found) s1 w1"
  then have s1: "s1 = s" and c: "clear s w1" using clear_stays [OF assms(1)] by (simp_all add: reads_def)
  have "yields found_serves (bind (backend_status b False (ct_config s)) (\<lambda>status.
      bind (release_permit b (ct_config s) status) (\<lambda>_. ret (Some b)))) s w1" if b: "found = Some b" for b
  proof (rule yields_bind, rule status_serves [OF c])
    show "running w1" using r b by (simp add: reads_def)
    fix st :: idle_status and s2 w2
    assume "reads (\<lambda>st w. running w \<and> (is_permit st = None \<longrightarrow> gate_open w)) s w1 (Inr st) s2 w2"
    then have "s2 = s" "clear s w2" "running w2" "is_permit st = None \<longrightarrow> gate_open w2"
      using clear_stays [OF c] by (simp_all add: reads_def)
    then show "yields found_serves (bind (release_permit b (ct_config s) st) (\<lambda>_. ret (Some b))) s2 w2"
      using release_serves [of s w2 st "ct_config s" b] assms(2) r b by (simp add: reads_def)
  qed
  then show "yields found_serves (case found of None \<Rightarrow> ret None
      | Some backend \<Rightarrow> bind (backend_status backend False (ct_config s)) (\<lambda>status.
          bind (release_permit backend (ct_config s) status) (\<lambda>_. ret (Some backend)))) s1 w1"
    unfolding s1 by (cases found) simp_all
qed

lemma start_worker_serves:
  assumes "clear s w" "seen deployment w"
  shows "yields found_serves (start_worker kube deployment) s w"
  unfolding start_worker_def
proof (rule yields_bind, rule reads_pods [OF clear_guarded [OF assms(1)]])
  fix pods :: "json list" and s1 w1
  assume "reads anything s w (Inr pods) s1 w1"
  then have s1: "s1 = s" and c: "clear s w1" and d: "seen deployment w1"
    using clear_stays [OF assms(1)] assms(2) by (simp_all add: reads_def stays_def)
  show "yields found_serves (bind (only_if (pods = []) (scale deployment 1)) (\<lambda>_. ret None)) s1 w1"
    unfolding s1 by (rule yields_bind, rule start_patched [OF c d]) simp
qed

lemma wake_step_serves:
  assumes "clear s w" "hostname_ok (ct_config s)" "seen deployment w"
  shows "yields found_serves (wake_step kube (ct_config s) deployment) s w"
  using start_worker_serves [OF assms(1,3)] attach_worker_serves [OF assms(1,2)]
  by (auto simp: wake_step_def split: option.splits nat.splits)

lemma wake_round_serves:
  assumes "guarded s w" "hostname_ok (ct_config s)"
  shows "yields found_serves (wake_round deadline) s w"
  unfolding wake_round_def
proof (rule yields_bind, rule reads_now [OF assms(1)])
  fix t :: instant and s1 w1
  assume "reads anything s w (Inr t) s1 w1"
  then have s1: "s1 = s" and g: "guarded s w1" using stays_guarded [OF assms(1)] by (simp_all add: reads_def)
  have "yields found_serves (bind (only_if (ct_needs_fence s) fence) (\<lambda>_.
      bind current (\<lambda>deployment. wake_step (ct_kube s) (ct_config s) deployment))) s w1"
  proof (rule yields_bind, rule fence_first [OF g])
    fix u :: unit and s2 w2
    assume "patched s w1 (Inr u) s2 w2"
    then have c: "clear s2 w2" and k: "ct_config s2 = ct_config s"
      by (auto simp: patched_def clear_def guarded_def same_identity_def)
    show "yields found_serves (bind current (\<lambda>deployment. wake_step (ct_kube s) (ct_config s) deployment)) s2 w2"
    proof (rule yields_bind, rule reads_current [OF clear_guarded [OF c]])
      fix deployment s3 w3
      assume "reads seen s2 w2 (Inr deployment) s3 w3"
      then have "s3 = s2" "clear s2 w3" "seen deployment w3" using clear_stays [OF c] by (simp_all add: reads_def)
      then show "yields found_serves (wake_step (ct_kube s) (ct_config s) deployment) s3 w3"
        using wake_step_serves [of s2 w3 deployment] assms(2) k by simp
    qed
  qed
  then show "yields found_serves (if deadline \<le> t then bail ''DuckFlight cold start timed out''
      else bind (gets id) (\<lambda>self. bind (only_if (ct_needs_fence self) fence) (\<lambda>_.
        bind current (\<lambda>deployment. wake_step (ct_kube self) (ct_config self) deployment)))) s1 w1"
    unfolding s1 by (simp add: wp_bind [where m = "gets f" for f])
qed

lemma both:
  assumes "spec Q m s w" "yields P m s w"
  shows "spec (\<lambda>s w r s' w'. Q s w r s' w' \<and> (\<forall>x. r = Inr x \<longrightarrow> P x w')) m s w"
  by (rule wp_both, rule wp_conj [OF assms]) auto

lemma wake_loop_serves:
  assumes "guarded s w" "hostname_ok (ct_config s)"
  shows "yields (\<lambda>_. serves) (wake_loop fuel deadline) s w"
  using assms
proof (induction fuel arbitrary: s w)
  case (Suc fuel)
  have again: "yields (\<lambda>_. serves) (bind (sleep 500) (\<lambda>_. wake_loop fuel deadline)) s1 w1"
    if "guarded s1 w1" "hostname_ok (ct_config s1)" for s1 w1
  proof (rule yields_bind, rule reads_sleep [OF that(1)])
    fix u :: unit and s2 w2
    assume "reads anything s1 w1 (Inr u) s2 w2"
    then show "yields (\<lambda>_. serves) (wake_loop fuel deadline) s2 w2"
      using stays_guarded [OF that(1)] that(2) by (intro Suc.IH) (simp_all add: reads_def)
  qed
  show ?case
    unfolding wake_loop.simps
  proof (rule yields_bind, rule both, rule wake_round_spec [OF Suc.prems], rule wake_round_serves [OF Suc.prems])
    fix found s1 w1
    assume "settled s w (Inr found) s1 w1 \<and> (\<forall>x. (Inr found :: perror + backend option) = Inr x \<longrightarrow> found_serves x w1)"
    then show "yields (\<lambda>_. serves) (case found of Some backend \<Rightarrow> ret backend
        | None \<Rightarrow> bind (sleep 500) (\<lambda>_. wake_loop fuel deadline)) s1 w1"
      using again Suc.prems(2) by (cases found) (simp_all add: settled_def same_identity_def)
  qed
qed simp

theorem wake_serves:
  assumes "guarded s w" "hostname_ok (ct_config s)"
  shows "yields (\<lambda>_. serves) (wake fuel) s w"
proof -
  let ?s = "s\<lparr>ct_idle_since := None\<rparr>"
  have g: "guarded ?s w" using assms(1) by (simp add: guarded_def)
  have "yields (\<lambda>_. serves) (bind now (\<lambda>t. bind (gets ct_config) (\<lambda>config.
      bind (add_duration t (cf_cold_start_timeout config)) (\<lambda>deadline. wake_loop fuel deadline)))) ?s w"
  proof (rule yields_bind, rule reads_now [OF g])
    fix t :: instant and s1 w1
    assume "reads anything ?s w (Inr t) s1 w1"
    then have "s1 = ?s" "guarded ?s w1" using stays_guarded [OF g] by (simp_all add: reads_def)
    then show "yields (\<lambda>_. serves) (bind (gets ct_config) (\<lambda>config.
        bind (add_duration t (cf_cold_start_timeout config)) (\<lambda>deadline. wake_loop fuel deadline))) s1 w1"
      using wake_loop_serves [of ?s w1] assms(2) by (simp add: wp_bind [where m = "gets f" for f] add_duration_def wp_bind)
  qed
  then show ?thesis by (simp add: wake_def set_idle_since_def wp_bind [where m = "modify f" for f])
qed

lemma attach_serves:
  assumes "guarded s w" "hostname_ok (ct_config s)"
  shows "yields (\<lambda>_. serves) (attach fuel) s w"
proof -
  let ?s = "s\<lparr>ct_connections := ct_connections s + 1\<rparr>"
  have "yields (\<lambda>_. serves) (wake fuel) ?s w"
    using assms by (intro wake_serves) (simp_all add: guarded_def)
  then have "yields (\<lambda>_. serves) (matching (wake fuel) (\<lambda>outcome. case outcome of
      Inr backend \<Rightarrow> ret backend | Inl error \<Rightarrow> bind count_down (\<lambda>_. bail error))) ?s w"
    by (rule wp_try [where P = "\<lambda>r s' w'. \<forall>x. r = Inr x \<longrightarrow> serves w'"]) (simp_all add: count_down_def wp_bind)
  then show ?thesis by (simp add: attach_def count_up_def wp_bind [where m = "modify f" for f])
qed

section \<open>The process refines the service\<close>

definition offers :: "process \<Rightarrow> proxy option \<Rightarrow> 'w \<Rightarrow> bool" where
  "offers env x w \<longleftrightarrow> sound x w \<and> (\<forall>p. x = Some p \<longrightarrow>
     from_env env = Inr (ct_config (px_controller p)) \<and> set (px_reading p) \<subseteq> listened env \<and>
     (px_attached p \<noteq> [] \<longrightarrow> serves w))"

definition service_of :: "proxy option \<Rightarrow> 'w \<Rightarrow> service" where
  "service_of x w = \<lparr>sv_sessions = sessions_of x, sv_awake = serves w\<rparr>"

lemma attached_serves:
  assumes "offers env (Some p) w" "px_attached p \<noteq> []"
  shows "runs (attach fuel (px_controller p)) es x \<Longrightarrow> goes R w es w' \<Longrightarrow> serves w'"
    and "runs (idle_round (px_controller p)) es y \<Longrightarrow> goes R w es w' \<Longrightarrow> serves w'"
    and "dropped R w (idle_round (px_controller p)) c w' \<Longrightarrow> serves w'"
    and "R w (EvSleep d) w' \<Longrightarrow> serves w'"
proof -
  have s: "sound (Some p) w" and h: "running w \<and> gate_open w" using assms by (simp_all add: offers_def serves_def)
  then have n: "0 < ct_connections (px_controller p)" "\<not> danger w" using assms(2) by (simp_all add: sound_def)
  note g = sound_guarded [OF s]
  show "runs (attach fuel (px_controller p)) es x \<Longrightarrow> goes R w es w' \<Longrightarrow> serves w'"
    using serving.attach_lasts [OF g(1,2) n(2) h] by (simp add: serving.lasting_def serves_def)
  show "runs (idle_round (px_controller p)) es y \<Longrightarrow> goes R w es w' \<Longrightarrow> serves w'"
    "dropped R w (idle_round (px_controller p)) c w' \<Longrightarrow> serves w'"
    using serving.idle_lasts [OF g(1,2) n(2) h n(1)] by (simp_all add: serving.lasting_def serves_def)
  show "R w (EvSleep d) w' \<Longrightarrow> serves w'"
    using serving.lasts [OF g(3) n(2) _ _ _ h, of "EvSleep d" w']
    by (simp add: serves_def sleep_event_def suspend_event_def)
qed

text \<open>The fields of a process that the invariant adds to \<open>sound\<close>.\<close>

lemma offers_step:
  assumes "proxy_step R env listen (x, w) (y, w')" "offers env x w"
    and "\<And>config. from_env env = Inr config \<Longrightarrow> hostname_ok config"
  shows "offers env y w'"
proof -
  have sx: "sound x w" using assms(2) by (simp add: offers_def)
  have s: "sound y w'" using sound_step [OF assms(1) sx assms(3)] .
  have keep: "set (remove1 port ports) \<subseteq> B" if "set ports \<subseteq> B" for port :: u16 and ports B
    using that set_remove1_subset by (rule subset_trans [rotated])
  show ?thesis
    using assms(1)
  proof cases
    case (Accept p port)
    with s assms(2) show ?thesis by (auto simp: offers_def listened_def)
  next
    case (Silent first p port)
    with s assms(2) keep show ?thesis by (auto simp: offers_def)
  next
    case (Attach port p first fuel es backend c)
    note g = sound_guarded [OF sx [unfolded Attach(1)]]
    have "serves w'" using wp_sound [OF Attach(5,6) attach_serves [OF g(1,2)]] by simp
    with Attach s assms(2) keep attach_result(2) [OF Attach(5)] show ?thesis by (auto simp: offers_def)
  next
    case (Refuse port p first fuel es error c)
    then have "px_attached p \<noteq> [] \<longrightarrow> serves w'" using attached_serves(1) assms(2) by blast
    with Refuse s assms(2) keep attach_result(2) [OF Refuse(5)] show ?thesis by (auto simp: offers_def)
  next
    case (Panic port p first fuel es error c)
    then have "px_attached p \<noteq> [] \<longrightarrow> serves w'" using attached_serves(1) assms(2) by blast
    with Panic s assms(2) keep attach_result(2) [OF Panic(5)] show ?thesis by (auto simp: offers_def)
  next
    case (Detach conn p c)
    have "px_attached p \<noteq> []" using Detach(4) by auto
    with Detach s assms(2) detach_result [OF Detach(5)] show ?thesis by (auto simp: offers_def)
  next
    case (Tick p es c)
    then have "px_attached p \<noteq> [] \<longrightarrow> serves w'" using attached_serves(2) assms(2) by blast
    moreover have "ct_config c = ct_config (px_controller p)"
      using keeps_runs [OF identity_idle_round Tick(4)] by (simp add: same_identity_def)
    ultimately show ?thesis using Tick s assms(2) by (auto simp: offers_def)
  next
    case (Abort p c)
    then have "px_attached p \<noteq> [] \<longrightarrow> serves w'" using attached_serves(3) assms(2) by blast
    moreover have "ct_config c = ct_config (px_controller p)"
      using dropped_identity [OF Abort(3)] by (simp add: same_identity_def)
    ultimately show ?thesis using Abort s assms(2) by (auto simp: offers_def)
  next
    case (Start es c)
    have "safe w" using sx by (simp add: sound_def)
    from wp_sound [OF Start(3,4) start_proxy_spec [OF this]] have "from_env env = Inr (ct_config c)" by simp
    with Start s show ?thesis by (simp add: offers_def proxy_init_def)
  next
    case (World d)
    then have "px_attached p \<noteq> [] \<longrightarrow> serves w'" if "x = Some p" for p
      using attached_serves(4) assms(2) that by blast
    with World s assms(2) show ?thesis by (auto simp: offers_def)
  qed (use s assms(2) in \<open>simp_all add: offers_def\<close>)
qed

theorem refines_service:
  assumes "proxy_step R env listen (x, w) (y, w')" "offers env x w"
    and "\<And>config. from_env env = Inr config \<Longrightarrow> hostname_ok config"
  shows "service_steps (listened env) (service_of x w) (service_of y w')"
proof -
  have y: "offers env y w'" using assms by (rule offers_step)
  have lasts: "service_steps (listened env) (service_of x w) (service_of y w')" if "sessions_of y = sessions_of x"
  proof -
    have "sessions_of x \<noteq> {#} \<longrightarrow> serves w \<and> serves w'"
      using assms(2) y that by (cases x; cases y) (auto simp: offers_def)
    then show ?thesis unfolding service_of_def that by (rule service_lasts)
  qed
  have stops: "service_steps (listened env) (service_of x w) (service_of None w')"
    unfolding service_of_def sessions_of_simps by (rule service_stops)
  show ?thesis
    using assms(1)
  proof cases
    case (Attach port p first fuel es backend c)
    have "serves w'" using y Attach(2) by (simp add: offers_def)
    moreover have "port \<in> listened env" using Attach(1,3) assms(2) by (auto simp: offers_def)
    ultimately show ?thesis
      using service_opens [of port "listened env" "sessions_of x" "serves w"] Attach(1,2) by (simp add: service_of_def)
  next
    case (Detach conn p c)
    then have "sessions_of y = sessions_of x - {#fst conn#}"
      by (simp add: image_mset_Diff mset_subset_eq_single)
    moreover have "fst conn \<in># sessions_of x" using Detach(1,4) by simp
    ultimately show ?thesis
      using service_closes [of "fst conn" "sessions_of x" "listened env" "serves w"] Detach(3) by (simp add: service_of_def)
  next
    case Start
    then show ?thesis by (intro lasts) (simp add: proxy_init_def)
  qed (use lasts stops in simp_all)
qed

theorem refines_reachable:
  assumes "proxy_runs R env listen (None, w0) (x, w)" "safe w0"
    and "\<And>config. from_env env = Inr config \<Longrightarrow> hostname_ok config"
  shows "offers env x w \<and> service_steps (listened env) (service_of None w0) (service_of x w)"
  using assms(1)
proof (induction rule: rtranclp_induct2)
  case refl
  then show ?case using assms(2) by (simp add: offers_def safe_sound)
next
  case (step x w y w')
  then have "offers env y w'" using offers_step [OF step(2) _ assms(3)] by blast
  with step refines_service [OF step(2) _ assms(3)] show ?case by (auto intro: rtranclp_trans)
qed

end

end
