(* ===== verification/Controller_Progress.thy ===== *)
theory Controller_Progress
  imports Controller
begin

text \<open>
  The loop of \<open>wake\<close> ends. In any world whose clock never goes back and passes at least the
  time of a sleep, enough fuel for one round per half second of the cold-start timeout is
  never used up: the deadline check of the code ends the loop first.
\<close>

locale timed_world =
  fixes R :: "'w world"
    and clock :: "'w \<Rightarrow> nat"
  assumes forward: "R w e w' \<Longrightarrow> clock w \<le> clock w'"
    and reading: "R w (EvNow t) w' \<Longrightarrow> clock w \<le> t \<and> t \<le> clock w'"
    and sleeping: "R w (EvSleep d) w' \<Longrightarrow> clock w + d \<le> clock w'"
begin

text \<open>A procedure with no loop: it takes no fuel, and time passes.\<close>

definition later :: "'w \<Rightarrow> perror + 'a \<Rightarrow> 's \<Rightarrow> 'w \<Rightarrow> bool" where
  "later w r s w' \<longleftrightarrow> clock w \<le> clock w' \<and> r \<noteq> Inl OutOfFuel"

abbreviation run :: "('s, 'a) proc \<Rightarrow> ('a \<Rightarrow> 'w \<Rightarrow> bool) \<Rightarrow> 'w \<Rightarrow> bool" where
  "run \<equiv> wp R (\<lambda>_ _ _. True)"

definition timely :: "('s, 'a) action \<Rightarrow> bool" where
  "timely m \<longleftrightarrow> (\<forall>s w. run (m s) (\<lambda>(r, s'). later w r s') w)"

lemma no_fuel [simp]: "map_err Error r \<noteq> Inl OutOfFuel"
  by (cases r) simp_all

lemma timely_basic:
  "timely (ret x)" "timely (bail m)" "timely (lift r)" "timely (gets f)" "timely (modify g)"
  "timely (read_to_string p)" "timely (send rq)" "timely build_client" "timely new_uuid" "timely now"
  "timely (sleep d)" "timely (fail (Panicked m))"
  by (auto simp: timely_def later_def read_to_string_def send_def build_client_def new_uuid_def now_def
      sleep_def intro: forward)

lemma timely_from:
  assumes "timely m" "clock w0 \<le> clock w"
  shows "run (m s) (\<lambda>(r, s'). later w0 r s') w"
proof -
  have "run (m s) (\<lambda>(r, s'). later w r s') w" using assms(1) by (simp add: timely_def)
  then show ?thesis by (rule wp_mono) (use assms(2) in \<open>auto simp: later_def\<close>)
qed

lemma timely_bind:
  fixes m :: "('s, 'b) action"
  assumes "timely m" "\<And>x. timely (f x)"
  shows "timely (bind m f)"
  unfolding timely_def
proof (intro allI)
  fix s w
  show "run (bind m f s) (\<lambda>(r, s'). later w r s') w"
  proof (rule wp_seq_post [where P = "later w"])
    show "run (m s) (\<lambda>(r, s'). later w r s') w" using assms(1) by (simp add: timely_def)
  next
    fix x w1 and s' :: 's
    assume "later w (Inr x :: perror + 'b) s' w1"
    then show "run (f x s') (\<lambda>(r, s'). later w r s') w1"
      by (intro timely_from [OF assms(2)]) (simp add: later_def)
  qed (simp add: later_def)
qed

lemma timely_only_if: "timely m \<Longrightarrow> timely (only_if b m)"
  by (simp add: only_if_def timely_basic)

lemmas timely_rules = timely_basic timely_bind timely_only_if

lemma timely_requests:
  "timely (kube_deployment kube)" "timely (kube_pods kube)" "timely (kube_patch kube d owner op replicas)"
  "timely (from_pod pod config)" "timely (backend_status b susp config)" "timely (resume b permit config)"
  unfolding kube_deployment_def kube_pods_def kube_patch_def fetch_def from_pod_def backend_status_def
    resume_def request_def
  by (intro timely_rules)+

lemma timely_guarded: "timely current" "timely (guarded_patch d replicas)" "timely fence" "timely (scale d n)"
proof -
  show current: "timely current"
    unfolding current_def by (auto intro!: timely_rules timely_requests)
  show patch: "timely (guarded_patch d replicas)" for d replicas
    unfolding guarded_patch_def set_needs_fence_def by (intro timely_rules timely_requests)
  show "timely fence" unfolding fence_def by (intro timely_rules current patch)
  show "timely (scale d n)" unfolding scale_def by (rule patch)
qed

lemma timely_wake_step: "timely (wake_step kube config deployment)"
  unfolding wake_step_def start_worker_def attach_worker_def release_permit_def ready_backend_def
  by (auto simp: Let_def intro!: timely_rules timely_requests timely_guarded
      split: option.splits nat.splits list.splits)

lemma timely_wake_round: "timely (wake_round deadline)"
  unfolding wake_round_def
  by (auto intro!: timely_rules timely_guarded timely_wake_step)

text \<open>A round after the deadline is an error.\<close>

lemma late_round:
  assumes "deadline \<le> clock w"
  shows "run (wake_round deadline s) (\<lambda>(r, s') w'. \<exists>m. r = Inl (Error m)) w"
  using assms reading by (fastforce simp: wake_round_def wp_bind now_def)

theorem wake_loop_ends:
  assumes "deadline \<le> clock w + 500 * fuel"
  shows "run (wake_loop (Suc fuel) deadline s) (\<lambda>(r, s'). later w r s') w"
  using assms
proof (induction fuel arbitrary: s w)
  case 0
  then have "run (wake_round deadline s) (\<lambda>(r, s') w'. (\<exists>m. r = Inl (Error m))) w" by (simp add: late_round)
  then have "run (wake_round deadline s) (\<lambda>x w'. (\<lambda>(r, s') w'. \<exists>m. r = Inl (Error m)) x w' \<and>
      (\<lambda>(r, s'). later w r s') x w') w"
    using timely_wake_round wp_conj [of R "\<lambda>_ _ _. True" _ _ w "\<lambda>_ _ _. True"] by (force simp: timely_def)
  then show ?case
    unfolding wake_loop.simps wp_bind by (rule wp_mono) (auto simp: later_def)
next
  case (Suc fuel)
  show ?case
  proof (subst wake_loop.simps, rule wp_seq_post [where P = "later w"])
    show "run (wake_round deadline s) (\<lambda>(r, s'). later w r s') w"
      using timely_wake_round by (simp add: timely_def)
  next
    fix found w1 and s1 :: controller
    assume "later w (Inr found :: perror + backend option) s1 w1"
    then have w1: "clock w \<le> clock w1" by (simp add: later_def)
    have "run (wake_loop (Suc fuel) deadline s1) (\<lambda>(r, s'). later w r s') w2" if "R w1 (EvSleep 500) w2" for w2
    proof -
      have t: "clock w + 500 \<le> clock w2" using sleeping [OF that] w1 by simp
      with Suc.prems have "run (wake_loop (Suc fuel) deadline s1) (\<lambda>(r, s'). later w2 r s') w2"
        by (intro Suc.IH) simp
      then show ?thesis by (rule wp_mono) (use t in \<open>auto simp: later_def\<close>)
    qed
    then show "run ((case found of Some backend \<Rightarrow> ret backend
        | None \<Rightarrow> bind (sleep 500) (\<lambda>_. wake_loop (Suc fuel) deadline)) s1) (\<lambda>(r, s'). later w r s') w1"
      using w1 by (cases found) (simp_all add: later_def wp_bind [where m = "sleep d" for d] sleep_def
          del: wake_loop.simps)
  qed (simp add: later_def)
qed

theorem wake_ends:
  assumes "cf_cold_start_timeout (ct_config s) \<le> 500 * fuel"
  shows "run (wake (Suc fuel) s) (\<lambda>(r, s') w'. r \<noteq> Inl OutOfFuel) w"
proof -
  have "run (wake_loop (Suc fuel) (t + cf_cold_start_timeout (ct_config s)) s1) (\<lambda>(r, s') w'. r \<noteq> Inl OutOfFuel) w1"
    if "R w (EvNow t) w1" for t s1 w1
  proof -
    have "t + cf_cold_start_timeout (ct_config s) \<le> clock w1 + 500 * fuel" using reading [OF that] assms by simp
    from wake_loop_ends [OF this] show ?thesis by (rule wp_mono) (auto simp: later_def)
  qed
  then show ?thesis
    by (simp add: wake_def wp_bind set_idle_since_def now_def add_duration_def del: wake_loop.simps)
qed

end

end
