(* ===== verification/Cluster.thy ===== *)
theory Cluster
  imports Proxy_Service Controller_Progress "HOL-Library.Sublist"
begin

text \<open>
  The cluster around the proxy: the API server with one worker Deployment, and the control
  server of its worker, as the proxy's tests build them (\<open>tests.rs\<close>). The tests' delay of a
  sleep write becomes a set of patches in flight, each of which may arrive at any later
  time; replies may be lost, garbled or refused. \<open>answers late\<close> is the world in which the
  controller runs, where \<open>late\<close> says whether a request to suspend may be carried out after it
  timed out. With or without that it meets the laws of \<open>attached_world\<close>; those of
  \<open>serving_world\<close> need that it does not happen.

  Not in this world: requests to resume that arrive late, which the constant permit of the
  tests' worker could not tell from current ones, and a worker that restarts while it is
  suspended. \<open>cl_harmed\<close> records whether a worker that admitted sessions was put to sleep.
\<close>

record cluster =
  cl_uid :: string
  cl_version :: nat
  cl_annotations :: json
  cl_replicas :: nat
  cl_busy :: bool
  cl_permit :: "string option"
  cl_scale_downs :: nat
  cl_extra_pod :: bool
  cl_unsupported :: bool
  cl_writes :: "json list"
  cl_suspends :: nat
  cl_clock :: nat
  cl_harmed :: bool

definition cluster_init :: cluster where
  "cluster_init = \<lparr>cl_uid = ''deployment-one'', cl_version = 1, cl_annotations = JObj [],
     cl_replicas = 0, cl_busy = False, cl_permit = None, cl_scale_downs = 0, cl_extra_pod = False,
     cl_unsupported = False, cl_writes = [], cl_suspends = 0, cl_clock = 0, cl_harmed = False\<rparr>"

section \<open>The API server\<close>

definition deployment_value :: "cluster \<Rightarrow> json" where
  "deployment_value c = JObj [
     (''metadata'', JObj [(''uid'', JStr (cl_uid c)), (''resourceVersion'', JStr (dec_nat (cl_version c))),
        (''annotations'', cl_annotations c)]),
     (''spec'', JObj [(''replicas'', JNum (PosInt (cl_replicas c)))])]"

definition worker_pod :: json where
  "worker_pod = JObj [(''metadata'', JObj [(''uid'', JStr ''worker-one'')]),
     (''status'', JObj [(''podIP'', JStr ''127.0.0.1''),
        (''conditions'', JArr [JObj [(''type'', JStr ''Ready''), (''status'', JStr ''True'')]])])]"

definition deleting_pod :: json where
  "deleting_pod = JObj [(''metadata'', JObj [(''uid'', JStr ''worker-two''), (''deletionTimestamp'', JStr ''now'')]),
     (''status'', JObj [])]"

definition pods_value :: "cluster \<Rightarrow> json" where
  "pods_value c = JObj [(''items'', JArr
     (if cl_replicas c = 1 then worker_pod # (if cl_extra_pod c then [deleting_pod] else []) else []))]"

definition reply :: "nat \<Rightarrow> json \<Rightarrow> http_response" where
  "reply code body = \<lparr>rs_code = code, rs_body = Inr body\<rparr>"

text \<open>A worker that holds no permit, or has work, admits sessions.\<close>

definition admitting :: "cluster \<Rightarrow> bool" where
  "admitting c \<longleftrightarrow> cl_replicas c \<noteq> 0 \<and> (cl_permit c = None \<or> cl_busy c)"

definition set_replicas :: "nat \<Rightarrow> cluster \<Rightarrow> cluster" where
  "set_replicas n c =
     (if n = 0
      then c\<lparr>cl_replicas := 0, cl_scale_downs := cl_scale_downs c + 1, cl_permit := None,
             cl_harmed := cl_harmed c \<or> admitting c\<rparr>
      else c\<lparr>cl_replicas := n\<rparr>)"

text \<open>
  A merge patch under its resource version; a version that leaves 32 bits panics, and then
  there is neither a reply nor a change.
\<close>

definition apply_patch :: "json \<Rightarrow> cluster \<Rightarrow> (http_response \<times> cluster) option" where
  "apply_patch patch c =
     (if resource_version patch \<noteq> resource_version (deployment_value c)
      then Some (reply 409 (JObj [(''message'', JStr ''resourceVersion conflict'')]), c)
      else if 2 ^ 32 \<le> cl_version c + 1 then None
      else
      let c1 = c\<lparr>cl_version := cl_version c + 1, cl_annotations := index (index patch ''metadata'') ''annotations''\<rparr>;
          c2 = (case as_u64 (patch_replicas patch) of Some n \<Rightarrow> set_replicas n c1 | None \<Rightarrow> c1)
      in Some (reply 200 (deployment_value c2), c2))"

definition asks_pods :: "http_request \<Rightarrow> bool" where
  "asks_pods rq \<longleftrightarrow> suffix ''/pods'' (rq_url rq) \<and> rq_query rq \<noteq> []"

definition api_handle :: "http_request \<Rightarrow> cluster \<Rightarrow> (http_response \<times> cluster) option" where
  "api_handle rq c =
     (if rq_method rq = PATCH
      then apply_patch (case rq_body rq of None \<Rightarrow> JNull | Some patch \<Rightarrow> patch) c
      else if asks_pods rq then Some (reply 200 (pods_value c), c)
      else Some (reply 200 (deployment_value c), c))"

section \<open>The worker's control server\<close>

definition permit_value :: "string option \<Rightarrow> json" where
  "permit_value permit = (case permit of None \<Rightarrow> JNull | Some p \<Rightarrow> JStr p)"

definition status_value :: "cluster \<Rightarrow> json" where
  "status_value c = JObj [(''protocol_version'', JNum (PosInt 1)), (''boot_id'', JStr ''boot-one''),
     (''ready'', JBool True), (''busy'', JBool (cl_busy c)), (''permit'', permit_value (cl_permit c))]"

definition control_handle :: "http_request \<Rightarrow> cluster \<Rightarrow> http_response \<times> cluster" where
  "control_handle rq c =
     (if cl_unsupported c then (reply 404 (JObj []), c)
      else if is_resume rq
      then if cl_permit c = Some (drop 8 (url_path (rq_url rq)))
           then (reply 200 (JObj []), c\<lparr>cl_permit := None\<rparr>)
           else (reply 409 (JObj []), c)
      else
      let c1 = (if is_suspend rq \<and> \<not> cl_busy c then c\<lparr>cl_permit := Some ''permit-one''\<rparr> else c)
      in (reply 200 (status_value c1), c1))"

section \<open>The world\<close>

definition serve :: "http_request \<Rightarrow> cluster \<Rightarrow> (http_response \<times> cluster) option" where
  "serve rq c = (if to_worker rq then Some (control_handle rq c) else api_handle rq c)"

text \<open>
  What the caller sees of an exchange, and what it leaves behind. With \<open>late\<close> a request to
  suspend may time out and yet reach the worker afterwards.
\<close>

inductive exchanged :: "bool \<Rightarrow> http_request \<Rightarrow> cluster \<Rightarrow> string + http_response \<Rightarrow> cluster \<Rightarrow> bool" where
  Answered: "serve rq c = Some (r, c') \<Longrightarrow> exchanged late rq c (Inr r) c'"
| Garbled: "serve rq c = Some (r, c') \<Longrightarrow> exchanged late rq c (Inr (r\<lparr>rs_body := Inl e\<rparr>)) c'"
| Lost: "serve rq c = Some (r, c') \<Longrightarrow> exchanged late rq c (Inl e) c'"
| Unanswered: "exchanged late rq c (Inl e) c"
| Refused: "400 \<le> code \<Longrightarrow> code < 600 \<Longrightarrow> exchanged late rq c (Inr (reply code body)) c"
| Delayed: "is_patch rq \<Longrightarrow> rq_body rq = Some patch \<Longrightarrow>
    exchanged late rq c (Inl e) (c\<lparr>cl_writes := patch # cl_writes c\<rparr>)"
| Held: "late \<Longrightarrow> is_suspend rq \<Longrightarrow>
    exchanged late rq c (Inl e) (c\<lparr>cl_suspends := cl_suspends c + 1\<rparr>)"

text \<open>
  What happens without the proxy: patches arrive or are lost, sessions come and go, and a
  request to suspend that was held up is carried out.
\<close>

inductive drift_step :: "bool \<Rightarrow> cluster \<Rightarrow> cluster \<Rightarrow> bool" where
  Arrives: "patch \<in> set (cl_writes c) \<Longrightarrow>
    apply_patch patch (c\<lparr>cl_writes := remove1 patch (cl_writes c)\<rparr>) = Some (r, c') \<Longrightarrow> drift_step late c c'"
| Vanishes: "drift_step late c (c\<lparr>cl_writes := remove1 patch (cl_writes c)\<rparr>)"
| Sessions: "cl_permit c = None \<Longrightarrow> drift_step late c (c\<lparr>cl_busy := b\<rparr>)"
| Rollout: "drift_step late c (c\<lparr>cl_extra_pod := b\<rparr>)"
| Capability: "drift_step late c (c\<lparr>cl_unsupported := b\<rparr>)"
| Time: "drift_step late c (c\<lparr>cl_clock := cl_clock c + d\<rparr>)"
| Suspends: "late \<Longrightarrow> cl_suspends c = Suc n \<Longrightarrow> cl_replicas c \<noteq> 0 \<Longrightarrow> \<not> cl_unsupported c \<Longrightarrow> \<not> cl_busy c \<Longrightarrow>
    drift_step late c (c\<lparr>cl_suspends := n, cl_permit := Some ''permit-one''\<rparr>)"

abbreviation drift :: "bool \<Rightarrow> cluster \<Rightarrow> cluster \<Rightarrow> bool" where
  "drift late \<equiv> (drift_step late)\<^sup>*\<^sup>*"

fun happens :: "bool \<Rightarrow> cluster \<Rightarrow> event \<Rightarrow> cluster \<Rightarrow> bool" where
  "happens late c (EvHttp rq r) c' \<longleftrightarrow> exchanged late rq c r c'"
| "happens late c (EvNow t) c' \<longleftrightarrow> t = cl_clock c \<and> c' = c"
| "happens late c (EvSleep d) c' \<longleftrightarrow> c' = c\<lparr>cl_clock := cl_clock c + d\<rparr>"
| "happens late c _ c' \<longleftrightarrow> c' = c"

definition answers :: "bool \<Rightarrow> cluster world" where
  "answers late c e c' \<longleftrightarrow> (\<exists>c1 c2. drift late c c1 \<and> happens late c1 e c2 \<and> drift late c2 c')"

section \<open>Safety\<close>

definition cl_known :: "json \<Rightarrow> cluster \<Rightarrow> bool" where
  "cl_known v c \<longleftrightarrow> (\<forall>n. v = JStr (dec_nat n) \<longrightarrow> n \<le> cl_version c)"

definition cl_danger :: "cluster \<Rightarrow> bool" where
  "cl_danger c \<longleftrightarrow> (\<exists>patch \<in> set (cl_writes c).
     resource_version patch = JStr (dec_nat (cl_version c)) \<and> as_u64 (patch_replicas patch) = Some 0)"

definition cl_closed :: "cluster \<Rightarrow> bool" where
  "cl_closed c \<longleftrightarrow> cl_permit c \<noteq> None"

definition cl_safe :: "cluster \<Rightarrow> bool" where
  "cl_safe c \<longleftrightarrow> \<not> cl_harmed c \<and> (\<forall>patch \<in> set (cl_writes c). cl_known (resource_version patch) c) \<and>
     (cl_closed c \<longrightarrow> \<not> cl_busy c) \<and> (cl_danger c \<longrightarrow> cl_closed c)"

lemma deployment_value_simps [simp]:
  "resource_version (deployment_value c) = JStr (dec_nat (cl_version c))"
  "deployment_uid (deployment_value c) = JStr (cl_uid c)"
  "deployment_replicas (deployment_value c) = JNum (PosInt (cl_replicas c))"
  "index (index (deployment_value c) ''metadata'') ''annotations'' = cl_annotations c"
  by (simp_all add: deployment_value_def resource_version_def deployment_uid_def deployment_replicas_def)

lemma apply_patch_cases:
  assumes "apply_patch patch c = Some (r, c')"
  obtains (conflict) "c' = c" "rs_code r = 409" "resource_version patch \<noteq> JStr (dec_nat (cl_version c))"
  | (won) "resource_version patch = JStr (dec_nat (cl_version c))" "cl_version c' = cl_version c + 1"
      "cl_writes c' = cl_writes c" "cl_busy c' = cl_busy c"
      "cl_permit c' = (if as_u64 (patch_replicas patch) = Some 0 then None else cl_permit c)"
      "cl_harmed c' = (cl_harmed c \<or> as_u64 (patch_replicas patch) = Some 0 \<and> admitting c)"
proof (cases "resource_version patch = JStr (dec_nat (cl_version c))")
  case True
  then show ?thesis
    using assms
    by (intro won)
      (auto simp: apply_patch_def Let_def set_replicas_def admitting_def split: if_splits option.splits)
next
  case False
  then show ?thesis using assms by (intro conflict) (auto simp: apply_patch_def reply_def)
qed

text \<open>The record of a change that keeps the cluster safe.\<close>

definition cl_keeps :: "cluster \<Rightarrow> cluster \<Rightarrow> bool" where
  "cl_keeps c c' \<longleftrightarrow> cl_safe c \<longrightarrow> cl_safe c' \<and> (cl_danger c' \<longrightarrow> cl_danger c) \<and>
     (cl_closed c \<longrightarrow> \<not> cl_danger c \<longrightarrow> cl_closed c') \<and> cl_version c \<le> cl_version c'"

lemma cl_keeps_refl [simp]: "cl_keeps c c"
  by (simp add: cl_keeps_def)

lemma cl_keeps_trans: "cl_keeps c c1 \<Longrightarrow> cl_keeps c1 c2 \<Longrightarrow> cl_keeps c c2"
  by (auto simp: cl_keeps_def)

lemmas cl_state_defs = cl_safe_def cl_danger_def cl_closed_def cl_known_def

lemma held_simps [simp]:
  "cl_safe (c\<lparr>cl_suspends := n\<rparr>) = cl_safe c" "cl_danger (c\<lparr>cl_suspends := n\<rparr>) = cl_danger c"
  "cl_keeps c (c\<lparr>cl_suspends := n\<rparr>)"
  by (simp_all add: cl_keeps_def cl_state_defs)

text \<open>A patch whose version was reached: a winning one leaves every other one stale.\<close>

lemma apply_patch_safe:
  assumes "apply_patch patch c = Some (r, c')" "cl_safe c" "cl_known (resource_version patch) c"
    and "as_u64 (patch_replicas patch) = Some 0 \<longrightarrow> resource_version patch = JStr (dec_nat (cl_version c)) \<longrightarrow> cl_closed c"
  shows "cl_safe c' \<and> cl_version c \<le> cl_version c' \<and> (cl_danger c' \<longrightarrow> cl_danger c) \<and>
    (rs_code r \<noteq> 409 \<longrightarrow> \<not> cl_danger c') \<and>
    (cl_closed c \<longrightarrow> as_u64 (patch_replicas patch) \<noteq> Some 0 \<longrightarrow> cl_closed c')"
  using assms(1)
proof (cases rule: apply_patch_cases)
  case won
  have stale: "\<not> cl_danger c'"
    using assms(2) won(2,3) by (auto simp: cl_state_defs)
  have "cl_known (resource_version p) c'" if "p \<in> set (cl_writes c')" for p
    using assms(2) won(2,3) that by (auto simp: cl_safe_def cl_known_def)
  moreover have "\<not> cl_harmed c'" "cl_closed c' \<longrightarrow> \<not> cl_busy c'"
    using assms(2,4) won by (auto simp: cl_safe_def cl_closed_def admitting_def)
  ultimately show ?thesis using stale won(2,5) by (auto simp: cl_safe_def cl_closed_def)
qed (use assms(2) in auto)

lemma cl_writes_removed:
  assumes "cl_safe c"
  shows "cl_safe (c\<lparr>cl_writes := remove1 p (cl_writes c)\<rparr>)"
    "cl_danger (c\<lparr>cl_writes := remove1 p (cl_writes c)\<rparr>) \<longrightarrow> cl_danger c"
proof -
  have "set (remove1 p (cl_writes c)) \<subseteq> set (cl_writes c)" by (rule set_remove1_subset)
  then show "cl_safe (c\<lparr>cl_writes := remove1 p (cl_writes c)\<rparr>)"
    "cl_danger (c\<lparr>cl_writes := remove1 p (cl_writes c)\<rparr>) \<longrightarrow> cl_danger c"
    using assms by (auto simp: cl_state_defs)
qed

lemma drift_step_keeps: "drift_step late c c' \<Longrightarrow> cl_keeps c c'"
proof (induction rule: drift_step.induct)
  case (Arrives patch c r c' late)
  let ?c = "c\<lparr>cl_writes := remove1 patch (cl_writes c)\<rparr>"
  show ?case
    unfolding cl_keeps_def
  proof
    assume safe: "cl_safe c"
    have in_flight: "cl_danger c"
      if "as_u64 (patch_replicas patch) = Some 0" "resource_version patch = JStr (dec_nat (cl_version c))"
      using Arrives(1) that by (auto simp: cl_danger_def)
    have "cl_safe c' \<and> cl_version ?c \<le> cl_version c' \<and> (cl_danger c' \<longrightarrow> cl_danger ?c) \<and>
      (rs_code r \<noteq> 409 \<longrightarrow> \<not> cl_danger c') \<and>
      (cl_closed ?c \<longrightarrow> as_u64 (patch_replicas patch) \<noteq> Some 0 \<longrightarrow> cl_closed c')"
      using Arrives(1,2) safe cl_writes_removed(1) [OF safe] in_flight
      by (intro apply_patch_safe [where patch = patch]) (auto simp: cl_safe_def cl_known_def cl_closed_def)
    moreover have "cl_permit c' = cl_permit c" if "resource_version patch \<noteq> JStr (dec_nat (cl_version c))"
      using Arrives(2) that by (auto simp: apply_patch_def)
    ultimately show "cl_safe c' \<and> (cl_danger c' \<longrightarrow> cl_danger c) \<and>
        (cl_closed c \<longrightarrow> \<not> cl_danger c \<longrightarrow> cl_closed c') \<and> cl_version c \<le> cl_version c'"
      using cl_writes_removed [OF safe, of patch] in_flight unfolding cl_closed_def
      by (cases "resource_version patch = JStr (dec_nat (cl_version c))") auto
  qed
next
  case (Vanishes late c patch)
  then show ?case using cl_writes_removed [of c patch] by (auto simp: cl_keeps_def cl_closed_def)
qed (auto simp: cl_keeps_def cl_state_defs)

lemma drift_keeps: "drift late c c' \<Longrightarrow> cl_keeps c c'"
  by (induction rule: rtranclp_induct) (auto intro: cl_keeps_trans drift_step_keeps)

text \<open>One exchange: what the control server and the API server may do to the state.\<close>

lemma control_handle_keeps:
  assumes "control_handle rq c = (r, c')" "\<not> is_resume rq"
  shows "cl_keeps c c'"
  using assms by (auto simp: control_handle_def Let_def cl_keeps_def cl_state_defs split: if_splits)

lemma control_handle_safe:
  assumes "control_handle rq c = (r, c')" "cl_safe c" "\<not> cl_danger c"
  shows "cl_safe c' \<and> \<not> cl_danger c' \<and> cl_version c \<le> cl_version c'"
  using assms by (auto simp: control_handle_def Let_def cl_state_defs split: if_splits)

lemma api_read: "api_handle rq c = Some (r, c') \<Longrightarrow> rq_method rq \<noteq> PATCH \<Longrightarrow> c' = c"
  by (auto simp: api_handle_def split: if_splits)

lemma served_keeps:
  assumes "serve rq c = Some (r, c')" "\<not> is_patch rq" "\<not> is_resume rq"
  shows "cl_keeps c c'"
  using assms control_handle_keeps [of rq c r c'] api_read [of rq c r c']
  by (auto simp: serve_def is_patch_def to_worker_def split: if_splits)

lemma served_patch:
  assumes "serve rq c = Some (r, c')" "is_patch rq" "rq_body rq = Some patch"
  shows "apply_patch patch c = Some (r, c')"
  using assms by (auto simp: serve_def api_handle_def is_patch_def to_worker_def split: if_splits)

lemma exchanged_keeps:
  assumes "exchanged late rq c r c'" "\<not> is_patch rq" "\<not> is_resume rq"
  shows "cl_keeps c c'"
  using assms by (cases rule: exchanged.cases) (auto dest: served_keeps)

lemma clock_keeps: "cl_keeps c (c\<lparr>cl_clock := t\<rparr>)"
  by (simp add: cl_keeps_def cl_state_defs)

lemma happens_keeps: "happens late c e c' \<Longrightarrow> \<not> delicate e \<Longrightarrow> cl_keeps c c'"
  by (cases e) (auto simp: delicate_def clock_keeps intro: exchanged_keeps)

text \<open>Every event leaves the version no smaller, so what was reached stays reached.\<close>

lemma apply_patch_grows: "apply_patch patch c = Some (r, c') \<Longrightarrow> cl_version c \<le> cl_version c'"
  by (erule apply_patch_cases) auto

lemma served_grows: "serve rq c = Some (r, c') \<Longrightarrow> cl_version c \<le> cl_version c'"
  using apply_patch_grows [of _ c r c']
  by (auto simp: serve_def control_handle_def api_handle_def Let_def split: if_splits)

lemma exchanged_grows: "exchanged late rq c r c' \<Longrightarrow> cl_version c \<le> cl_version c'"
  by (erule exchanged.cases) (auto dest: served_grows)

lemma happens_grows: "happens late c e c' \<Longrightarrow> cl_version c \<le> cl_version c'"
  by (cases e) (auto dest: exchanged_grows)

lemma drift_step_grows: "drift_step late c c' \<Longrightarrow> cl_version c \<le> cl_version c'"
  by (induction rule: drift_step.induct) (auto dest: apply_patch_grows)

lemma drift_grows: "drift late c c' \<Longrightarrow> cl_version c \<le> cl_version c'"
  by (induction rule: rtranclp_induct) (auto dest: drift_step_grows)

lemma answers_grows: "answers late c e c' \<Longrightarrow> cl_version c \<le> cl_version c'"
  by (auto simp: answers_def dest!: drift_grows happens_grows)

text \<open>A reply that decodes was served, and is what the server sent.\<close>

lemma exchanged_decoded:
  assumes "exchanged late rq c r c'" "decoded r = Inr v"
  shows "\<exists>r1. r = Inr r1 \<and> serve rq c = Some (r1, c')"
  using assms by (cases rule: exchanged.cases)
    (auto simp: decoded_def andThen_def error_for_status_def json_body_def reply_def split: sum.splits if_splits)

section \<open>The laws of the idle world\<close>

lemma drift_safe: "drift late c c' \<Longrightarrow> cl_safe c \<Longrightarrow>
    cl_safe c' \<and> (cl_danger c' \<longrightarrow> cl_danger c) \<and> (cl_closed c \<longrightarrow> \<not> cl_danger c \<longrightarrow> cl_closed c') \<and>
    cl_version c \<le> cl_version c'"
  using drift_keeps [of _ c c'] by (simp add: cl_keeps_def)

text \<open>An exchange seen from both ends of the drift around it.\<close>

lemma answers_exchange:
  assumes "answers late c (EvHttp rq r) c'" "cl_safe c"
  obtains c1 c2 where "exchanged late rq c1 r c2" "drift late c2 c'" "cl_safe c1" "cl_version c \<le> cl_version c1"
    "cl_danger c1 \<longrightarrow> cl_danger c" "cl_closed c \<longrightarrow> \<not> cl_danger c \<longrightarrow> cl_closed c1"
  using assms by (fastforce simp: answers_def dest: drift_safe)

lemma quiet_answer:
  assumes "answers late c e c'" "\<not> delicate e"
  shows "cl_keeps c c'"
proof -
  obtain c1 c2 where "drift late c c1" "happens late c1 e c2" "drift late c2 c'" using assms(1) by (auto simp: answers_def)
  with assms(2) have "cl_keeps c c1" "cl_keeps c1 c2" "cl_keeps c2 c'"
    by (blast intro: drift_keeps happens_keeps)+
  then show ?thesis by (blast intro: cl_keeps_trans)
qed

lemma sleep_count: "is_patch rq \<Longrightarrow> rq_body rq = Some patch \<Longrightarrow>
    as_u64 (patch_replicas patch) = Some 0 \<Longrightarrow> is_sleep rq"
  by (auto simp: is_sleep_def eq_int_def as_u64_iff)

text \<open>A patch that is answered, lost or delayed: only one that puts to sleep needs the gate closed.\<close>

lemma patch_exchange_safe:
  assumes "exchanged late rq c r c'" "cl_safe c" "is_patch rq" "rq_body rq = Some patch"
    and "cl_known (resource_version patch) c" "is_sleep rq \<longrightarrow> cl_closed c"
  shows "cl_safe c' \<and> (\<not> is_sleep rq \<longrightarrow> cl_danger c' \<longrightarrow> cl_danger c) \<and>
    (is_ok (decoded r) \<longrightarrow> \<not> cl_danger c')"
proof -
  have served: "cl_safe c1 \<and> (cl_danger c1 \<longrightarrow> cl_danger c) \<and> (rs_code r1 \<noteq> 409 \<longrightarrow> \<not> cl_danger c1)"
    if "serve rq c = Some (r1, c1)" for r1 c1
    using apply_patch_safe [OF served_patch [OF that assms(3,4)] assms(2,5)]
      assms(6) sleep_count [OF assms(3,4)] by auto
  have won: "rs_code r1 \<noteq> 409" if "decoded (Inr r1) = Inr v" for r1 v
    using that by (auto simp: decoded_def andThen_def error_for_status_def split: sum.splits if_splits)
  have "is_ok (decoded r) \<longrightarrow> \<not> cl_danger c'"
  proof
    assume "is_ok (decoded r)"
    then obtain v where v: "decoded r = Inr v" by (cases "decoded r") (simp_all add: is_ok_def)
    with exchanged_decoded [OF assms(1)] obtain r1 where r1: "r = Inr r1" "serve rq c = Some (r1, c')"
      by blast
    with v won served show "\<not> cl_danger c'" by blast
  qed
  moreover have "cl_safe c' \<and> (\<not> is_sleep rq \<longrightarrow> cl_danger c' \<longrightarrow> cl_danger c)"
    using assms(1)
  proof (cases rule: exchanged.cases)
    case (Delayed patch' e)
    then have "patch' = patch" using assms(4) by simp
    with Delayed assms(2,5,6) sleep_count [OF assms(3,4)] show ?thesis
      by (auto simp: cl_state_defs)
  qed (use assms(2) served in auto)
  ultimately show ?thesis by blast
qed

lemma resume_exchange_safe:
  assumes "exchanged late rq c r c'" "is_resume rq" "cl_safe c" "\<not> cl_danger c"
  shows "cl_safe c' \<and> \<not> cl_danger c'"
proof -
  have "cl_safe c1 \<and> \<not> cl_danger c1" if "serve rq c = Some (r1, c1)" for r1 c1
    using that assms(2-4) control_handle_safe [of rq c r1 c1] by (simp add: serve_def is_resume_def)
  with assms show ?thesis
    by (cases rule: exchanged.cases) (auto simp: is_patch_def is_resume_def to_worker_def)
qed

lemma null_version [simp]: "resource_version JNull = JNull"
  by (simp add: resource_version_def)

lemma decode_status_value:
  "decode_status (status_value c) = Inr \<lparr>is_protocol_version = 1, is_boot_id = ''boot-one'',
     is_ready = True, is_busy = cl_busy c, is_permit = cl_permit c\<rparr>"
  by (cases "cl_permit c")
    (simp_all add: status_value_def permit_value_def status_of_def required_def field_of_def decode_u32_def
      decode_string_def decode_bool_def decode_optional_def andThen_def)

lemma suspend_exchange_closes:
  assumes "exchanged late rq c r c'" "is_suspend rq" "status_of_reply r = Inr st" "is_permit st \<noteq> None"
  shows "cl_closed c'"
proof -
  obtain body where body: "decoded r = Inr body" "decode_status body = Inr st"
    using assms(3) by (auto simp: status_of_reply_def check_capability_def andThen_Inr_iff split: if_splits)
  with exchanged_decoded [OF assms(1)] obtain r1 where r1: "r = Inr r1" "serve rq c = Some (r1, c')" by blast
  have "\<not> is_resume rq" "to_worker rq" using assms(2) by (auto simp: is_suspend_def is_resume_def)
  with r1 body(1) have "body = status_value c'"
    by (auto simp: serve_def control_handle_def Let_def decoded_def andThen_def error_for_status_def
        json_body_def reply_def split: if_splits sum.splits)
  with body(2) assms(4) show ?thesis
    by (auto simp: decode_status_value cl_closed_def)
qed

text \<open>The worker goes down only by a patch that asks for it under the current version.\<close>

lemma apply_patch_steady:
  assumes "apply_patch patch c = Some (r, c')"
    and "resource_version patch = JStr (dec_nat (cl_version c)) \<longrightarrow> as_u64 (patch_replicas patch) \<noteq> Some 0"
  shows "cl_scale_downs c' = cl_scale_downs c"
  using assms by (auto simp: apply_patch_def Let_def set_replicas_def split: if_splits option.splits)

lemma drift_step_steady:
  assumes "drift_step late c c'" "\<not> cl_danger c"
  shows "cl_scale_downs c' = cl_scale_downs c"
  using assms(1)
proof cases
  case (Arrives patch r)
  with assms(2) apply_patch_steady [OF Arrives(2)] show ?thesis by (auto simp: cl_danger_def)
qed simp_all

lemma drift_steady:
  "drift late c c' \<Longrightarrow> cl_safe c \<Longrightarrow> \<not> cl_danger c \<Longrightarrow> cl_scale_downs c' = cl_scale_downs c"
proof (induction rule: rtranclp_induct)
  case (step c1 c2)
  then have "\<not> cl_danger c1" using drift_safe [OF step(1)] by blast
  with step drift_step_steady show ?case by simp
qed simp

lemma exchanged_steady:
  assumes "exchanged late rq c r c'" "\<not> is_sleep rq"
  shows "cl_scale_downs c' = cl_scale_downs c"
proof -
  have "cl_scale_downs c1 = cl_scale_downs c" if *: "serve rq c = Some (r1, c1)" for r1 c1
  proof (cases "is_patch rq")
    case True
    have "apply_patch (case rq_body rq of None \<Rightarrow> JNull | Some patch \<Rightarrow> patch) c = Some (r1, c1)"
      using * True by (auto simp: serve_def api_handle_def is_patch_def to_worker_def)
    then show ?thesis
      by (rule apply_patch_steady) (use assms(2) True sleep_count [OF True] in \<open>auto split: option.splits\<close>)
  next
    case False
    with * show ?thesis
      by (auto simp: serve_def api_handle_def control_handle_def Let_def is_patch_def to_worker_def split: if_splits)
  qed
  with assms(1) show ?thesis by (cases rule: exchanged.cases) auto
qed

lemma happens_steady: "happens late c e c' \<Longrightarrow> \<not> sleep_event e \<Longrightarrow> cl_scale_downs c' = cl_scale_downs c"
  by (cases e) (auto simp: sleep_event_def dest: exchanged_steady)

text \<open>A patch arriving before or after an exchange needs danger too.\<close>

text \<open>Apart from a sleep write, an exchange leaves a cluster out of danger out of danger.\<close>

lemma bodiless_patch:
  assumes "is_patch rq" "rq_body rq = None" "serve rq c = Some (r, c')"
  shows "c' = c"
  using assms by (auto simp: serve_def api_handle_def is_patch_def to_worker_def apply_patch_def null_version
      split: if_splits)

lemma happens_undisturbed:
  assumes "cl_safe c" "\<not> cl_danger c" "happens late c e c'" "\<not> sleep_event e"
    and "\<And>rq r b. e = EvHttp rq r \<Longrightarrow> is_patch rq \<Longrightarrow> rq_body rq = Some b \<Longrightarrow> cl_known (resource_version b) c"
  shows "cl_safe c' \<and> \<not> cl_danger c'"
proof (cases "delicate e")
  case False
  then show ?thesis using happens_keeps [OF assms(3)] assms(1,2) by (auto simp: cl_keeps_def)
next
  case True
  then obtain rq r where e: "e = EvHttp rq r" and kind: "is_patch rq \<or> is_resume rq"
    by (auto simp: delicate_def)
  from assms(3) have ex: "exchanged late rq c r c'" by (simp add: e)
  consider "is_resume rq" | "is_patch rq" "rq_body rq = None" | b where "is_patch rq" "rq_body rq = Some b"
    using kind by (cases "rq_body rq") auto
  then show ?thesis
  proof cases
    case 1
    from resume_exchange_safe [OF ex this assms(1,2)] show ?thesis .
  next
    case 2
    from ex show ?thesis
      using bodiless_patch [OF 2] 2 assms(1,2) by (cases rule: exchanged.cases) auto
  next
    case 3
    from patch_exchange_safe [OF ex assms(1) this assms(5) [OF e this]] assms(2,4) e show ?thesis
      by (auto simp: sleep_event_def)
  qed
qed

lemma answers_steady:
  assumes "cl_safe c" "\<not> cl_danger c" "answers late c e c'" "\<not> sleep_event e"
    and "\<And>rq r b. e = EvHttp rq r \<Longrightarrow> is_patch rq \<Longrightarrow> rq_body rq = Some b \<Longrightarrow> cl_known (resource_version b) c"
  shows "cl_scale_downs c' = cl_scale_downs c"
proof -
  obtain c1 c2 where d: "drift late c c1" "happens late c1 e c2" "drift late c2 c'" using assms(3) by (auto simp: answers_def)
  have c1: "cl_safe c1" "\<not> cl_danger c1" using drift_safe [OF d(1) assms(1)] assms(2) by auto
  have "cl_known (resource_version b) c1" if "e = EvHttp rq r" "is_patch rq" "rq_body rq = Some b" for rq r b
    using assms(5) [OF that] drift_grows [OF d(1)] by (fastforce simp: cl_known_def)
  from happens_undisturbed [OF c1 d(2) assms(4) this]
  have "cl_scale_downs c' = cl_scale_downs c2" using drift_steady [OF d(3)] by simp
  also have "\<dots> = cl_scale_downs c1" using d(2) assms(4) by (rule happens_steady)
  also have "\<dots> = cl_scale_downs c" using d(1) assms(1,2) by (rule drift_steady)
  finally show ?thesis .
qed

interpretation cluster: attached_world "answers late" cl_danger cl_closed cl_safe cl_known cl_scale_downs
  for late
proof unfold_locales
  fix c e c'
  assume "cl_safe c" "answers late c e c'" "\<not> delicate e"
  then show "cl_safe c' \<and> (cl_danger c' \<longrightarrow> cl_danger c) \<and> (cl_closed c \<longrightarrow> \<not> cl_danger c \<longrightarrow> cl_closed c')"
    using quiet_answer by (simp add: cl_keeps_def)
next
  fix c e c' v
  assume "answers late c e c'" "cl_known v c"
  then show "cl_known v c'" using answers_grows [of _ c e c'] by (fastforce simp: cl_known_def)
next
  fix c kube path query t r c' v
  let ?rq = "http_get kube path query t"
  assume "cl_safe c" "answers late c (EvHttp ?rq r) c'" "decoded r = Inr v"
  then obtain c1 c2 where ex: "exchanged late ?rq c1 r c2" and d: "drift late c2 c'"
    by (blast elim: answers_exchange)
  with exchanged_decoded [OF ex] \<open>decoded r = Inr v\<close> obtain r1 where
    r1: "r = Inr r1" "api_handle ?rq c1 = Some (r1, c2)" "rs_body r1 = Inr v"
    by (auto simp: serve_def to_worker_def http_get_def decoded_def json_body_def andThen_Inr_iff
        error_for_status_def split: if_splits)
  then have "v = pods_value c2 \<or> v = deployment_value c2"
    by (auto simp: api_handle_def http_get_def reply_def split: if_splits)
  moreover have "resource_version (pods_value c2) = JNull"
    by (simp add: pods_value_def resource_version_def)
  ultimately have "cl_known (resource_version v) c2" by (auto simp: cl_known_def)
  then show "cl_known (resource_version v) c'"
    using drift_grows [OF d] by (fastforce simp: cl_known_def)
next
  fix c rq r c'
  assume *: "cl_safe c" "\<not> cl_danger c" "answers late c (EvHttp rq r) c'" "is_resume rq"
  then obtain c1 c2 where ex: "exchanged late rq c1 r c2" "drift late c2 c'" "cl_safe c1" "\<not> cl_danger c1"
    by (blast elim: answers_exchange)
  have "cl_safe c2 \<and> \<not> cl_danger c2" using ex(1) *(4) ex(3,4) by (rule resume_exchange_safe)
  with ex(2) show "cl_safe c' \<and> \<not> cl_danger c'" by (auto dest: drift_safe)
next
  fix c rq r c' patch
  assume *: "cl_safe c" "answers late c (EvHttp rq r) c'" "is_patch rq" "rq_body rq = Some patch"
    "cl_known (resource_version patch) c" "\<not> is_sleep rq"
  then obtain c1 c2 where ex: "exchanged late rq c1 r c2" "drift late c2 c'" "cl_safe c1" "cl_danger c1 \<longrightarrow> cl_danger c"
    "cl_version c \<le> cl_version c1"
    by (blast elim: answers_exchange)
  have "cl_known (resource_version patch) c1" using *(5) ex(5) by (auto simp: cl_known_def)
  with patch_exchange_safe [OF ex(1,3) *(3,4)] *(6) ex(2,4)
  show "cl_safe c' \<and> (cl_danger c' \<longrightarrow> cl_danger c)" by (auto dest: drift_safe)
next
  fix c rq r c' patch
  assume *: "cl_safe c" "answers late c (EvHttp rq r) c'" "is_sleep rq" "rq_body rq = Some patch"
    "cl_known (resource_version patch) c" "cl_closed c" "\<not> cl_danger c"
  then obtain c1 c2 where ex: "exchanged late rq c1 r c2" "drift late c2 c'" "cl_safe c1" "cl_closed c1"
    "cl_version c \<le> cl_version c1"
    by (blast elim: answers_exchange)
  have "cl_known (resource_version patch) c1" using *(5) ex(5) by (auto simp: cl_known_def)
  with patch_exchange_safe [OF ex(1,3) _ *(4)] *(3) ex(2,4) show "cl_safe c'"
    by (auto simp: is_sleep_def dest: drift_safe)
next
  fix c rq r c' patch
  assume *: "cl_safe c" "answers late c (EvHttp rq r) c'" "is_patch rq" "rq_body rq = Some patch"
    "cl_known (resource_version patch) c" "is_sleep rq \<longrightarrow> cl_closed c \<and> \<not> cl_danger c" "is_ok (decoded r)"
  then obtain c1 c2 where ex: "exchanged late rq c1 r c2" "drift late c2 c'" "cl_safe c1"
    "is_sleep rq \<longrightarrow> cl_closed c1" "cl_version c \<le> cl_version c1"
    by (blast elim: answers_exchange)
  have "cl_known (resource_version patch) c1" using *(5) ex(5) by (auto simp: cl_known_def)
  with patch_exchange_safe [OF ex(1,3) *(3,4)] *(7) ex(2,4) show "\<not> cl_danger c'"
    by (auto dest: drift_safe)
next
  fix c rq r c' st
  assume *: "cl_safe c" "\<not> cl_danger c" "answers late c (EvHttp rq r) c'" "is_suspend rq"
    "status_of_reply r = Inr st" "is_permit st \<noteq> None"
  then obtain c1 c2 where ex: "exchanged late rq c1 r c2" "drift late c2 c'" "cl_safe c1" "\<not> cl_danger c1"
    by (blast elim: answers_exchange)
  have "\<not> is_patch rq" "\<not> is_resume rq"
    using *(4) by (auto simp: is_suspend_def is_patch_def is_resume_def to_worker_def)
  with exchanged_keeps [OF ex(1)] ex(3,4) have "cl_safe c2" "\<not> cl_danger c2"
    by (auto simp: cl_keeps_def)
  with suspend_exchange_closes [OF ex(1) *(4-6)] ex(2) show "cl_closed c'" by (auto dest: drift_safe)
qed (rule answers_steady)

section \<open>When the worker serves\<close>

definition cl_running :: "cluster \<Rightarrow> bool" where
  "cl_running c \<longleftrightarrow> cl_replicas c \<noteq> 0"

definition cl_open :: "cluster \<Rightarrow> bool" where
  "cl_open c \<longleftrightarrow> cl_permit c = None"

text \<open>What a change may do: the replicas go to zero only with a scale-down, and then uncounted never.\<close>

definition cl_lasts :: "cluster \<Rightarrow> cluster \<Rightarrow> bool" where
  "cl_lasts c c' \<longleftrightarrow> cl_scale_downs c \<le> cl_scale_downs c' \<and>
     (cl_scale_downs c' = cl_scale_downs c \<longrightarrow> cl_running c \<longrightarrow> cl_running c')"

lemma cl_lasts_refl [simp]: "cl_lasts c c"
  by (simp add: cl_lasts_def)

lemma cl_lasts_trans: "cl_lasts c c1 \<Longrightarrow> cl_lasts c1 c2 \<Longrightarrow> cl_lasts c c2"
  by (auto simp: cl_lasts_def)

lemma apply_patch_lasts: "apply_patch patch c = Some (r, c') \<Longrightarrow> cl_lasts c c' \<and> (cl_open c \<longrightarrow> cl_open c')"
  by (auto simp: apply_patch_def Let_def set_replicas_def cl_lasts_def cl_running_def cl_open_def
      split: if_splits option.splits)

lemma drift_step_lasts: "drift_step late c c' \<Longrightarrow> cl_lasts c c' \<and> (\<not> late \<longrightarrow> cl_open c \<longrightarrow> cl_open c')"
proof (induction rule: drift_step.induct)
  case (Arrives patch c r c' late)
  then show ?case using apply_patch_lasts [OF Arrives(2)] by (simp add: cl_lasts_def cl_running_def cl_open_def)
qed (simp_all add: cl_lasts_def cl_running_def cl_open_def)

lemma drift_lasts: "drift late c c' \<Longrightarrow> cl_lasts c c' \<and> (\<not> late \<longrightarrow> cl_open c \<longrightarrow> cl_open c')"
  by (induction rule: rtranclp_induct) (auto dest: drift_step_lasts intro: cl_lasts_trans)

lemma serve_lasts:
  assumes "serve rq c = Some (r, c')"
  shows "cl_lasts c c'" "\<not> is_suspend rq \<Longrightarrow> cl_open c \<Longrightarrow> cl_open c'"
  using assms apply_patch_lasts [of _ c r c']
  by (auto simp: serve_def api_handle_def control_handle_def Let_def cl_lasts_def cl_running_def cl_open_def
      split: if_splits)

lemma exchanged_lasts:
  assumes "exchanged False rq c r c'"
  shows "cl_lasts c c'" "\<not> is_suspend rq \<Longrightarrow> cl_open c \<Longrightarrow> cl_open c'"
  using assms serve_lasts [of rq c _ c']
  by (cases rule: exchanged.cases; auto simp: cl_lasts_def cl_running_def cl_open_def; fail)+

lemma happens_lasts:
  assumes "happens False c e c'"
  shows "cl_lasts c c'" "\<not> suspend_event e \<Longrightarrow> cl_open c \<Longrightarrow> cl_open c'"
  using assms exchanged_lasts [of _ c _ c']
  by (cases e; auto simp: cl_lasts_def cl_running_def cl_open_def suspend_event_def; fail)+

lemma answers_lasts:
  assumes "answers False c e c'"
  shows "cl_lasts c c'" "\<not> suspend_event e \<Longrightarrow> cl_open c \<Longrightarrow> cl_open c'"
proof -
  obtain c1 c2 where d: "drift False c c1" "happens False c1 e c2" "drift False c2 c'" using assms by (auto simp: answers_def)
  show "cl_lasts c c'"
    using drift_lasts [OF d(1)] happens_lasts(1) [OF d(2)] drift_lasts [OF d(3)] by (blast intro: cl_lasts_trans)
  show "\<not> suspend_event e \<Longrightarrow> cl_open c \<Longrightarrow> cl_open c'"
    using drift_lasts [OF d(1)] happens_lasts(2) [OF d(2)] drift_lasts [OF d(3)] by blast
qed

text \<open>What replies show: a list with a pod, a status without permit, a resume that succeeded.\<close>

lemma pods_exchange:
  assumes "exchanged False (pods_request kube t) c r c'" "pods_of_reply r = Inr [pod]"
  shows "cl_running c'"
proof -
  obtain v where v: "decoded r = Inr v" "as_array (index v ''items'') = Some [pod]"
    using assms(2) by (auto simp: pods_of_reply_def andThen_Inr_iff ok_or_def split: option.splits)
  with exchanged_decoded [OF assms(1)] obtain r1 where r1: "r = Inr r1" "serve (pods_request kube t) c = Some (r1, c')"
    by blast
  then have "v = pods_value c' \<or> v = deployment_value c'"
    using v(1) by (auto simp: serve_def api_handle_def to_worker_def pods_request_def http_get_def decoded_def json_body_def
        andThen_Inr_iff error_for_status_def reply_def split: if_splits)
  with v(2) show ?thesis
    by (auto simp: pods_value_def deployment_value_def cl_running_def split: if_splits)
qed

lemma status_exchange_open:
  assumes "exchanged False (control_request b GET ''/status'' t) c r c'" "status_of_reply r = Inr st" "is_permit st = None"
  shows "cl_open c'"
proof -
  obtain body where body: "decoded r = Inr body" "decode_status body = Inr st"
    using assms(2) by (auto simp: status_of_reply_def check_capability_def andThen_Inr_iff split: if_splits)
  with exchanged_decoded [OF assms(1)] obtain r1 where
    r1: "r = Inr r1" "serve (control_request b GET ''/status'' t) c = Some (r1, c')" by blast
  have "to_worker (control_request b GET ''/status'' t)" by (simp add: control_request_def to_worker_def)
  with r1 body(1) have "body = status_value c'"
    by (auto simp: serve_def control_handle_def Let_def decoded_def andThen_def error_for_status_def
        json_body_def reply_def split: if_splits sum.splits)
  with body(2) assms(3) show ?thesis by (auto simp: decode_status_value cl_open_def)
qed

lemma resume_exchange_open:
  assumes "exchanged False rq c r c'" "is_resume rq" "andThen r error_for_status = Inr y"
  shows "cl_open c'"
proof -
  have kind: "\<not> is_patch rq" "to_worker rq" using assms(2) by (auto simp: is_resume_def is_patch_def to_worker_def)
  have "cl_open c'" if "serve rq c = Some (r1, c')" "rs_code r1 < 400" for r1
    using that kind assms(2) by (auto simp: serve_def control_handle_def reply_def cl_open_def split: if_splits)
  with assms(1,3) kind show ?thesis
    by (cases rule: exchanged.cases) (auto simp: error_for_status_def reply_def serve_def control_handle_def
        Let_def assms(2) split: if_splits)
qed

interpretation service: serving_world "answers False" cl_danger cl_closed cl_safe cl_known cl_scale_downs cl_running cl_open
proof unfold_locales
  fix c kube t r c' pod
  assume *: "cl_safe c" "\<not> cl_danger c" "answers False c (EvHttp (pods_request kube t) r) c'" "pods_of_reply r = Inr [pod]"
  then obtain c1 c2 where ex: "exchanged False (pods_request kube t) c1 r c2" "drift False c2 c'" "cl_safe c1" "\<not> cl_danger c1"
    by (blast elim: answers_exchange)
  have "\<not> is_patch (pods_request kube t)" "\<not> is_resume (pods_request kube t)" by (simp_all add: pods_request_def)
  with exchanged_keeps [OF ex(1)] ex(3,4) have "cl_safe c2" "\<not> cl_danger c2" by (auto simp: cl_keeps_def)
  with drift_steady [OF ex(2)] drift_lasts [OF ex(2)] pods_exchange [OF ex(1) *(4)] show "cl_running c'"
    by (auto simp: cl_lasts_def)
next
  fix c b t r c' st
  assume *: "cl_safe c" "answers False c (EvHttp (control_request b GET ''/status'' t) r) c'"
    "status_of_reply r = Inr st" "is_permit st = None"
  then obtain c1 c2 where "exchanged False (control_request b GET ''/status'' t) c1 r c2" "drift False c2 c'"
    by (blast elim: answers_exchange)
  with status_exchange_open [OF _ *(3,4)] drift_lasts show "cl_open c'" by blast
next
  fix c rq r c' y
  assume *: "cl_safe c" "answers False c (EvHttp rq r) c'" "is_resume rq" "andThen r error_for_status = Inr y"
  then obtain c1 c2 where "exchanged False rq c1 r c2" "drift False c2 c'" by (blast elim: answers_exchange)
  with resume_exchange_open [OF _ *(3,4)] drift_lasts show "cl_open c'" by blast
next
  fix c e c'
  assume "answers False c e c'" "cl_scale_downs c' = cl_scale_downs c" "cl_running c"
  then show "cl_running c'" using answers_lasts(1) by (simp add: cl_lasts_def)
next
  fix c e c'
  assume "answers False c e c'" "\<not> suspend_event e" "cl_open c"
  then show "cl_open c'" by (rule answers_lasts(2))
qed

text \<open>The service a process and a cluster make together.\<close>

definition service_view :: "proxy option \<Rightarrow> cluster \<Rightarrow> service" where
  "service_view x c = \<lparr>sv_sessions = sessions_of x, sv_awake = (cl_replicas c \<noteq> 0 \<and> cl_permit c = None)\<rparr>"

lemma service_of_view: "service.service_of = service_view"
  by (simp add: fun_eq_iff service.service_of_def service_view_def service.serves_def cl_running_def cl_open_def)

section \<open>Time in the cluster\<close>

lemma served_clock: "serve rq c = Some (r, c') \<Longrightarrow> cl_clock c' = cl_clock c"
  by (auto simp: serve_def api_handle_def apply_patch_def set_replicas_def control_handle_def Let_def
      split: if_splits option.splits)

lemma apply_patch_clock: "apply_patch patch c = Some (r, c') \<Longrightarrow> cl_clock c' = cl_clock c"
  by (auto simp: apply_patch_def set_replicas_def Let_def split: if_splits option.splits)

lemma drift_step_clock: "drift_step late c c' \<Longrightarrow> cl_clock c \<le> cl_clock c'"
  by (induction rule: drift_step.induct) (auto dest: apply_patch_clock)

lemma drift_clock: "drift late c c' \<Longrightarrow> cl_clock c \<le> cl_clock c'"
  by (induction rule: rtranclp_induct) (auto dest: drift_step_clock)

lemma happens_clock: "happens late c e c' \<Longrightarrow> cl_clock c \<le> cl_clock c'"
  by (cases e) (auto elim!: exchanged.cases dest: served_clock)

interpretation cluster_time: timed_world "answers late" cl_clock
  for late
proof unfold_locales
  fix c e c'
  assume "answers late c e c'"
  then show "cl_clock c \<le> cl_clock c'"
    by (auto simp: answers_def dest!: drift_clock happens_clock)
next
  fix c t c'
  assume "answers late c (EvNow t) c'"
  then show "cl_clock c \<le> t \<and> t \<le> cl_clock c'"
    by (auto simp: answers_def dest!: drift_clock)
next
  fix c d c'
  assume "answers late c (EvSleep d) c'"
  then show "cl_clock c + d \<le> cl_clock c'"
    by (auto simp: answers_def dest!: drift_clock)
qed

end
