(* ===== verification/Cluster_Play.thy ===== *)
theory Cluster_Play
  imports Cluster
begin

text \<open>
  Runs of the controller against a cluster that answers every request at once, as the
  proxy's tests run it: \<open>play\<close> computes the result and the cluster it leaves, and every such
  run is a run in the world \<open>answers\<close>. A delay holds the sleep writes up past the client's
  timeout, so that they stay in flight, as the tests' \<open>slow_sleep\<close> does, or the requests to
  suspend.
\<close>

datatype delay = Prompt | Slow_Sleep | Slow_Suspend

definition replied :: "delay \<Rightarrow> http_request \<Rightarrow> cluster \<Rightarrow> (string + http_response) \<times> cluster" where
  "replied delay rq c =
     (if delay = Slow_Sleep \<and> is_sleep rq
      then (Inl ''operation timed out'',
        case rq_body rq of Some patch \<Rightarrow> c\<lparr>cl_writes := patch # cl_writes c\<rparr> | None \<Rightarrow> c)
      else if delay = Slow_Suspend \<and> is_suspend rq
      then (Inl ''operation timed out'', c\<lparr>cl_suspends := cl_suspends c + 1\<rparr>)
      else case serve rq c of
        Some (r, c1) \<Rightarrow> (Inr r, c1)
      | None \<Rightarrow> (Inl ''connection closed'', c))"

primrec play :: "delay \<Rightarrow> ('s, 'a) proc \<Rightarrow> cluster \<Rightarrow> 'a \<times> cluster" where
  "play delay (Done x) c = (x, c)"
| "play delay (ReadFile p k) c = play delay (k (Inr ''token'')) c"
| "play delay (Http s rq k) c = (case replied delay rq c of (r, c1) \<Rightarrow> play delay (k r) c1)"
| "play delay (BuildClient k) c = play delay (k (Inr ())) c"
| "play delay (NewUuid k) c = play delay (k (''uuid-'' @ dec_nat (cl_version c))) c"
| "play delay (Now k) c = play delay (k (cl_clock c)) c"
| "play delay (Sleep s d k) c = play delay (k ()) (c\<lparr>cl_clock := cl_clock c + d\<rparr>)"

lemma happens_answers: "happens late c e c' \<Longrightarrow> answers late c e c'"
  by (auto simp: answers_def)

lemma replied_exchanged: "delay = Slow_Suspend \<longrightarrow> late \<Longrightarrow> replied delay rq c = (r, c1) \<Longrightarrow> exchanged late rq c r c1"
  by (auto simp: replied_def is_sleep_def split: if_splits option.splits
      intro: exchanged.Answered exchanged.Unanswered exchanged.Delayed exchanged.Held [simplified])

theorem play_runs:
  assumes "delay = Slow_Suspend \<longrightarrow> late"
  shows "play delay t c = (x, c') \<Longrightarrow> \<exists>es. runs t es x \<and> goes (answers late) c es c'"
proof (induction t arbitrary: c)
  case (Done y)
  then show ?case by (auto intro!: exI [of _ "[]"] runs.Done)
next
  case (ReadFile p k)
  then obtain es where "runs (k (Inr ''token'')) es x" "goes (answers late) c es c'" by force
  then show ?case
    by (intro exI [of _ "EvRead p (Inr ''token'') # es"]) (auto intro!: runs.ReadFile happens_answers)
next
  case (Http s rq k)
  obtain r c1 where r: "replied delay rq c = (r, c1)" by (cases "replied delay rq c")
  with Http obtain es where "runs (k r) es x" "goes (answers late) c1 es c'" by force
  then show ?case using happens_answers [of late c "EvHttp rq r" c1] replied_exchanged [OF assms r]
    by (intro exI [of _ "EvHttp rq r # es"]) (auto intro!: runs.Http)
next
  case (BuildClient k)
  then obtain es where "runs (k (Inr ())) es x" "goes (answers late) c es c'" by force
  then show ?case
    by (intro exI [of _ "EvClient (Inr ()) # es"]) (auto intro!: runs.BuildClient happens_answers)
next
  case (NewUuid k)
  let ?u = "''uuid-'' @ dec_nat (cl_version c)"
  from NewUuid obtain es where "runs (k ?u) es x" "goes (answers late) c es c'" by force
  then show ?case
    by (intro exI [of _ "EvUuid ?u # es"]) (auto intro!: runs.NewUuid happens_answers)
next
  case (Now k)
  then obtain es where "runs (k (cl_clock c)) es x" "goes (answers late) c es c'" by force
  then show ?case
    by (intro exI [of _ "EvNow (cl_clock c) # es"]) (auto intro!: runs.Now happens_answers)
next
  case (Sleep s d k)
  let ?c = "c\<lparr>cl_clock := cl_clock c + d\<rparr>"
  from Sleep obtain es where "runs (k ()) es x" "goes (answers late) ?c es c'" by force
  then show ?case
    by (intro exI [of _ "EvSleep d # es"]) (auto intro!: runs.Sleep happens_answers)
qed

lemmas prompt_runs = play_runs [of Prompt, simplified]
  and slow_runs = play_runs [of Slow_Sleep, simplified]
  and held_runs = play_runs [of Slow_Suspend True, simplified]

section \<open>Composed actions\<close>

lemma play_pbind: "play delay (pbind t f) c = (case play delay t c of (x, c1) \<Rightarrow> play delay (f x) c1)"
  by (induction t arbitrary: c) (auto split: option.splits prod.splits)

lemma play_bind: "play delay (bind m f s) c = (case play delay (m s) c of
    ((Inl e, s1), c1) \<Rightarrow> ((Inl e, s1), c1) | ((Inr x, s1), c1) \<Rightarrow> play delay (f x s1) c1)"
  by (auto simp: bind_def play_pbind split: prod.splits sum.splits)

lemma play_matching: "play delay (matching m f s) c = (case play delay (m s) c of
    ((Inr x, s1), c1) \<Rightarrow> play delay (f (Inr x) s1) c1
  | ((Inl (Error e), s1), c1) \<Rightarrow> play delay (f (Inl e) s1) c1
  | ((Inl e, s1), c1) \<Rightarrow> ((Inl e, s1), c1))"
  by (auto simp: matching_def play_pbind split: prod.splits sum.splits perror.splits)

lemma play_basic [simp]:
  "play delay (ret x s) c = ((Inr x, s), c)" "play delay (fail e s) c = ((Inl e, s), c)"
  "play delay (bail m s) c = ((Inl (Error m), s), c)" "play delay (lift r s) c = ((map_err Error r, s), c)"
  "play delay (gets f s) c = ((Inr (f s), s), c)" "play delay (modify g s) c = ((Inr (), g s), c)"
  "play delay (read_to_string p s) c = ((Inr ''token'', s), c)" "play delay (build_client s) c = ((Inr (), s), c)"
  "play delay (new_uuid s) c = ((Inr (''uuid-'' @ dec_nat (cl_version c)), s), c)"
  "play delay (now s) c = ((Inr (cl_clock c), s), c)"
  "play delay (sleep d s) c = ((Inr (), s), c\<lparr>cl_clock := cl_clock c + d\<rparr>)"
  by (simp_all add: action_defs)

section \<open>Each procedure against a responsive cluster\<close>

text \<open>
  The controller and the cluster fit: the Deployment and its owner, a pod list path, a host
  name without a slash, a supported worker, no second pod, and versions left for the writes.
\<close>

definition pods_ok :: "kubernetes \<Rightarrow> bool" where
  "pods_ok kube \<longleftrightarrow> suffix ''/pods'' (kb_pods_path kube)"

definition responsive :: "nat \<Rightarrow> controller \<Rightarrow> cluster \<Rightarrow> bool" where
  "responsive writes s c \<longleftrightarrow> cl_uid c = ct_uid s \<and> pods_ok (ct_kube s) \<and> hostname_ok (ct_config s) \<and>
     (ct_needs_fence s \<or> index (cl_annotations c) OWNER_ANNOTATION = JStr (ct_owner s)) \<and>
     \<not> cl_unsupported c \<and> \<not> cl_extra_pod c \<and> cl_version c + writes < 2 ^ 32"

lemma responsive_mono: "responsive n s c \<Longrightarrow> m \<le> n \<Longrightarrow> responsive m s c"
  by (simp add: responsive_def)

lemma decoded_reply [simp]: "decoded (Inr (reply 200 v)) = Inr v"
  by (simp add: decoded_def reply_def error_for_status_def json_body_def)

lemma serve_deployment: "serve (http_get kube path [] t) c = Some (reply 200 (deployment_value c), c)"
  by (simp add: serve_def http_get_def to_worker_def api_handle_def asks_pods_def)

lemma play_fetch: "play delay (fetch rq s) c = (case replied delay rq c of (r, c1) \<Rightarrow>
    ((map_err Error (decoded r), s), c1))"
  by (simp add: fetch_eq split: prod.splits)

lemma play_deployment [simp]: "play delay (kube_deployment kube s) c = ((Inr (deployment_value c), s), c)"
  by (simp add: kube_deployment_def play_bind play_fetch replied_def serve_deployment)

definition worker_pods :: "cluster \<Rightarrow> json list" where
  "worker_pods c = (if cl_replicas c = 1 then worker_pod # (if cl_extra_pod c then [deleting_pod] else []) else [])"

lemma pods_kind: "rq_peer (http_get kube path q t) = KubeApi" "rq_method (http_get kube path q t) = GET"
  "rq_url (http_get kube path q t) = kb_base kube @ path" "rq_query (http_get kube path q t) = q"
  by (simp_all add: http_get_def)

lemma play_pods: "pods_ok kube \<Longrightarrow> play delay (kube_pods kube s) c = ((Inr (worker_pods c), s), c)"
  by (simp add: kube_pods_def play_bind play_fetch replied_def serve_def pods_kind to_worker_def api_handle_def
      asks_pods_def pods_ok_def suffix_appendI pods_value_def worker_pods_def)

lemma play_current:
  assumes "cl_uid c = ct_uid s" "ct_needs_fence s \<or> index (cl_annotations c) OWNER_ANNOTATION = JStr (ct_owner s)"
  shows "play delay (current s) c = ((Inr (deployment_value c), s), c)"
  using assms by (simp add: current_def play_bind deployment_owner_def)

text \<open>A patch made from what was just read wins.\<close>

definition patched_cluster :: "string \<Rightarrow> u32 option \<Rightarrow> cluster \<Rightarrow> cluster" where
  "patched_cluster owner replicas c =
     (let c1 = c\<lparr>cl_version := cl_version c + 1, cl_annotations := JObj [(OWNER_ANNOTATION, JStr owner),
        (OPERATION_ANNOTATION, JStr (''uuid-'' @ dec_nat (cl_version c)))]\<rparr>
      in case replicas of None \<Rightarrow> c1 | Some n \<Rightarrow> set_replicas (unat n) c1)"

lemma patch_annotations:
  "index (index (patch_body deployment owner operation replicas) ''metadata'') ''annotations'' =
     JObj [(OWNER_ANNOTATION, JStr owner), (OPERATION_ANNOTATION, JStr operation)]"
  by (simp add: patch_body_def insert_member_def Let_def split: option.splits)

lemma sleep_patch:
  "is_sleep (patch_request kube (patch_body deployment owner operation replicas) t) \<longleftrightarrow> replicas = Some 0"
proof (cases replicas)
  case (Some n)
  have "unat n < 2 ^ 32" using unsigned_less [of n, where 'a = nat] by simp
  then show ?thesis using Some by (simp add: eq_int_def uint_0_iff)
qed (simp add: eq_int_def)

lemma play_patch:
  assumes "cl_version c + 1 < 2 ^ 32" "delay = Slow_Sleep \<longrightarrow> replicas \<noteq> Some 0"
  shows "play delay (guarded_patch (deployment_value c) replicas s) c =
     ((Inr (), s\<lparr>ct_needs_fence := False\<rparr>), patched_cluster (ct_owner s) replicas c)"
proof -
  have "serve (patch_request (ct_kube s) (patch_body (deployment_value c) (ct_owner s)
      (''uuid-'' @ dec_nat (cl_version c)) replicas) t) c =
    Some (reply 200 (deployment_value (patched_cluster (ct_owner s) replicas c)), patched_cluster (ct_owner s) replicas c)"
    for t
    using assms(1)
    by (simp add: serve_def patch_request_def to_worker_def api_handle_def apply_patch_def patched_cluster_def
        patch_annotations Let_def split: option.splits)
  then show ?thesis
    using assms(2)
    by (cases delay) (simp_all add: guarded_patch_def play_bind set_needs_fence_def kube_patch_def play_fetch
        replied_def sleep_patch del: patch_request_kind(5))
qed

lemma play_fence:
  assumes "responsive (Suc n) s c"
  shows "play delay (fence s) c = ((Inr (), s\<lparr>ct_needs_fence := False\<rparr>), patched_cluster (ct_owner s) None c)"
  using assms by (simp add: fence_def play_bind play_current play_patch responsive_def)

text \<open>The backend made from the worker's pod.\<close>

definition worker_backend :: "config \<Rightarrow> backend" where
  "worker_backend config = \<lparr>be_uid = ''worker-one'', be_ip = loopback, be_control_port = cf_control_port config,
     be_url = ''https://'' @ cf_hostname config @ '':'' @ dec_nat (unat (cf_control_port config))\<rparr>"

lemma parse_loopback: "parse_ip ''127.0.0.1'' = Inr loopback"
  by code_simp

lemma worker_pod_ready: "ready worker_pod"
  by (simp add: ready_def worker_pod_def is_null_def)

lemma play_from_pod: "play delay (from_pod worker_pod config s) c = ((Inr (worker_backend config), s), c)"
  by (simp add: from_pod_def play_bind worker_pod_def parse_loopback worker_backend_def)

lemma play_ready_backend:
  assumes "pods_ok (ct_kube s)" "\<not> cl_extra_pod c"
  shows "play delay (ready_backend s) c =
     ((Inr (if cl_replicas c = 1 then Some (worker_backend (ct_config s)) else None), s), c)"
  using assms
  by (simp add: ready_backend_def play_bind play_pods worker_pods_def worker_pod_ready play_from_pod Let_def)

lemma worker_backend_of: "backend_of config (worker_backend config)"
  by (simp add: backend_of_def worker_backend_def)

text \<open>The control server's answers.\<close>

definition worker_status :: "cluster \<Rightarrow> idle_status" where
  "worker_status c = \<lparr>is_protocol_version = 1, is_boot_id = ''boot-one'', is_ready = True,
     is_busy = cl_busy c, is_permit = cl_permit c\<rparr>"

lemma play_exchange: "play delay (exchange tf rq f s) c = (case replied delay (rq ''token'') c of (r, c1) \<Rightarrow>
    ((map_err Error (f r), s), c1))"
  by (simp add: exchange_def split: prod.splits)

lemma status_reply_value: "status_of_reply (Inr (reply 200 (status_value c))) = Inr (worker_status c)"
  by (simp add: status_of_reply_def decode_status_value check_capability_def worker_status_def)

lemma to_worker_control: "to_worker (control_request b v res t)"
  by (simp add: to_worker_def control_request_def)

lemma play_status:
  assumes "\<not> cl_unsupported c"
  shows "play delay (backend_status b False config s) c = ((Inr (worker_status c), s), c)"
  using assms
  by (simp add: status_exchange play_exchange replied_def serve_def to_worker_control control_handle_def status_reply_value)

definition suspended_cluster :: "cluster \<Rightarrow> cluster" where
  "suspended_cluster c = (if cl_busy c then c else c\<lparr>cl_permit := Some ''permit-one''\<rparr>)"

lemma play_suspend:
  assumes "\<not> cl_unsupported c" "hostname_ok config" "backend_of config b" "delay \<noteq> Slow_Suspend"
  shows "play delay (backend_status b True config s) c = ((Inr (worker_status (suspended_cluster c)), s), suspended_cluster c)"
  using assms(1,4) control_request_post [OF assms(2,3)]
  by (auto simp: status_exchange play_exchange replied_def serve_def to_worker_control control_handle_def status_reply_value
      suspended_cluster_def Let_def)

lemma play_resume:
  assumes "\<not> cl_unsupported c" "hostname_ok config" "backend_of config b" "cl_permit c = Some permit"
  shows "play delay (resume b permit config s) c = ((Inr (), s), c\<lparr>cl_permit := None\<rparr>)"
proof -
  have "url_path (be_url b @ ''/resume/'' @ permit) = ''/resume/'' @ permit"
    by (rule url_path_backend [OF assms(2,3)]) simp_all
  then have "serve (control_request b POST (''/resume/'' @ permit) t) c = Some (reply 200 (JObj []), c\<lparr>cl_permit := None\<rparr>)" for t
    using assms(1,4) control_request_post(3) [OF assms(2,3)]
    by (simp add: serve_def to_worker_control control_handle_def) (simp add: control_request_def)
  then show ?thesis
    using control_request_post(4) [OF assms(2,3)]
    by (simp add: resume_exchange play_exchange replied_def error_for_status_def reply_def andThen_def)
qed

section \<open>Waking and sleeping\<close>

lemma patched_simps [simp]:
  "cl_uid (patched_cluster owner replicas c) = cl_uid c"
  "cl_version (patched_cluster owner replicas c) = cl_version c + 1"
  "index (cl_annotations (patched_cluster owner replicas c)) OWNER_ANNOTATION = JStr owner"
  "cl_unsupported (patched_cluster owner replicas c) = cl_unsupported c"
  "cl_extra_pod (patched_cluster owner replicas c) = cl_extra_pod c"
  "cl_clock (patched_cluster owner replicas c) = cl_clock c"
  "cl_busy (patched_cluster owner replicas c) = cl_busy c"
  "cl_replicas (patched_cluster owner None c) = cl_replicas c"
  "cl_permit (patched_cluster owner None c) = cl_permit c"
  "cl_replicas (patched_cluster owner (Some n) c) = unat n"
  "cl_permit (patched_cluster owner (Some n) c) = (if n = 0 then None else cl_permit c)"
  "cl_scale_downs (patched_cluster owner (Some 0) c) = cl_scale_downs c + 1"
  by (auto simp: patched_cluster_def set_replicas_def Let_def OWNER_ANNOTATION_def OPERATION_ANNOTATION_def
      unat_eq_0 split: option.splits)

lemma play_release:
  assumes "\<not> cl_unsupported c" "hostname_ok config" "backend_of config b"
  shows "play delay (release_permit b config (worker_status c) s) c = ((Inr (), s), c\<lparr>cl_permit := None\<rparr>)"
proof (cases "cl_permit c")
  case (Some permit)
  then show ?thesis using play_resume [OF assms Some] by (simp add: release_permit_def worker_status_def)
qed (simp add: release_permit_def worker_status_def)

lemma play_attach_worker:
  assumes "responsive n s c" "cl_replicas c = 1"
  shows "play delay (attach_worker (ct_config s) s) c =
     ((Inr (Some (worker_backend (ct_config s))), s), c\<lparr>cl_permit := None\<rparr>)"
  using assms
  by (simp add: attach_worker_def play_bind responsive_def play_ready_backend play_status play_release worker_backend_of)

text \<open>The fence a procedure starts with, if one is owed.\<close>

definition fenced_cluster :: "controller \<Rightarrow> cluster \<Rightarrow> cluster" where
  "fenced_cluster s c = (if ct_needs_fence s then patched_cluster (ct_owner s) None c else c)"

lemma fenced_simps [simp]:
  "cl_replicas (fenced_cluster s c) = cl_replicas c" "cl_permit (fenced_cluster s c) = cl_permit c"
  "cl_clock (fenced_cluster s c) = cl_clock c" "cl_busy (fenced_cluster s c) = cl_busy c"
  "cl_scale_downs (fenced_cluster s c) = cl_scale_downs c" "cl_harmed (fenced_cluster s c) = cl_harmed c"
  "cl_extra_pod (fenced_cluster s c) = cl_extra_pod c"
  by (simp_all add: fenced_cluster_def patched_cluster_def Let_def)

lemma play_fence_first:
  assumes "responsive (Suc n) s c"
  shows "play delay (only_if (ct_needs_fence s) fence s) c = ((Inr (), s\<lparr>ct_needs_fence := False\<rparr>), fenced_cluster s c)"
  using play_fence [OF assms] by (cases "ct_needs_fence s") (simp_all add: only_if_def fenced_cluster_def)

lemma responsive_fenced:
  "responsive (Suc n) s c \<Longrightarrow> responsive n (s\<lparr>ct_needs_fence := False\<rparr>) (fenced_cluster s c)"
  by (auto simp: responsive_def fenced_cluster_def)

lemma play_wake_round:
  assumes "responsive (Suc n) s c" "cl_clock c < deadline"
  shows "play delay (wake_round deadline s) c =
     play delay (wake_step (ct_kube s) (ct_config s) (deployment_value (fenced_cluster s c)) (s\<lparr>ct_needs_fence := False\<rparr>))
       (fenced_cluster s c)"
  using assms(2) responsive_fenced [OF assms(1)]
  by (simp add: wake_round_def play_bind play_fence_first [OF assms(1)] play_current responsive_def)

lemma play_start_worker:
  assumes "responsive (Suc n) s c" "cl_replicas c = 0"
  shows "play delay (start_worker (ct_kube s) (deployment_value c) s) c =
     ((Inr None, s\<lparr>ct_needs_fence := False\<rparr>), patched_cluster (ct_owner s) (Some 1) c)"
  using assms
  by (simp add: start_worker_def play_bind responsive_def play_pods worker_pods_def only_if_def scale_def play_patch)

lemma play_wake_up:
  assumes "responsive (Suc n) s c" "cl_replicas c = 1" "cl_clock c < deadline"
  shows "play delay (wake_loop (Suc fuel) deadline s) c =
     ((Inr (worker_backend (ct_config s)), s\<lparr>ct_needs_fence := False\<rparr>), (fenced_cluster s c)\<lparr>cl_permit := None\<rparr>)"
  using assms play_attach_worker [OF responsive_fenced [OF assms(1)]]
  by (simp add: play_bind play_wake_round wake_step_def)

lemma play_wake_down:
  assumes "responsive (Suc (Suc (Suc n))) s c" "cl_replicas c = 0" "cl_clock c + 500 < deadline"
  shows "play delay (wake_loop (Suc (Suc fuel)) deadline s) c =
     ((Inr (worker_backend (ct_config s)), s\<lparr>ct_needs_fence := False\<rparr>),
      (patched_cluster (ct_owner s) (Some 1) (fenced_cluster s c))\<lparr>cl_clock := cl_clock c + 500, cl_permit := None\<rparr>)"
proof -
  let ?s = "s\<lparr>ct_needs_fence := False\<rparr>"
  let ?c = "(patched_cluster (ct_owner s) (Some 1) (fenced_cluster s c))\<lparr>cl_clock := cl_clock c + 500\<rparr>"
  have "responsive (Suc (Suc n)) ?s (fenced_cluster s c)" using assms(1) by (rule responsive_fenced)
  then have start: "play delay (start_worker (ct_kube s) (deployment_value (fenced_cluster s c)) ?s) (fenced_cluster s c) =
      ((Inr None, ?s), patched_cluster (ct_owner s) (Some 1) (fenced_cluster s c))"
    and again: "responsive (Suc n) ?s ?c"
    using play_start_worker [of "Suc n" ?s "fenced_cluster s c"] assms(2) by (simp_all add: responsive_def)
  have "play delay (wake_loop (Suc (Suc fuel)) deadline s) c = play delay (wake_loop (Suc fuel) deadline ?s) ?c"
    by (subst wake_loop.simps, subst play_bind, subst play_wake_round [OF assms(1)])
      (use assms(2,3) in \<open>simp_all add: wake_step_def start play_bind del: wake_loop.simps\<close>)
  also have "\<dots> = ((Inr (worker_backend (ct_config s)), ?s), ?c\<lparr>cl_permit := None\<rparr>)"
    using play_wake_up [OF again, where deadline = deadline and fuel = fuel and delay = delay] assms(3) by (simp add: fenced_cluster_def)
  finally show ?thesis by simp
qed

text \<open>Waking starts the worker when there is none, and releases what permit it holds.\<close>

definition woken_cluster :: "controller \<Rightarrow> cluster \<Rightarrow> cluster" where
  "woken_cluster s c =
     (if cl_replicas c = 0
      then (patched_cluster (ct_owner s) (Some 1) (fenced_cluster s c))\<lparr>cl_clock := cl_clock c + 500, cl_permit := None\<rparr>
      else (fenced_cluster s c)\<lparr>cl_permit := None\<rparr>)"

theorem play_wake:
  assumes "responsive 3 s c" "cl_replicas c \<le> 1" "500 < cf_cold_start_timeout (ct_config s)"
    and "cl_clock c + cf_cold_start_timeout (ct_config s) < instant_limit" "2 \<le> fuel"
  shows "play delay (wake fuel s) c = ((Inr (worker_backend (ct_config s)),
     s\<lparr>ct_needs_fence := False, ct_idle_since := None\<rparr>), woken_cluster s c)"
proof -
  let ?s = "s\<lparr>ct_idle_since := None\<rparr>" and ?deadline = "cl_clock c + cf_cold_start_timeout (ct_config s)"
  obtain f where fuel: "fuel = Suc (Suc f)" using assms(5) by (metis Suc_le_D numeral_2_eq_2 Suc_le_mono)
  have start: "play delay (wake fuel s) c = play delay (wake_loop (Suc (Suc f)) ?deadline ?s) c"
    using assms(4) unfolding fuel
    by (simp add: wake_def play_bind set_idle_since_def add_duration_def del: wake_loop.simps)
  have r: "responsive (Suc (Suc (Suc 0))) ?s c" using assms(1) by (simp add: responsive_def)
  have same: "fenced_cluster ?s c = fenced_cluster s c" by (simp add: fenced_cluster_def)
  show ?thesis
  proof (cases "cl_replicas c = 0")
    case True
    have "cl_clock c + 500 < ?deadline" using assms(3) by simp
    from play_wake_down [OF r True this, where fuel = f and delay = delay, folded start] True
    show ?thesis by (simp add: woken_cluster_def same)
  next
    case False
    then have one: "cl_replicas c = 1" using assms(2) by simp
    have "cl_clock c < ?deadline" using assms(3) by simp
    from play_wake_up [OF r one this, where fuel = "Suc f" and delay = delay, folded start] one
    show ?thesis by (simp add: woken_cluster_def same)
  qed
qed

lemma woken_cluster_simps [simp]:
  "cl_permit (woken_cluster s c) = None" "cl_busy (woken_cluster s c) = cl_busy c"
  "cl_scale_downs (woken_cluster s c) = cl_scale_downs c" "cl_extra_pod (woken_cluster s c) = cl_extra_pod c"
  "cl_unsupported (woken_cluster s c) = cl_unsupported c" "cl_uid (woken_cluster s c) = cl_uid c"
  "cl_writes (woken_cluster s c) = cl_writes c" "cl_suspends (woken_cluster s c) = cl_suspends c"
  "cl_replicas c \<le> 1 \<Longrightarrow> cl_replicas (woken_cluster s c) = 1"
  by (auto simp: woken_cluster_def fenced_cluster_def patched_cluster_def set_replicas_def Let_def)

text \<open>One idle worker that admits sessions and holds no work, seen idle for the timeout.\<close>

definition idle_due :: "controller \<Rightarrow> cluster \<Rightarrow> bool" where
  "idle_due s c \<longleftrightarrow> cl_replicas c = 1 \<and> \<not> cl_busy c \<and> cl_permit c = None \<and> ct_connections s = 0 \<and>
     (\<exists>since. ct_idle_since s = Some (''worker-one'', ''boot-one'', since) \<and>
        cf_idle_timeout (ct_config s) \<le> cl_clock c - since)"

text \<open>A tick without connections, up to the worker's status, and on to one that may be suspended.\<close>

lemma play_tick_running:
  assumes "responsive (Suc n) s c" "ct_connections s = 0" "cl_replicas c = 1"
  shows "play delay (idle_tick s) c =
     play delay (idle_backend (ct_config s) (deployment_value (fenced_cluster s c)) (worker_backend (ct_config s))
       (s\<lparr>ct_needs_fence := False\<rparr>)) (fenced_cluster s c)"
proof -
  let ?s = "s\<lparr>ct_needs_fence := False\<rparr>" and ?c = "fenced_cluster s c"
  have r: "responsive n ?s ?c" using assms(1) by (rule responsive_fenced)
  have "play delay (idle_tick s) c = play delay (idle_deployment (ct_config s) (deployment_value ?c) ?s) ?c"
    using assms(2) r
    by (simp add: idle_tick_def play_bind play_fence_first [OF assms(1)] play_current responsive_def)
  also have "\<dots> = play delay (idle_backend (ct_config s) (deployment_value ?c) (worker_backend (ct_config s)) ?s) ?c"
    using assms(3) r
    by (simp add: idle_deployment_def eq_int_def play_bind play_ready_backend responsive_def)
  finally show ?thesis .
qed

lemma play_tick_idle:
  assumes "responsive (Suc n) s c" "ct_connections s = 0" "cl_replicas c = 1" "\<not> cl_busy c" "cl_permit c = None"
  shows "play delay (idle_tick s) c =
     play delay (suspend_idle (deployment_value (fenced_cluster s c)) (worker_backend (ct_config s))
       (worker_status (fenced_cluster s c)) (s\<lparr>ct_needs_fence := False\<rparr>)) (fenced_cluster s c)"
  using assms(4,5) responsive_fenced [OF assms(1)]
  by (simp add: play_tick_running [OF assms(1-3)] idle_backend_def play_bind play_status responsive_def)
    (simp add: worker_status_def)

lemma play_until_suspend:
  assumes "responsive (Suc n) s c" "idle_due s c"
  shows "play delay (idle_tick s) c =
     play delay (bind (backend_status (worker_backend (ct_config s)) True (ct_config s))
         (after_suspension (deployment_value (fenced_cluster s c)) (worker_backend (ct_config s)) (worker_status (fenced_cluster s c)))
         (s\<lparr>ct_needs_fence := False\<rparr>)) (fenced_cluster s c)"
proof -
  let ?s = "s\<lparr>ct_needs_fence := False\<rparr>" and ?c = "fenced_cluster s c" and ?b = "worker_backend (ct_config s)"
  have "play delay (idle_tick s) c = play delay (suspend_idle (deployment_value ?c) ?b (worker_status ?c) ?s) ?c"
    using assms(2) by (intro play_tick_idle [OF assms(1)]) (auto simp: idle_due_def)
  also have "\<dots> = play delay (bind (backend_status ?b True (ct_config s)) (after_suspension (deployment_value ?c) ?b (worker_status ?c)) ?s) ?c"
    using assms(2)
    by (clarsimp simp: idle_due_def suspend_idle_def observe_idle_def play_bind Let_def)
      (simp add: worker_status_def worker_backend_def play_bind)
  finally show ?thesis .
qed

lemma play_until_sleep:
  assumes "responsive (Suc n) s c" "idle_due s c" "delay \<noteq> Slow_Suspend"
  shows "play delay (idle_tick s) c =
     play delay (put_to_sleep (deployment_value (fenced_cluster s c)) (worker_backend (ct_config s)) ''permit-one''
         (s\<lparr>ct_needs_fence := False\<rparr>))
       ((fenced_cluster s c)\<lparr>cl_permit := Some ''permit-one''\<rparr>)"
proof -
  let ?s = "s\<lparr>ct_needs_fence := False\<rparr>" and ?c = "fenced_cluster s c"
  let ?b = "worker_backend (ct_config s)" and ?d = "suspended_cluster ?c"
  have r: "responsive n ?s ?c" using assms(1) by (rule responsive_fenced)
  have d: "?d = ?c\<lparr>cl_permit := Some ''permit-one''\<rparr>"
    using assms(2) by (simp add: suspended_cluster_def idle_due_def)
  have susp: "play delay (backend_status ?b True (ct_config s) ?s) ?c = ((Inr (worker_status ?d), ?s), ?d)"
    using r assms(3) by (intro play_suspend) (simp_all add: responsive_def worker_backend_of)
  have "play delay (idle_tick s) c =
      play delay (after_suspension (deployment_value ?c) ?b (worker_status ?c) (worker_status ?d) ?s) ?d"
    by (simp add: play_until_suspend [OF assms(1,2)] play_bind susp)
  also have "\<dots> = play delay (put_to_sleep (deployment_value ?c) ?b ''permit-one'' ?s) ?d"
    using assms(2) by (simp add: after_suspension_def worker_status_def d idle_due_def)
  finally show ?thesis by (simp add: d)
qed

lemma gated_deployment [simp]: "deployment_value (c\<lparr>cl_permit := p\<rparr>) = deployment_value c"
  "deployment_value (c\<lparr>cl_writes := ws\<rparr>) = deployment_value c"
  by (simp_all add: deployment_value_def)

definition slept_cluster :: "controller \<Rightarrow> cluster \<Rightarrow> cluster" where
  "slept_cluster s c = patched_cluster (ct_owner s) (Some 0) ((fenced_cluster s c)\<lparr>cl_permit := Some ''permit-one''\<rparr>)"

theorem play_idle_tick:
  assumes "responsive 2 s c" "idle_due s c"
  shows "play Prompt (idle_tick s) c =
    ((Inr (), s\<lparr>ct_needs_fence := False, ct_idle_since := None\<rparr>), slept_cluster s c)"
proof -
  let ?s = "s\<lparr>ct_needs_fence := False\<rparr>" and ?d = "(fenced_cluster s c)\<lparr>cl_permit := Some ''permit-one''\<rparr>"
  have r2: "responsive (Suc (Suc 0)) s c" using assms(1) by (simp add: numeral_2_eq_2)
  have r1: "responsive (Suc 0) ?s (fenced_cluster s c)" using r2 by (rule responsive_fenced)
  have "play Prompt (scale (deployment_value ?d) 0 ?s) ?d = ((Inr (), ?s), patched_cluster (ct_owner s) (Some 0) ?d)"
    using play_patch [where c = ?d and replicas = "Some 0" and s = ?s and delay = Prompt] r1
    by (simp add: scale_def responsive_def)
  then show ?thesis
    by (simp add: play_until_sleep [OF r2 assms(2), of Prompt] put_to_sleep_def play_matching set_idle_since_def
        slept_cluster_def)
qed

lemma slept_simps [simp]:
  "cl_replicas (slept_cluster s c) = 0" "cl_permit (slept_cluster s c) = None"
  "cl_busy (slept_cluster s c) = cl_busy c" "cl_scale_downs (slept_cluster s c) = cl_scale_downs c + 1"
  "idle_due s c \<Longrightarrow> cl_harmed (slept_cluster s c) = cl_harmed c"
  by (auto simp: slept_cluster_def patched_cluster_def [of _ "Some 0"] set_replicas_def Let_def admitting_def
      idle_due_def)

text \<open>A request to suspend that times out ends the tick; nothing is done about what it may still do.\<close>

theorem play_idle_tick_held:
  assumes "responsive (Suc n) s c" "idle_due s c"
  shows "play Slow_Suspend (idle_tick s) c = ((Inl (Error ''operation timed out''), s\<lparr>ct_needs_fence := False\<rparr>),
     (fenced_cluster s c)\<lparr>cl_suspends := cl_suspends (fenced_cluster s c) + 1\<rparr>)"
proof -
  let ?b = "worker_backend (ct_config s)"
  have "is_suspend (control_request ?b POST ''/suspend'' t)" for t
    using assms(1) by (intro control_request_post) (auto simp: responsive_def worker_backend_of)
  then show ?thesis
    by (simp add: play_until_suspend [OF assms] play_bind status_exchange play_exchange replied_def
        status_of_reply_def decoded_def)
qed

lemma play_recover:
  assumes "responsive (Suc n) s c" "cl_replicas c = 1" "cl_permit c = Some permit"
  shows "play delay (recover_worker (worker_backend (ct_config s)) permit error s) c =
     ((Inl (Error error), s\<lparr>ct_needs_fence := False\<rparr>), (patched_cluster (ct_owner s) None c)\<lparr>cl_permit := None\<rparr>)"
proof -
  let ?s = "s\<lparr>ct_needs_fence := False\<rparr>" and ?e = "patched_cluster (ct_owner s) None c"
  have cur: "play delay (current ?s) ?e = ((Inr (deployment_value ?e), ?s), ?e)"
    using assms(1) by (intro play_current) (simp_all add: responsive_def)
  have res: "play delay (resume (worker_backend (ct_config s)) permit (ct_config s) ?s) ?e =
      ((Inr (), ?s), ?e\<lparr>cl_permit := None\<rparr>)"
    using assms(1,3) by (intro play_resume) (simp_all add: responsive_def worker_backend_of)
  show ?thesis
    using assms(2) by (simp add: recover_worker_def play_bind play_fence [OF assms(1)] cur eq_int_def only_if_def res)
qed

text \<open>The sleep write times out but stays in flight: it is fenced, then the worker is resumed.\<close>

theorem play_idle_tick_slow:
  assumes "responsive 3 s c" "idle_due s c"
  obtains s' c' patch where "play Slow_Sleep (idle_tick s) c = ((Inl (Error ''operation timed out''), s'), c')"
    "cl_writes c' = patch # cl_writes c" "as_u64 (patch_replicas patch) = Some 0"
    "resource_version patch \<noteq> resource_version (deployment_value c')" "cl_replicas c' = 1"
    "cl_permit c' = None" "cl_scale_downs c' = cl_scale_downs c" "\<not> ct_needs_fence s'"
proof -
  let ?s = "s\<lparr>ct_needs_fence := False\<rparr>" and ?f = "fenced_cluster s c"
  let ?patch = "patch_body (deployment_value ?f) (ct_owner s) (''uuid-'' @ dec_nat (cl_version ?f)) (Some 0)"
  let ?d = "?f\<lparr>cl_permit := Some ''permit-one'', cl_writes := ?patch # cl_writes ?f\<rparr>"
  let ?b = "worker_backend (ct_config s)"
  have r3: "responsive (Suc (Suc (Suc 0))) s c" using assms(1) by (simp add: numeral_3_eq_3)
  have r2: "responsive (Suc (Suc 0)) ?s ?f" using r3 by (rule responsive_fenced)
  then have rd: "responsive (Suc (Suc 0)) (s\<lparr>ct_needs_fence := True\<rparr>) ?d" by (simp add: responsive_def)
  let ?e = "patched_cluster (ct_owner s) None ?d"
  have late: "play Slow_Sleep (scale (deployment_value ?f) 0 ?s) (?f\<lparr>cl_permit := Some ''permit-one''\<rparr>) =
      ((Inl (Error ''operation timed out''), s\<lparr>ct_needs_fence := True\<rparr>), ?d)"
    by (simp add: scale_def guarded_patch_def play_bind set_needs_fence_def kube_patch_def play_fetch replied_def
        sleep_patch decoded_def eq_int_def)
  have up: "cl_replicas ?e = 1" using assms(2) by (simp add: idle_due_def)
  then have "play Slow_Sleep (recover_worker ?b ''permit-one'' ''operation timed out'' (s\<lparr>ct_needs_fence := True\<rparr>)) ?d =
      ((Inl (Error ''operation timed out''), ?s), ?e\<lparr>cl_permit := None\<rparr>)"
    using play_recover [OF rd, of "''permit-one''" Slow_Sleep "''operation timed out''"] by simp
  then have run: "play Slow_Sleep (idle_tick s) c = ((Inl (Error ''operation timed out''), ?s), ?e\<lparr>cl_permit := None\<rparr>)"
    by (simp add: play_until_sleep [OF r3 assms(2), of Slow_Sleep] put_to_sleep_def play_matching late)
  have "cl_writes (?e\<lparr>cl_permit := None\<rparr>) = ?patch # cl_writes c"
    "cl_scale_downs (?e\<lparr>cl_permit := None\<rparr>) = cl_scale_downs c"
    by (simp_all add: patched_cluster_def fenced_cluster_def Let_def)
  then show ?thesis using that [OF run] up by simp
qed

text \<open>The first tick that sees the worker idle only notes the time.\<close>

theorem play_idle_first:
  assumes "responsive (Suc n) s c" "cl_replicas c = 1" "\<not> cl_busy c" "cl_permit c = None"
    and "ct_connections s = 0" "\<nexists>since. ct_idle_since s = Some (''worker-one'', ''boot-one'', since)"
    and "0 < cf_idle_timeout (ct_config s)"
  shows "play delay (idle_tick s) c = ((Inr (), s\<lparr>ct_needs_fence := False,
     ct_idle_since := Some (''worker-one'', ''boot-one'', cl_clock c)\<rparr>), fenced_cluster s c)"
  using assms(6,7)
  by (simp add: play_tick_idle [OF assms(1,5,2-4)] suspend_idle_def observe_idle_def play_bind set_idle_since_def Let_def
      split: option.split)
    (auto simp: worker_status_def worker_backend_def play_bind split: option.split)

text \<open>Until the timeout has passed the ticks after it change nothing.\<close>

theorem play_idle_early:
  assumes "responsive (Suc n) s c" "cl_replicas c = 1" "\<not> cl_busy c" "cl_permit c = None"
    and "ct_connections s = 0" "ct_idle_since s = Some (''worker-one'', ''boot-one'', since)"
    and "cl_clock c - since < cf_idle_timeout (ct_config s)"
  shows "play delay (idle_tick s) c = ((Inr (), s\<lparr>ct_needs_fence := False\<rparr>), fenced_cluster s c)"
proof -
  have "play delay (observe_idle (worker_backend (ct_config s)) (worker_status (fenced_cluster s c)) (s\<lparr>ct_needs_fence := False\<rparr>))
      (fenced_cluster s c) = ((Inr since, s\<lparr>ct_needs_fence := False\<rparr>), fenced_cluster s c)"
    using assms(6) by (simp add: observe_idle_def play_bind worker_status_def worker_backend_def)
  then show ?thesis
    using assms(7) by (simp add: play_tick_idle [OF assms(1,5,2-4)] suspend_idle_def play_bind)
qed

text \<open>A tick that finds a permit gives it back, and one without a worker has nothing to do.\<close>

theorem play_idle_permit:
  assumes "responsive (Suc n) s c" "cl_replicas c = 1" "cl_permit c \<noteq> None" "ct_connections s = 0"
  shows "play delay (idle_tick s) c =
    ((Inr (), s\<lparr>ct_needs_fence := False, ct_idle_since := None\<rparr>), (fenced_cluster s c)\<lparr>cl_permit := None\<rparr>)"
proof -
  let ?s = "s\<lparr>ct_needs_fence := False\<rparr>" and ?c = "fenced_cluster s c" and ?b = "worker_backend (ct_config s)"
  obtain permit where permit: "cl_permit ?c = Some permit" using assms(3) by auto
  have r: "responsive n ?s ?c" using assms(1) by (rule responsive_fenced)
  then have "play delay (resume ?b permit (ct_config s) ?s) ?c = ((Inr (), ?s), ?c\<lparr>cl_permit := None\<rparr>)"
    using permit by (intro play_resume) (simp_all add: responsive_def worker_backend_of)
  moreover have "is_permit (worker_status ?c) = Some permit" using permit by (simp add: worker_status_def)
  ultimately show ?thesis
    using r by (simp add: play_tick_running [OF assms(1,4,2)] idle_backend_def play_bind play_status responsive_def
        set_idle_since_def)
qed

theorem play_idle_asleep:
  assumes "responsive (Suc n) s c" "cl_replicas c = 0" "ct_connections s = 0"
  shows "play delay (idle_tick s) c = ((Inr (), s\<lparr>ct_needs_fence := False, ct_idle_since := None\<rparr>), fenced_cluster s c)"
  using assms(2,3) responsive_fenced [OF assms(1)]
  by (simp add: idle_tick_def play_bind play_fence_first [OF assms(1)] play_current responsive_def idle_deployment_def
      eq_int_def set_idle_since_def)

end
