(* ===== verification/Idle_Task.thy ===== *)
theory Idle_Task
  imports Cluster_Play
begin

text \<open>
  The idle task against a cluster that answers: from whatever the controller remembers, an
  idle worker is put to sleep within a number of rounds that the idle timeout bounds, once,
  and stays asleep.
\<close>

lemma play_idle_task_Suc:
  assumes "play Prompt (idle_tick s) (c\<lparr>cl_clock := cl_clock c + 5000\<rparr>) = ((Inr (), s'), c')"
  shows "play Prompt (idle_task (Suc n) s) c = play Prompt (idle_task n s') c'"
  using assms by (simp add: play_bind idle_round_def play_matching)

lemma responsive_clock [simp]: "responsive n s (c\<lparr>cl_clock := t\<rparr>) = responsive n s c"
  "responsive n (s\<lparr>ct_idle_since := since\<rparr>) c = responsive n s c"
  "responsive n s (c\<lparr>cl_permit := permit\<rparr>) = responsive n s c"
  by (simp_all add: responsive_def)

lemma unowed [simp]: "\<not> ct_needs_fence s \<Longrightarrow> fenced_cluster s c = c" "\<not> ct_needs_fence s \<Longrightarrow> s\<lparr>ct_needs_fence := False\<rparr> = s"
  by (simp_all add: fenced_cluster_def)

text \<open>Asleep: the rounds only let time pass.\<close>

lemma asleep_rounds:
  assumes "responsive (Suc n) s c" "cl_replicas c = 0" "ct_connections s = 0" "\<not> ct_needs_fence s"
  shows "\<exists>s'. play Prompt (idle_task k s) c = ((Inr (), s'), c\<lparr>cl_clock := cl_clock c + 5000 * k\<rparr>)"
  using assms
proof (induction k arbitrary: s c)
  case (Suc k)
  let ?c = "c\<lparr>cl_clock := cl_clock c + 5000\<rparr>" and ?s = "s\<lparr>ct_idle_since := None\<rparr>"
  have "play Prompt (idle_tick s) ?c = ((Inr (), ?s), ?c)"
    using play_idle_asleep [of n s ?c Prompt] Suc.prems by simp
  from play_idle_task_Suc [OF this, of k] Suc.IH [of ?s ?c] Suc.prems show ?case
    by (auto simp: algebra_simps)
qed simp

text \<open>The worker falls asleep within some rounds: once, and while it admitted no session.\<close>

definition falls_asleep :: "nat \<Rightarrow> controller \<Rightarrow> cluster \<Rightarrow> bool" where
  "falls_asleep k s c \<longleftrightarrow> (\<exists>s' c'. play Prompt (idle_task k s) c = ((Inr (), s'), c') \<and> cl_replicas c' = 0 \<and>
     cl_scale_downs c' = cl_scale_downs c + 1 \<and> cl_harmed c' = cl_harmed c)"

lemma falls_asleep_Suc:
  assumes "play Prompt (idle_tick s) (c\<lparr>cl_clock := cl_clock c + 5000\<rparr>) = ((Inr (), s'), c')" "falls_asleep k s' c'"
    and "cl_scale_downs c' = cl_scale_downs c" "cl_harmed c' = cl_harmed c"
  shows "falls_asleep (Suc k) s c"
  using assms(2-4) unfolding falls_asleep_def play_idle_task_Suc [OF assms(1)] by simp

lemma falls_asleep_now:
  assumes "responsive 3 s c" "idle_due s (c\<lparr>cl_clock := cl_clock c + 5000\<rparr>)"
  shows "falls_asleep (Suc k) s c"
proof -
  let ?c = "c\<lparr>cl_clock := cl_clock c + 5000\<rparr>" and ?s = "s\<lparr>ct_needs_fence := False, ct_idle_since := None\<rparr>"
  have "responsive 2 s ?c" using assms(1) by (simp add: responsive_def)
  note tick = play_idle_tick [OF this assms(2)]
  have "responsive 1 ?s (slept_cluster s ?c)"
    using assms(1) by (auto simp: responsive_def slept_cluster_def fenced_cluster_def)
  then obtain s' where "play Prompt (idle_task k ?s) (slept_cluster s ?c) =
      ((Inr (), s'), (slept_cluster s ?c)\<lparr>cl_clock := cl_clock (slept_cluster s ?c) + 5000 * k\<rparr>)"
    using asleep_rounds [of 0 ?s "slept_cluster s ?c" k] assms(2) by (auto simp: idle_due_def)
  then show ?thesis
    using assms(2) unfolding falls_asleep_def play_idle_task_Suc [OF tick] by simp
qed

text \<open>
  A worker that is up, without work and without connections. The controller may have seen it
  idle before, but not in the future.
\<close>

definition idling :: "nat \<Rightarrow> controller \<Rightarrow> cluster \<Rightarrow> bool" where
  "idling n s c \<longleftrightarrow> responsive n s c \<and> ct_connections s = 0 \<and> cl_replicas c = 1 \<and> \<not> cl_busy c \<and>
     0 < cf_idle_timeout (ct_config s) \<and>
     (case ct_idle_since s of None \<Rightarrow> True | Some (_, _, since) \<Rightarrow> since \<le> cl_clock c)"

lemma idling_watched:
  assumes "idling 3 s c" "cl_permit c = None" "\<not> ct_needs_fence s"
    and "ct_idle_since s = Some (''worker-one'', ''boot-one'', since)"
    and "cf_idle_timeout (ct_config s) \<le> cl_clock c + 5000 * Suc k - since"
  shows "falls_asleep (Suc k) s c"
  using assms
proof (induction k arbitrary: c)
  case 0
  then show ?case by (intro falls_asleep_now) (simp_all add: idling_def idle_due_def)
next
  case (Suc k)
  let ?c = "c\<lparr>cl_clock := cl_clock c + 5000\<rparr>"
  show ?case
  proof (cases "cf_idle_timeout (ct_config s) \<le> cl_clock ?c - since")
    case True
    then show ?thesis using Suc.prems by (intro falls_asleep_now) (simp_all add: idling_def idle_due_def)
  next
    case False
    then have "play Prompt (idle_tick s) ?c = ((Inr (), s), ?c)"
      using play_idle_early [of 2 s ?c since Prompt] Suc.prems by (simp add: idling_def)
    moreover have "falls_asleep (Suc k) s ?c"
      using Suc.prems by (intro Suc.IH) (simp_all add: idling_def algebra_simps)
    ultimately show ?thesis by (rule falls_asleep_Suc) simp_all
  qed
qed

lemma idling_unseen:
  assumes "idling n s c" "4 \<le> n" "cl_permit c = None" "\<nexists>since. ct_idle_since s = Some (''worker-one'', ''boot-one'', since)"
    and "cf_idle_timeout (ct_config s) \<le> 5000 * Suc k"
  shows "falls_asleep (Suc (Suc k)) s c"
proof -
  let ?c = "c\<lparr>cl_clock := cl_clock c + 5000\<rparr>"
  let ?d = "fenced_cluster s ?c" and ?s = "s\<lparr>ct_needs_fence := False, ct_idle_since := Some (''worker-one'', ''boot-one'', cl_clock ?c)\<rparr>"
  have r: "responsive (Suc 3) s ?c" using assms(1,2) by (auto simp: idling_def responsive_def)
  then have tick: "play Prompt (idle_tick s) ?c = ((Inr (), ?s), ?d)"
    by (rule play_idle_first) (use assms in \<open>simp_all add: idling_def\<close>)
  have "idling 3 ?s ?d" using responsive_fenced [OF r] assms(1) by (simp add: idling_def)
  then have "falls_asleep (Suc k) ?s ?d"
    by (rule idling_watched) (use assms(3,5) in \<open>simp_all, linarith\<close>)
  then show ?thesis by (rule falls_asleep_Suc [OF tick]) simp_all
qed

lemma idling_sleeps:
  assumes "idling 5 s c" "cf_idle_timeout (ct_config s) \<le> 5000 * k" "0 < k"
  shows "falls_asleep (k + 2) s c"
proof -
  let ?c = "c\<lparr>cl_clock := cl_clock c + 5000\<rparr>"
  let ?d = "fenced_cluster s ?c" and ?s = "s\<lparr>ct_needs_fence := False\<rparr>"
  obtain m where k: "k = Suc m" using assms(3) by (cases k) simp_all
  have r: "responsive (Suc 4) s ?c" using assms(1) by (simp add: idling_def)
  note fenced = responsive_fenced [OF r]
  consider (permit) "cl_permit c \<noteq> None"
    | (seen) since where "cl_permit c = None" "ct_idle_since s = Some (''worker-one'', ''boot-one'', since)"
    | (unseen) "cl_permit c = None" "\<nexists>since. ct_idle_since s = Some (''worker-one'', ''boot-one'', since)"
    by blast
  then show ?thesis
  proof cases
    case permit
    then have tick: "play Prompt (idle_tick s) ?c = ((Inr (), ?s\<lparr>ct_idle_since := None\<rparr>), ?d\<lparr>cl_permit := None\<rparr>)"
      using assms(1) by (intro play_idle_permit [OF r]) (simp_all add: idling_def)
    have "falls_asleep (Suc (Suc m)) (?s\<lparr>ct_idle_since := None\<rparr>) (?d\<lparr>cl_permit := None\<rparr>)"
      using assms fenced by (intro idling_unseen [where n = 4]) (simp_all add: idling_def k)
    then show ?thesis unfolding k by (simp add: falls_asleep_Suc [OF tick])
  next
    case seen
    show ?thesis
    proof (cases "cf_idle_timeout (ct_config s) \<le> cl_clock ?c - since")
      case True
      have "responsive 3 s c" using assms(1) by (simp add: idling_def responsive_def)
      then show ?thesis unfolding k using True seen assms(1)
        by (simp add: falls_asleep_now idle_due_def idling_def)
    next
      case False
      then have tick: "play Prompt (idle_tick s) ?c = ((Inr (), ?s), ?d)"
        using assms(1) seen by (intro play_idle_early [OF r]) (auto simp: idling_def not_le)
      have "falls_asleep (Suc (Suc m)) ?s ?d"
        using assms fenced seen by (intro idling_watched) (simp_all add: idling_def responsive_def k, linarith)
      then show ?thesis unfolding k by (simp add: falls_asleep_Suc [OF tick])
    qed
  next
    case unseen
    then show ?thesis using assms idling_unseen [of 5 s c k] by simp
  qed
qed

end
