(* ===== verification/Fixture.thy ===== *)
theory Fixture
  imports Cluster_Play Controller_Evidence
begin

text \<open>
  One concrete process and its first steps, at which the theorems are applied: the
  environment of a proxy with one listener, the controller it starts with, and a run that
  accepts a connection, wakes the worker and attaches.
\<close>

definition fixture_variables :: "(string \<times> string) list" where
  "fixture_variables = [(''DUCKFLIGHT_PROXY_POSTGRES_PORT'', ''5432''), (''POD_NAMESPACE'', ''test''),
     (''DUCKFLIGHT_PROXY_DEPLOYMENT'', ''worker''), (''DUCKFLIGHT_PROXY_SELECTOR'', ''worker=test''),
     (''DUCKFLIGHT_PROXY_HOSTNAME'', ''localhost''), (''DUCKFLIGHT_PROXY_CONTROL_PORT'', ''4091''),
     (''DUCKFLIGHT_PROXY_IDLE_TIMEOUT_SECONDS'', ''1''), (''DUCKFLIGHT_PROXY_COLD_START_TIMEOUT_SECONDS'', ''5''),
     (''DUCKFLIGHT_PROXY_TOKEN_FILE'', ''token''), (''DUCKFLIGHT_PROXY_CA_FILE'', ''ca''),
     (''KUBERNETES_SERVICE_HOST'', ''::1''), (''DUCKFLIGHT_IDLE_CONTROL_ADDRESS'', ''0.0.0.0:91''),
     (''DUCKFLIGHT_IDLE_SERVER_NAME'', ''localhost''), (''DUCKFLIGHT_IDLE_TOKEN_FILE'', ''token'')]"

definition fixture_env :: process where
  "fixture_env = \<lparr>env_var = (\<lambda>name. ok_or ''environment variable not found'' (map_of fixture_variables name)),
     read_file = (\<lambda>_. Inr []), certificate_from_pem = Inr, client_builds = Inr ()\<rparr>"

definition fixture_config :: config where
  "fixture_config = \<lparr>cf_namespace = ''test'', cf_deployment = ''worker'', cf_selector = ''worker=test'',
     cf_hostname = ''localhost'', cf_control_port = 4091, cf_idle_timeout = 1000, cf_cold_start_timeout = 5000,
     cf_token_file = ''token'', cf_ca = [], cf_listeners = [5432]\<rparr>"

definition fixture_kube :: kubernetes where
  "fixture_kube = \<lparr>kb_base = ''https://[::1]:443'',
     kb_token_file = ''/var/run/secrets/kubernetes.io/serviceaccount/token'',
     kb_deployment_path = ''/apis/apps/v1/namespaces/test/deployments/worker'',
     kb_pods_path = ''/api/v1/namespaces/test/pods'', kb_selector = ''worker=test''\<rparr>"

definition fixture_controller :: controller where
  "fixture_controller = \<lparr>ct_config = fixture_config, ct_kube = fixture_kube, ct_owner = ''uuid-1'',
     ct_uid = ''deployment-one'', ct_needs_fence = True, ct_connections = 0, ct_idle_since = None\<rparr>"

definition fixture_listen :: "nat \<Rightarrow> string + unit" where
  "fixture_listen port = Inr ()"

lemma fixture_numbers:
  "parse_u16 ''5432'' = Inr 5432" "parse_u16 ''4091'' = Inr 4091"
  "parse_seconds ''1'' = Inr 1000" "parse_seconds ''5'' = Inr 5000"
  by (simp_all add: parse_u16_def parse_seconds_def parse_unsigned_def is_digit_def byte_val_def)

lemma fixture_version: "dec_nat (Suc 0) = ''1''"
  by code_simp

lemma fixture_from_env: "from_env fixture_env = Inr fixture_config"
  by (simp add: from_env_def listener_variables_def fixture_env_def fixture_variables_def fixture_config_def
      fixture_numbers)

lemma fixture_hostname: "hostname_ok fixture_config"
  by (simp add: hostname_ok_def fixture_config_def)

lemma fixture_kubernetes: "kubernetes_new fixture_env fixture_config = Inr fixture_kube"
  by code_simp

lemma play_owned: "play delay (owned s p) c = play delay p c"
  by (induction p arbitrary: c) (auto split: option.splits prod.splits)

lemma play_owning: "play delay (owning t m s) c = (case play delay (m t) c of ((r, t'), c1) \<Rightarrow>
    ((map_sum id (\<lambda>x. (x, t')) r, s), c1))"
  by (auto simp: owning_def play_pbind play_owned split: prod.splits)

lemma fixture_fence:
  "play Prompt (fence fixture_controller) cluster_init =
     ((Inr (), fixture_controller\<lparr>ct_needs_fence := False\<rparr>), patched_cluster ''uuid-1'' None cluster_init)"
proof -
  have "responsive 3 fixture_controller cluster_init"
    using fixture_hostname
    by (simp add: responsive_def fixture_controller_def cluster_init_def pods_ok_def fixture_kube_def suffix_def)
  then have "responsive (Suc 2) fixture_controller cluster_init" by simp
  from play_fence [OF this] show ?thesis by (simp add: fixture_controller_def)
qed

lemma fixture_start:
  "play Prompt (start_proxy fixture_env fixture_listen ()) cluster_init =
     ((Inr (fixture_controller\<lparr>ct_needs_fence := False\<rparr>), ()), patched_cluster ''uuid-1'' None cluster_init)"
proof -
  have "play Prompt (controller_new fixture_env fixture_config ()) cluster_init =
      ((Inr (fixture_controller\<lparr>ct_needs_fence := False\<rparr>), ()), patched_cluster ''uuid-1'' None cluster_init)"
    using fixture_fence
    by (simp add: controller_new_def play_bind fixture_kubernetes fixture_version
        play_owning) (simp add: fixture_controller_def cluster_init_def fixture_version)
  then show ?thesis
    by (simp add: start_proxy_def play_bind fixture_from_env fixture_config_def fixture_listen_def)
qed

definition fixture_started :: proxy where
  "fixture_started = proxy_init (fixture_controller\<lparr>ct_needs_fence := False\<rparr>)"

definition fixture_cluster :: cluster where
  "fixture_cluster = patched_cluster ''uuid-1'' None cluster_init"

abbreviation fixture_runs :: "bool \<Rightarrow> proxy option \<times> cluster \<Rightarrow> proxy option \<times> cluster \<Rightarrow> bool" where
  "fixture_runs late \<equiv> proxy_runs (answers late) fixture_env fixture_listen"

lemma fixture_runs_start: "fixture_runs late (None, cluster_init) (Some fixture_started, fixture_cluster)"
proof -
  from prompt_runs [OF fixture_start] obtain es where
    "runs (start_proxy fixture_env fixture_listen ()) es (Inr (fixture_controller\<lparr>ct_needs_fence := False\<rparr>), ())"
    "goes (answers late) cluster_init es fixture_cluster"
    unfolding fixture_cluster_def by blast
  from proxy_step.Start [OF this] show ?thesis unfolding fixture_started_def by (rule r_into_rtranclp)
qed

lemma fixture_responsive:
  "responsive 4 (fixture_controller\<lparr>ct_needs_fence := False, ct_connections := n\<rparr>) fixture_cluster"
  using fixture_hostname
  by (simp add: responsive_def fixture_controller_def fixture_cluster_def cluster_init_def pods_ok_def
      fixture_kube_def suffix_def)

lemma play_attach:
  assumes "play delay (wake fuel (s\<lparr>ct_connections := ct_connections s + 1\<rparr>)) c = ((Inr b, s'), c')"
  shows "play delay (attach fuel s) c = ((Inr b, s'), c')"
  using assms by (simp add: attach_def count_up_def play_bind play_matching)

definition awake_cluster :: cluster where
  "awake_cluster = (patched_cluster ''uuid-1'' (Some 1) fixture_cluster)\<lparr>cl_clock := 500, cl_permit := None\<rparr>"

definition idle_controller :: "(string \<times> string \<times> instant) option \<Rightarrow> controller" where
  "idle_controller since = fixture_controller\<lparr>ct_needs_fence := False, ct_idle_since := since\<rparr>"

lemma fixture_wake:
  "play Prompt (attach 2 (px_controller fixture_started)) fixture_cluster =
     ((Inr (worker_backend fixture_config), (idle_controller None)\<lparr>ct_connections := 1\<rparr>), awake_cluster)"
proof -
  let ?s = "(idle_controller None)\<lparr>ct_connections := 1\<rparr>"
  have s: "?s = fixture_controller\<lparr>ct_needs_fence := False, ct_connections := 1\<rparr>" "ct_config (idle_controller None) = fixture_config"
    "ct_owner ?s = ''uuid-1''" "?s\<lparr>ct_needs_fence := False, ct_idle_since := None\<rparr> = ?s"
    by (simp_all add: idle_controller_def fixture_controller_def)
  have c: "cl_replicas fixture_cluster = 0" "cl_clock fixture_cluster = 0"
    by (simp_all add: fixture_cluster_def cluster_init_def)
  have "responsive 3 ?s fixture_cluster" using fixture_responsive [of 1] unfolding s(1) by (rule responsive_mono) simp
  then have "play Prompt (wake 2 ?s) fixture_cluster =
      ((Inr (worker_backend (ct_config ?s)), ?s\<lparr>ct_needs_fence := False, ct_idle_since := None\<rparr>), woken_cluster ?s fixture_cluster)"
    by (rule play_wake) (simp_all add: s(2) c fixture_config_def instant_limit_def)
  moreover have "woken_cluster ?s fixture_cluster = awake_cluster"
    unfolding woken_cluster_def awake_cluster_def fenced_cluster_def s(3) c by (simp add: idle_controller_def)
  ultimately have "play Prompt (wake 2 ?s) fixture_cluster = ((Inr (worker_backend fixture_config), ?s), awake_cluster)"
    using s(2,4) by simp
  then show ?thesis
    by (intro play_attach) (simp add: fixture_started_def proxy_init_def idle_controller_def fixture_controller_def)
qed

definition fixture_attached :: proxy where
  "fixture_attached = (proxy_init ((idle_controller None)\<lparr>ct_connections := 1\<rparr>))
     \<lparr>px_attached := [(5432, worker_backend fixture_config)]\<rparr>"

text \<open>A connection that finds the process idle: accepted, woken for and attached.\<close>

lemma fixture_runs_connect:
  assumes "play Prompt (attach 2 s) c = ((Inr b, s'), c')" "ct_config s = fixture_config"
  shows "fixture_runs late (Some (proxy_init s), c) (Some ((proxy_init s')\<lparr>px_attached := [(5432, b)]\<rparr>), c')"
proof -
  let ?p = "(proxy_init s)\<lparr>px_reading := [5432]\<rparr>" and ?step = "proxy_step (answers late) fixture_env fixture_listen"
  have "?step (Some (proxy_init s), c) (Some ((proxy_init s)\<lparr>px_reading := 5432 # px_reading (proxy_init s)\<rparr>), c)"
    by (rule proxy_step.Accept) (simp_all add: proxy_init_def assms(2), simp add: fixture_config_def)
  then have accept: "?step (Some (proxy_init s), c) (Some ?p, c)" by (simp add: proxy_init_def)
  from prompt_runs [OF assms(1)] obtain es where
    "runs (attach 2 (px_controller ?p)) es (Inr b, s')" "goes (answers late) c es c'" by (auto simp: proxy_init_def)
  moreover have "5432 \<in> set (px_reading ?p)" "wants_worker (Inr (Inr (Some CHR ''Q''))) = Inr True"
    by (simp_all add: wants_worker_def)
  ultimately have "?step (Some ?p, c) (Some (?p\<lparr>px_controller := s', px_reading := remove1 5432 (px_reading ?p),
      px_attached := (5432, b) # px_attached ?p\<rparr>), c')"
    by (intro proxy_step.Attach) simp_all
  with accept show ?thesis by (auto simp: proxy_init_def intro: rtranclp.rtrancl_into_rtrancl)
qed

lemma fixture_runs_attach: "fixture_runs late (None, cluster_init) (Some fixture_attached, awake_cluster)"
proof -
  have s: "proxy_init (px_controller fixture_started) = fixture_started"
    "ct_config (px_controller fixture_started) = fixture_config"
    by (simp_all add: fixture_started_def proxy_init_def fixture_controller_def)
  from fixture_runs_connect [OF fixture_wake s(2)] fixture_runs_start show ?thesis
    unfolding s(1) fixture_attached_def by (rule rtranclp_trans [rotated])
qed

lemma fixture_runs_detach:
  "fixture_runs late (None, cluster_init) (Some (proxy_init (idle_controller None)), awake_cluster)"
proof -
  have "runs (detach (px_controller fixture_attached)) [] (Inr (), idle_controller None)"
    by (auto simp: detach_def count_down_def set_idle_since_def bind_def modify_def fixture_attached_def
        proxy_init_def idle_controller_def fixture_controller_def intro: runs.intros)
  then have "proxy_step (answers late) fixture_env fixture_listen (Some fixture_attached, awake_cluster)
      (Some (fixture_attached\<lparr>px_controller := idle_controller None,
        px_attached := remove1 (5432, worker_backend fixture_config) (px_attached fixture_attached)\<rparr>), awake_cluster)"
    by (intro proxy_step.Detach) (simp_all add: fixture_attached_def)
  then have "proxy_step (answers late) fixture_env fixture_listen (Some fixture_attached, awake_cluster)
      (Some (proxy_init (idle_controller None)), awake_cluster)"
    by (simp add: fixture_attached_def proxy_init_def)
  with fixture_runs_attach show ?thesis by (rule rtranclp.rtrancl_into_rtrancl)
qed

section \<open>A run whose sleep write is delayed\<close>

lemma idle_controller_responsive:
  "responsive 3 (idle_controller since) (awake_cluster\<lparr>cl_clock := t\<rparr>)"
  using fixture_responsive [of 0]
  by (simp add: responsive_def awake_cluster_def idle_controller_def fixture_controller_def)

lemma awake_cluster_simps [simp]:
  "cl_replicas awake_cluster = 1" "\<not> cl_busy awake_cluster" "cl_permit awake_cluster = None"
  "cl_clock awake_cluster = 500"
  by (simp_all add: awake_cluster_def fixture_cluster_def cluster_init_def)

lemma idle_controller_due:
  "idle_due (idle_controller (Some (''worker-one'', ''boot-one'', 500))) (awake_cluster\<lparr>cl_clock := 1500\<rparr>)"
  by (simp add: idle_due_def idle_controller_def fixture_controller_def fixture_config_def)

lemma fixture_step_idle:
  "proxy_step (answers late) fixture_env fixture_listen (Some (proxy_init (idle_controller None)), awake_cluster)
     (Some (proxy_init (idle_controller (Some (''worker-one'', ''boot-one'', 500)))), awake_cluster)"
proof -
  have "responsive (Suc 2) (idle_controller None) awake_cluster"
    using idle_controller_responsive [of None 500] by (simp add: responsive_def)
  from play_idle_first [OF this]
  have "play Prompt (idle_round (idle_controller None)) awake_cluster =
      ((Inr (), idle_controller (Some (''worker-one'', ''boot-one'', 500))), awake_cluster)"
    by (simp add: idle_round_def play_matching fenced_cluster_def)
      (simp add: idle_controller_def fixture_controller_def fixture_config_def)
  from prompt_runs [OF this] obtain es where
    "runs (idle_round (idle_controller None)) es (Inr (), idle_controller (Some (''worker-one'', ''boot-one'', 500)))"
    "goes (answers late) awake_cluster es awake_cluster" by blast
  then have "proxy_step (answers late) fixture_env fixture_listen (Some (proxy_init (idle_controller None)), awake_cluster)
      (Some ((proxy_init (idle_controller None))\<lparr>px_controller :=
        idle_controller (Some (''worker-one'', ''boot-one'', 500))\<rparr>), awake_cluster)"
    by (intro proxy_step.Tick) (simp_all add: proxy_init_def)
  then show ?thesis by (simp add: proxy_init_def)
qed

abbreviation due_controller :: controller where
  "due_controller \<equiv> idle_controller (Some (''worker-one'', ''boot-one'', 500))"

abbreviation due_cluster :: cluster where
  "due_cluster \<equiv> awake_cluster\<lparr>cl_clock := 1500\<rparr>"

lemma fixture_runs_due: "fixture_runs late (None, cluster_init) (Some (proxy_init due_controller), due_cluster)"
proof -
  have "answers late awake_cluster (EvSleep 1000) due_cluster" by (intro happens_answers) simp
  then have "proxy_step (answers late) fixture_env fixture_listen (Some (proxy_init due_controller), awake_cluster)
      (Some (proxy_init due_controller), due_cluster)" by (rule proxy_step.World)
  with fixture_runs_detach fixture_step_idle show ?thesis by (meson rtranclp.rtrancl_into_rtrancl)
qed

lemma fixture_runs_slow:
  obtains p c patch where "fixture_runs late (None, cluster_init) (Some p, c)" "\<not> ct_needs_fence (px_controller p)"
    "patch \<in> set (cl_writes c)" "as_u64 (patch_replicas patch) = Some 0" "cl_replicas c = 1"
proof -
  obtain s' c' patch where slow: "play Slow_Sleep (idle_tick due_controller) due_cluster = ((Inl (Error ''operation timed out''), s'), c')"
    "cl_writes c' = patch # cl_writes due_cluster" "as_u64 (patch_replicas patch) = Some 0"
    "resource_version patch \<noteq> resource_version (deployment_value c')" "cl_replicas c' = 1"
    "cl_permit c' = None" "cl_scale_downs c' = cl_scale_downs due_cluster" "\<not> ct_needs_fence s'"
    by (rule play_idle_tick_slow [OF idle_controller_responsive idle_controller_due])
  have "play Slow_Sleep (idle_round due_controller) due_cluster = ((Inr (), s'\<lparr>ct_idle_since := None\<rparr>), c')"
    by (simp add: idle_round_def play_matching slow(1) set_idle_since_def)
  from slow_runs [OF this] obtain es where
    "runs (idle_round due_controller) es (Inr (), s'\<lparr>ct_idle_since := None\<rparr>)" "goes (answers late) due_cluster es c'" by blast
  then have "proxy_step (answers late) fixture_env fixture_listen (Some (proxy_init due_controller), due_cluster)
      (Some ((proxy_init due_controller)\<lparr>px_controller := s'\<lparr>ct_idle_since := None\<rparr>\<rparr>), c')"
    by (intro proxy_step.Tick) (simp_all add: proxy_init_def)
  with fixture_runs_due have "fixture_runs late (None, cluster_init)
      (Some ((proxy_init due_controller)\<lparr>px_controller := s'\<lparr>ct_idle_since := None\<rparr>\<rparr>), c')"
    by (rule rtranclp.rtrancl_into_rtrancl)
  then show thesis by (rule that) (use slow in simp_all)
qed

lemma due_responsive: "responsive 2 due_controller due_cluster"
  using idle_controller_responsive by (rule responsive_mono) simp

section \<open>A run in which a request to suspend is held up\<close>

text \<open>
  The request times out, the tick ends, and before the worker hears of the request a client
  comes and is attached.
\<close>

definition held_cluster :: cluster where
  "held_cluster = due_cluster\<lparr>cl_suspends := 1\<rparr>"

definition stranded_cluster :: cluster where
  "stranded_cluster = due_cluster\<lparr>cl_permit := Some ''permit-one''\<rparr>"

lemma no_suspends [simp]: "cl_suspends awake_cluster = 0"
  by (simp add: awake_cluster_def fixture_cluster_def patched_cluster_def set_replicas_def Let_def cluster_init_def)

lemma fixture_runs_held: "fixture_runs True (None, cluster_init) (Some (proxy_init (idle_controller None)), held_cluster)"
proof -
  have calm: "due_controller\<lparr>ct_needs_fence := False\<rparr> = due_controller" "fenced_cluster due_controller due_cluster = due_cluster"
    by (simp_all add: idle_controller_def fenced_cluster_def)
  have "responsive (Suc 2) due_controller due_cluster" using idle_controller_responsive by simp
  from play_idle_tick_held [OF this idle_controller_due]
  have "play Slow_Suspend (idle_tick due_controller) due_cluster =
      ((Inl (Error ''operation timed out''), due_controller), held_cluster)"
    unfolding calm by (simp add: held_cluster_def)
  then have "play Slow_Suspend (idle_round due_controller) due_cluster = ((Inr (), idle_controller None), held_cluster)"
    by (simp add: idle_round_def play_matching set_idle_since_def) (simp add: idle_controller_def)
  from held_runs [OF this] obtain es where
    "runs (idle_round due_controller) es (Inr (), idle_controller None)" "goes (answers True) due_cluster es held_cluster"
    by blast
  then have "proxy_step (answers True) fixture_env fixture_listen (Some (proxy_init due_controller), due_cluster)
      (Some ((proxy_init due_controller)\<lparr>px_controller := idle_controller None\<rparr>), held_cluster)"
    by (intro proxy_step.Tick) (simp_all add: proxy_init_def)
  with fixture_runs_due show ?thesis by (auto simp: proxy_init_def intro: rtranclp.rtrancl_into_rtrancl)
qed

lemma held_wake:
  "play Prompt (attach 2 (idle_controller None)) held_cluster =
     ((Inr (worker_backend fixture_config), (idle_controller None)\<lparr>ct_connections := 1\<rparr>), held_cluster)"
proof -
  let ?s = "(idle_controller None)\<lparr>ct_connections := 1\<rparr>"
  have s: "ct_config (idle_controller None) = fixture_config" "?s\<lparr>ct_needs_fence := False, ct_idle_since := None\<rparr> = ?s"
    "ct_connections (idle_controller None) = 0"
    by (simp_all add: idle_controller_def fixture_controller_def)
  have "responsive 3 ?s held_cluster"
    using idle_controller_responsive [of None 1500]
    by (simp add: responsive_def held_cluster_def idle_controller_def fixture_controller_def)
  then have "play Prompt (wake 2 ?s) held_cluster =
      ((Inr (worker_backend (ct_config ?s)), ?s\<lparr>ct_needs_fence := False, ct_idle_since := None\<rparr>), woken_cluster ?s held_cluster)"
    by (rule play_wake) (simp_all add: s(1) held_cluster_def fixture_config_def instant_limit_def)
  moreover have "woken_cluster ?s held_cluster = held_cluster"
    by (simp add: woken_cluster_def fenced_cluster_def idle_controller_def) (simp add: held_cluster_def)
  ultimately have "play Prompt (wake 2 ?s) held_cluster = ((Inr (worker_backend fixture_config), ?s), held_cluster)"
    using s(1,2) by simp
  then show ?thesis by (intro play_attach) (simp add: s(3))
qed

lemma fixture_runs_stranded: "fixture_runs True (None, cluster_init) (Some fixture_attached, stranded_cluster)"
proof -
  have config: "ct_config (idle_controller None) = fixture_config" by (simp add: idle_controller_def fixture_controller_def)
  have "drift_step True held_cluster (held_cluster\<lparr>cl_suspends := 0, cl_permit := Some ''permit-one''\<rparr>)"
    using idle_controller_responsive [of None 1500]
    by (intro drift_step.Suspends) (simp_all add: held_cluster_def responsive_def)
  moreover have "held_cluster\<lparr>cl_suspends := 0, cl_permit := Some ''permit-one''\<rparr> = stranded_cluster"
    by (simp add: held_cluster_def stranded_cluster_def)
  ultimately have "answers True held_cluster (EvSleep 0) stranded_cluster"
    unfolding answers_def by (intro exI [of _ held_cluster]) auto
  then have "proxy_step (answers True) fixture_env fixture_listen (Some fixture_attached, held_cluster) (Some fixture_attached, stranded_cluster)"
    by (rule proxy_step.World)
  with fixture_runs_held fixture_runs_connect [OF held_wake config] show ?thesis
    unfolding fixture_attached_def by (meson rtranclp.rtrancl_into_rtrancl rtranclp_trans)
qed

lemma fixture_address: "parse_socket_addr ''0.0.0.0:91'' = Inr (SocketAddr (V4 [0, 0, 0, 0]) 91)"
proof -
  have "read_ipv4_addr ''0.0.0.0:91'' = Some ([0, 0, 0, 0], '':91'')" by code_simp
  moreover have "read_port '':91'' = Some (91, [])"
    by (simp add: read_port_def read_char_def read_unlimited_def read_number_def digit_value_def byte_val_def)
  ultimately show ?thesis by (simp add: parse_socket_addr_def read_socket_v4_def)
qed

end
