(* ===== verification/Proxy_Properties.thy ===== *)
theory Proxy_Properties
  imports Proxy_Connection Idle_Task Fixture
begin

text \<open>
  What the idle proxy promises, over its own definitions and the cluster of its tests: when
  a worker is put to sleep and when it is not, what \<open>wake\<close> returns and that it returns, and
  how the configuration and the replies of the worker are read.
\<close>

section \<open>The process in the cluster\<close>

lemma cluster_init_safe: "cl_safe cluster_init"
  by (simp add: cl_safe_def cl_danger_def cl_closed_def cluster_init_def)

lemma fixture_hosts: "from_env fixture_env = Inr config \<Longrightarrow> hostname_ok config"
  using fixture_hostname by (simp add: fixture_from_env)

lemma reachable_sound:
  assumes "\<And>config. from_env env = Inr config \<Longrightarrow> hostname_ok config"
    and "proxy_runs (answers late) env listen (None, cluster_init) (x, c)"
  shows "cluster.sound x c"
  using cluster.sound_reachable [OF assms(2) cluster_init_safe assms(1)] .

text \<open>C1: Whatever the proxy does, whatever is lost, delayed or answered by an error, sleep writes
  and requests to suspend included, and however often it crashes and restarts, no worker that
  admitted sessions has ever been put to sleep.\<close>

theorem never_sleeps_admitting_worker:
  assumes "\<And>config. from_env env = Inr config \<Longrightarrow> hostname_ok config"
    and "proxy_runs (answers late) env listen (None, cluster_init) (x, c)"
  shows "\<not> cl_harmed c"
  using reachable_sound [OF assms] by (simp add: cluster.sound_def cl_safe_def)

theorem never_sleeps_admitting_worker_witness:
  "fixture_runs True (None, cluster_init) (Some fixture_attached, awake_cluster) \<and> \<not> cl_harmed awake_cluster"
  using fixture_runs_attach never_sleeps_admitting_worker [OF fixture_hosts fixture_runs_attach] by blast

text \<open>C8: While a connection is forwarded no step of the running proxy or of the cluster puts
  the worker to sleep, whether a tick of the idle task, its abort, or a patch that arrives late.\<close>

theorem attached_worker_stays_up:
  assumes "\<And>config. from_env env = Inr config \<Longrightarrow> hostname_ok config"
    and "proxy_runs (answers late) env listen (None, cluster_init) (Some p, c)" "px_attached p \<noteq> []"
    and "proxy_step (answers late) env listen (Some p, c) (Some p', c')"
  shows "cl_scale_downs c' = cl_scale_downs c"
  using cluster.steady_step [OF assms(4) reachable_sound [OF assms(1,2)] assms(3)] .

theorem attached_worker_stays_up_witness:
  "let c' = awake_cluster\<lparr>cl_clock := 501\<rparr>
   in proxy_step (answers True) fixture_env fixture_listen (Some fixture_attached, awake_cluster) (Some fixture_attached, c') \<and>
      cl_scale_downs c' = cl_scale_downs awake_cluster"
proof -
  let ?c = "awake_cluster\<lparr>cl_clock := 501\<rparr>"
  have step: "proxy_step (answers True) fixture_env fixture_listen (Some fixture_attached, awake_cluster) (Some fixture_attached, ?c)"
    by (rule proxy_step.World [where d = 1]) (simp add: happens_answers)
  have "px_attached fixture_attached \<noteq> []" by (simp add: fixture_attached_def)
  from attached_worker_stays_up [OF fixture_hosts fixture_runs_attach this step] step show ?thesis by simp
qed

lemma reachable_offers:
  assumes "\<And>config. from_env env = Inr config \<Longrightarrow> hostname_ok config"
    and "proxy_runs (answers False) env listen (None, cluster_init) (x, c)"
  shows "service.offers env x c"
  using service.refines_reachable [OF assms(2) cluster_init_safe assms(1)] by blast

text \<open>C2: A forwarded connection is served: in every reachable state in which a connection is
  attached the worker has a replica and holds no permit, so it admits sessions, whatever was
  lost or delayed and whatever the idle task does meanwhile, so long as a request to suspend
  that is carried out at all is carried out before it times out.\<close>

theorem attached_worker_serves:
  assumes "\<And>config. from_env env = Inr config \<Longrightarrow> hostname_ok config"
    and "proxy_runs (answers False) env listen (None, cluster_init) (Some p, c)" "px_attached p \<noteq> []"
  shows "cl_replicas c \<noteq> 0 \<and> cl_permit c = None \<and> admitting c"
  using reachable_offers [OF assms(1,2)] assms(3)
  by (simp add: service.offers_def service.serves_def cl_running_def cl_open_def admitting_def)

theorem attached_worker_serves_witness:
  "fixture_runs False (None, cluster_init) (Some fixture_attached, awake_cluster) \<and> admitting awake_cluster"
proof -
  have "px_attached fixture_attached \<noteq> []" by (simp add: fixture_attached_def)
  from attached_worker_serves [OF fixture_hosts fixture_runs_attach this] fixture_runs_attach show ?thesis by blast
qed



text \<open>C27: Where a request to suspend may reach the worker after it timed out, the promise of
  \<open>attached_worker_serves\<close> fails: \<open>idle_tick\<close> only reports the timeout, a client that comes
  next is attached to the worker that still holds no permit, and then the request is carried
  out. The worker refuses sessions while the connection is forwarded, and the ticks of the idle
  task send nothing that would reopen it.\<close>

theorem late_suspension_closes_attached_worker:
  "\<exists>p c. fixture_runs True (None, cluster_init) (Some p, c) \<and> px_attached p \<noteq> [] \<and> cl_replicas c = 1 \<and>
     cl_permit c \<noteq> None \<and> \<not> admitting c \<and>
     idle_tick (px_controller p) = Done (Inr (), (px_controller p)\<lparr>ct_idle_since := None\<rparr>)"
proof (intro exI conjI)
  show "fixture_runs True (None, cluster_init) (Some fixture_attached, stranded_cluster)" by (rule fixture_runs_stranded)
  show "px_attached fixture_attached \<noteq> []" by (simp add: fixture_attached_def)
  show "idle_tick (px_controller fixture_attached) =
      Done (Inr (), (px_controller fixture_attached)\<lparr>ct_idle_since := None\<rparr>)"
    by (simp add: idle_tick_def bind_def gets_def only_if_def ret_def set_idle_since_def modify_def
        fixture_attached_def proxy_init_def idle_controller_def)
qed (simp_all add: stranded_cluster_def admitting_def)

text \<open>C10: When no fence is owed, no patch in flight that would put the worker to sleep carries
  the current version, so none can be applied; only after that is a worker resumed or reused.\<close>

theorem unfenced_writes_are_stale:
  assumes "\<And>config. from_env env = Inr config \<Longrightarrow> hostname_ok config"
    and "proxy_runs (answers late) env listen (None, cluster_init) (Some p, c)"
    and "\<not> ct_needs_fence (px_controller p)" "patch \<in> set (cl_writes c)"
    and "as_u64 (patch_replicas patch) = Some 0"
  shows "resource_version patch \<noteq> resource_version (deployment_value c)"
proof -
  have "\<not> cl_danger c"
    using reachable_sound [OF assms(1,2)] assms(3) by (simp add: cluster.sound_def cluster.guarded_def)
  with assms(4,5) show ?thesis by (auto simp: cl_danger_def)
qed

theorem unfenced_writes_are_stale_witness:
  "\<exists>p c patch. fixture_runs True (None, cluster_init) (Some p, c) \<and> patch \<in> set (cl_writes c) \<and>
     as_u64 (patch_replicas patch) = Some 0 \<and> resource_version patch \<noteq> resource_version (deployment_value c)"
proof -
  obtain p c patch where slow: "fixture_runs True (None, cluster_init) (Some p, c)" "\<not> ct_needs_fence (px_controller p)"
    "patch \<in> set (cl_writes c)" "as_u64 (patch_replicas patch) = Some 0"
    by (rule fixture_runs_slow)
  from unfenced_writes_are_stale [OF fixture_hosts slow] slow show ?thesis by blast
qed

text \<open>The controller counts exactly the forwarded connections and those whose task
  panicked while it held the lock, so the count never underflows when one ends.\<close>

theorem connections_are_counted:
  assumes "\<And>config. from_env env = Inr config \<Longrightarrow> hostname_ok config"
    and "proxy_runs (answers late) env listen (None, cluster_init) (Some p, c)"
  shows "ct_connections (px_controller p) = length (px_attached p) + px_panicked p"
  using reachable_sound [OF assms] by (simp add: cluster.sound_def)

theorem connections_are_counted_witness:
  "ct_connections (px_controller fixture_attached) = length (px_attached fixture_attached) + px_panicked fixture_attached \<and>
   px_attached fixture_attached \<noteq> []"
  using connections_are_counted [OF fixture_hosts fixture_runs_attach] by (simp add: fixture_attached_def)

section \<open>Going to sleep\<close>

lemma pinned_tick_awake:
  assumes "0 < ct_connections s" "suspends (idle_tick s) es s' (Some rq)"
  shows "\<not> is_sleep rq"
proof -
  have "idle_tick s = bind (only_if (ct_needs_fence s) fence) (\<lambda>_. set_idle_since None) s"
    using assms(1) by (simp add: idle_tick_def bind_def [where m = "gets f" for f] gets_def)
  moreover have "awake (bind (only_if (ct_needs_fence s) fence) (\<lambda>_. set_idle_since None))"
    by (intro awake_rules awake_fence awake_setters)
  ultimately have "wp anyhow no_sleep (idle_tick s) (\<lambda>_ _. True) ()" by (simp add: awake_def)
  from anyhow_suspends [OF this assms(2)] show ?thesis by (simp add: no_sleep_def)
qed

text \<open>C9: When a tick of the idle task sends the write that puts the worker to sleep, no
  connection is counted, and it has seen, in this tick, exactly one pod, ready, whose worker
  was idle and held no permit, was idle since the timeout for the same boot, and then granted
  the suspension, still idle and of that boot.\<close>

theorem sleep_write_needs_evidence:
  assumes "suspends (idle_tick s) es s' (Some rq)" "is_sleep rq"
  shows "ct_connections s = 0 \<and> sleep_evidence s es"
  using history_suspends [OF trace_idle_tick assms(1)] assms pinned_tick_awake [OF _ assms(1)]
  by (auto simp: backed_def)

theorem sleep_write_needs_evidence_witness:
  "\<exists>es rq s'. suspends (idle_tick due_controller) es s' (Some rq) \<and> is_sleep rq \<and> sleep_evidence due_controller es"
proof -
  have s: "cluster.sound (Some (proxy_init due_controller)) due_cluster"
    by (rule reachable_sound [OF fixture_hosts fixture_runs_due])
  then have g: "cluster.guarded due_controller due_cluster" "hostname_ok (ct_config due_controller)"
    by (simp_all add: cluster.sound_def proxy_init_def)
  then have d: "\<not> cl_danger due_cluster" by (simp add: cluster.guarded_def idle_controller_def)
  have "responsive 2 due_controller due_cluster" by (rule due_responsive)
  from prompt_runs [OF play_idle_tick [OF this idle_controller_due], of True] obtain es where
    "runs (idle_tick due_controller) es (Inr (), due_controller\<lparr>ct_needs_fence := False, ct_idle_since := None\<rparr>)"
    "goes (answers True) due_cluster es (slept_cluster due_controller due_cluster)" by blast
  then obtain s' c' where es: "runs (idle_tick due_controller) es (Inr (), s')" "goes (answers True) due_cluster es c'"
    "cl_scale_downs c' \<noteq> cl_scale_downs due_cluster" by (intro that) (assumption, assumption, simp)
  obtain es1 rq s1 where "is_sleep rq" "suspends (idle_tick due_controller) es1 s1 (Some rq)"
    by (rule cluster.went_down [OF g d es])
  with sleep_write_needs_evidence show ?thesis by blast
qed

text \<open>A worker that is idle and whose timeout has passed is put to sleep by the next tick.\<close>

theorem idle_worker_is_put_to_sleep:
  assumes "responsive 2 s c" "idle_due s c"
  shows "\<exists>s' c'. play Prompt (idle_tick s) c = ((Inr (), s'), c') \<and> cl_replicas c' = 0 \<and>
    cl_scale_downs c' = cl_scale_downs c + 1 \<and> cl_harmed c' = cl_harmed c"
  using play_idle_tick [OF assms] assms(2) by simp

text \<open>C17: Against a cluster that answers, the idle task puts a worker without work and without
  connections to sleep: whatever the controller owes or remembers, and whether or not the worker
  still holds a permit, two rounds more than the idle timeout takes are enough. It is put to
  sleep once, stays asleep, and admitted no session when the write was applied.\<close>

theorem idle_worker_falls_asleep:
  assumes "idling 5 s c" "cf_idle_timeout (ct_config s) \<le> 5000 * k" "0 < k"
  shows "\<exists>s' c'. play Prompt (idle_task (k + 2) s) c = ((Inr (), s'), c') \<and> cl_replicas c' = 0 \<and>
    cl_scale_downs c' = cl_scale_downs c + 1 \<and> cl_harmed c' = cl_harmed c"
  using idling_sleeps [OF assms] by (simp add: falls_asleep_def del: idle_task.simps)

theorem idle_worker_falls_asleep_witness:
  "\<exists>s' c'. play Prompt (idle_task 3 due_controller) (due_cluster\<lparr>cl_permit := Some ''permit-one''\<rparr>) = ((Inr (), s'), c') \<and>
     cl_replicas c' = 0"
proof -
  let ?c = "due_cluster\<lparr>cl_permit := Some ''permit-one''\<rparr>"
  have "responsive 3 due_controller due_cluster" by (rule idle_controller_responsive)
  moreover have "cl_version due_cluster = 3"
    by (simp add: awake_cluster_def fixture_cluster_def cluster_init_def)
  ultimately have r: "responsive 5 due_controller ?c" by (simp add: responsive_def)
  then have idling: "idling 5 due_controller ?c"
    by (simp add: idling_def idle_controller_def fixture_controller_def fixture_config_def)
  have "cf_idle_timeout (ct_config due_controller) \<le> 5000 * 1"
    by (simp add: idle_controller_def fixture_controller_def fixture_config_def)
  from idle_worker_falls_asleep [OF idling this zero_less_one] obtain s' c' where
    "play Prompt (idle_task (1 + 2) due_controller) ?c = ((Inr (), s'), c')" "cl_replicas c' = 0"
    by (elim exE conjE)
  moreover have "(1 :: nat) + 2 = 3" by simp
  ultimately show ?thesis by metis
qed



section \<open>Waking\<close>

text \<open>C12: A backend that \<open>wake\<close> returns was made from the one pod that a list showed ready, its
  worker has answered with a supported status, and if it held a permit it has been resumed.\<close>

theorem wake_returns_ready_worker:
  assumes "runs (wake fuel s) es (Inr b, s')"
  shows "wake_evidence (ct_kube s) b es"
  using history_runs [OF trace_wake assms] by simp

lemma fixture_wake_runs:
  obtains es s' where "runs (wake 2 due_controller) es (Inr (worker_backend fixture_config), s')"
proof -
  have "cl_replicas due_cluster \<le> 1" "500 < cf_cold_start_timeout (ct_config due_controller)"
    "cl_clock due_cluster + cf_cold_start_timeout (ct_config due_controller) < instant_limit" "(2 :: nat) \<le> 2"
    by (simp_all add: idle_controller_def fixture_controller_def fixture_config_def instant_limit_def)
  from play_wake [OF idle_controller_responsive this] obtain s' c' where
    "play Prompt (wake 2 due_controller) due_cluster = ((Inr (worker_backend (ct_config due_controller)), s'), c')"
    by blast
  moreover have "ct_config due_controller = fixture_config" by (simp add: idle_controller_def fixture_controller_def)
  ultimately show thesis using that prompt_runs by metis
qed

theorem wake_returns_ready_worker_witness:
  "\<exists>es. wake_evidence fixture_kube (worker_backend fixture_config) es"
proof -
  obtain es s' where "runs (wake 2 due_controller) es (Inr (worker_backend fixture_config), s')"
    by (rule fixture_wake_runs)
  from wake_returns_ready_worker [OF this] show ?thesis
    by (auto simp: idle_controller_def fixture_controller_def)
qed

text \<open>C15: The loop of \<open>wake\<close> ends: with fuel for one round per half second of the cold-start
  timeout no run in the cluster uses the fuel up, whatever the replies, and a run exists.\<close>

theorem wake_terminates:
  assumes "cf_cold_start_timeout (ct_config s) \<le> 500 * fuel"
  shows "(\<forall>es r s' c'. runs (wake (Suc fuel) s) es (r, s') \<longrightarrow> goes (answers late) c es c' \<longrightarrow> r \<noteq> Inl OutOfFuel) \<and>
    (\<exists>es r s' c'. runs (wake (Suc fuel) s) es (r, s') \<and> goes (answers late) c es c')"
proof
  show "\<forall>es r s' c'. runs (wake (Suc fuel) s) es (r, s') \<longrightarrow> goes (answers late) c es c' \<longrightarrow> r \<noteq> Inl OutOfFuel"
    using wp_sound [OF _ _ cluster_time.wake_ends [OF assms]] by fastforce
  obtain r s' c' where "play Prompt (wake (Suc fuel) s) c = ((r, s'), c')" by (metis prod.exhaust)
  from prompt_runs [OF this] show "\<exists>es r s' c'. runs (wake (Suc fuel) s) es (r, s') \<and> goes (answers late) c es c'" by blast
qed

theorem wake_terminates_witness:
  "\<exists>es r s' c'. runs (wake (Suc 10) due_controller) es (r, s') \<and> goes (answers True) due_cluster es c' \<and> r \<noteq> Inl OutOfFuel"
proof -
  have "cf_cold_start_timeout (ct_config due_controller) \<le> 500 * 10"
    by (simp add: idle_controller_def fixture_controller_def fixture_config_def)
  from wake_terminates [OF this] show ?thesis by blast
qed

text \<open>C16: Against a cluster that answers, \<open>wake\<close> brings the worker up, from no replica or from
  one that holds a permit: it returns the worker's backend with one replica, the permit
  released, no fence owed, and without having put anything to sleep.\<close>

theorem wake_brings_worker_up:
  assumes "responsive 3 s c" "cl_replicas c \<le> 1" "500 < cf_cold_start_timeout (ct_config s)"
    and "cl_clock c + cf_cold_start_timeout (ct_config s) < instant_limit" "2 \<le> fuel"
  shows "\<exists>s' c'. play delay (wake fuel s) c = ((Inr (worker_backend (ct_config s)), s'), c') \<and> cl_replicas c' = 1 \<and>
    cl_permit c' = None \<and> \<not> ct_needs_fence s' \<and> cl_scale_downs c' = cl_scale_downs c"
  using play_wake [OF assms, of delay] assms(2) by simp

theorem wake_brings_worker_up_witness:
  "\<exists>s' c'. play Prompt (wake 2 due_controller) (due_cluster\<lparr>cl_replicas := 0\<rparr>) =
     ((Inr (worker_backend fixture_config), s'), c') \<and> cl_replicas c' = 1"
proof -
  have "responsive 3 due_controller (due_cluster\<lparr>cl_replicas := 0\<rparr>)"
    using idle_controller_responsive [of _ 1500] by (simp add: responsive_def)
  moreover have "ct_config due_controller = fixture_config" by (simp add: idle_controller_def fixture_controller_def)
  ultimately show ?thesis
    using wake_brings_worker_up [of due_controller "due_cluster\<lparr>cl_replicas := 0\<rparr>" 2]
    by (simp add: fixture_config_def instant_limit_def) blast
qed

text \<open>C26: A cold-start timeout that leaves the range of an instant makes \<open>wake\<close> panic after
  the connection was counted and before any request: the count stays raised, so from then on
  no tick of the idle task sends a sleep write.\<close>

theorem deadline_overflow_keeps_count:
  assumes "runs (attach fuel s) (EvNow t # es) (r, s')"
    and "instant_limit \<le> t + cf_cold_start_timeout (ct_config s)"
  shows "r = Inl (Panicked ''overflow when adding duration to instant'') \<and> es = [] \<and>
    ct_connections s' = ct_connections s + 1 \<and>
    (\<forall>fs s'' rq. suspends (idle_tick s') fs s'' (Some rq) \<longrightarrow> \<not> is_sleep rq)"
proof -
  have run: "r = Inl (Panicked ''overflow when adding duration to instant'') \<and> es = [] \<and>
      s' = s\<lparr>ct_connections := ct_connections s + 1, ct_idle_since := None\<rparr>"
    using assms
    by (auto simp: attach_def count_up_def wake_def set_idle_since_def add_duration_def bind_def matching_def
        modify_def now_def gets_def fail_def)
  then have "0 < ct_connections s'" by simp
  then have "\<forall>fs s'' rq. suspends (idle_tick s') fs s'' (Some rq) \<longrightarrow> \<not> is_sleep rq"
    using pinned_tick_awake by blast
  with run show ?thesis by simp
qed

lemma overflow_runs:
  assumes "instant_limit \<le> t + cf_cold_start_timeout (ct_config s)"
  shows "runs (attach fuel s) [EvNow t] (Inl (Panicked ''overflow when adding duration to instant''),
    s\<lparr>ct_connections := ct_connections s + 1, ct_idle_since := None\<rparr>)"
  using assms
  apply (simp add: attach_def count_up_def wake_def set_idle_since_def add_duration_def bind_def matching_def
      modify_def now_def gets_def fail_def)
  apply (rule runs.Now)
  apply (simp add: fail_def runs.Done)
  done

definition endless_controller :: controller where
  "endless_controller = due_controller\<lparr>ct_config := fixture_config\<lparr>cf_cold_start_timeout := instant_limit\<rparr>\<rparr>"

theorem deadline_overflow_keeps_count_witness:
  "\<exists>s'. runs (attach 2 endless_controller) [EvNow 7] (Inl (Panicked ''overflow when adding duration to instant''), s') \<and>
     ct_connections s' = ct_connections endless_controller + 1"
proof -
  have late: "instant_limit \<le> 7 + cf_cold_start_timeout (ct_config endless_controller)"
    by (simp add: endless_controller_def)
  from deadline_overflow_keeps_count [OF overflow_runs [OF late] late] overflow_runs [OF late] show ?thesis by blast
qed

section \<open>Pods, replies and configuration\<close>

text \<open>The backend comes from the single pod of the list when that pod is ready, and from no
  pod otherwise: the check for several ready pods after the check for one pod never fires.\<close>

theorem ready_backend_single:
  "ready_backend s = bind (kube_pods (ct_kube s)) (\<lambda>pods. case pods of
     [pod] \<Rightarrow> if ready pod then bind (from_pod pod (ct_config s)) (\<lambda>b. ret (Some b)) else ret None
   | _ \<Rightarrow> ret None) s"
proof -
  let ?code = "\<lambda>pods. if length pods \<noteq> 1 then ret None
     else let ready_pods = filter ready pods in
       if 1 < length ready_pods then bail ''idle mode requires exactly one worker''
       else case ready_pods of [] \<Rightarrow> ret None
         | pod # _ \<Rightarrow> bind (from_pod pod (ct_config s)) (\<lambda>backend. ret (Some backend))"
  have "ready_backend s = bind (kube_pods (ct_kube s)) ?code s"
    by (simp add: ready_backend_def bind_def [where m = "gets f" for f] gets_def)
  also have "?code = (\<lambda>pods. case pods of
      [pod] \<Rightarrow> if ready pod then bind (from_pod pod (ct_config s)) (\<lambda>b. ret (Some b)) else ret None
    | _ \<Rightarrow> ret None)"
    by (rule ext) (auto simp: Let_def split: list.splits)
  finally show ?thesis .
qed

text \<open>C38: A backend made from a pod carries a well-formed address, that of the pod, and the
  control port and host name of the configuration; making it changes no field.\<close>

theorem pod_address_well_formed:
  assumes "runs (from_pod pod config s) es (Inr b, s')"
  shows "ip_ok (be_ip b) \<and> be_control_port b = cf_control_port config \<and> backend_of config b \<and> s' = s \<and>
    andThen (ok_or ''missing pod IP'' (as_text (index (index pod ''status'') ''podIP''))) parse_ip = Inr (be_ip b)"
proof -
  let ?ip = "andThen (ok_or ''missing pod IP'' (as_text (index (index pod ''status'') ''podIP''))) parse_ip"
  obtain ip where ip: "?ip = Inr ip"
    using assms by (cases ?ip) (auto simp: from_pod_def bind_def lift_def)
  obtain uid where uid: "as_text (index (index pod ''metadata'') ''uid'') = Some uid"
    using assms ip by (cases "as_text (index (index pod ''metadata'') ''uid'')") (auto simp: from_pod_def bind_def lift_def)
  have "ip_ok ip" using ip by (auto simp: andThen_Inr_iff dest: parse_ip_ok)
  moreover have "s' = s \<and> be_ip b = ip \<and> be_control_port b = cf_control_port config \<and> backend_of config b"
    using assms ip uid
    by (auto simp: from_pod_def bind_def lift_def build_client_def map_err_def ret_def backend_of_def split: sum.splits)
  ultimately show ?thesis using ip by simp
qed

theorem pod_address_well_formed_witness:
  "runs (from_pod worker_pod fixture_config ()) [EvClient (Inr ())] (Inr (worker_backend fixture_config), ()) \<and>
   ip_ok (be_ip (worker_backend fixture_config))"
proof -
  have r: "runs (from_pod worker_pod fixture_config ()) [EvClient (Inr ())] (Inr (worker_backend fixture_config), ())"
    by (auto simp: from_pod_def bind_def lift_def build_client_def ret_def worker_pod_def parse_loopback
        worker_backend_def intro!: runs.intros)
  with pod_address_well_formed [OF r] show ?thesis by simp
qed

text \<open>C28: A status object is decoded to the status it was written from, in whatever order its
  members stand, and is refused exactly when its version is not one or its boot is empty.\<close>

theorem status_round_trip:
  assumes "mset members = mset (status_members st)"
  shows "status_of_reply (Inr (reply 200 (JObj members))) =
    (if is_protocol_version st = 1 \<and> is_boot_id st \<noteq> [] then Inr st else Inl ''unsupported idle-control capability'')"
  using decode_status_members [OF assms] by (simp add: status_of_reply_def check_capability_def)

theorem status_round_trip_witness:
  "status_of_reply (Inr (reply 200 (JObj (rev (status_members (worker_status cluster_init)))))) =
     Inr (worker_status cluster_init)"
  using status_round_trip [of "rev (status_members (worker_status cluster_init))" "worker_status cluster_init"]
  by (simp add: worker_status_def)

text \<open>The listeners are read as the reference says: each variable that is set is parsed, in
  order, the others are skipped, and one that does not parse is an error of the whole.\<close>

theorem read_listeners_reference:
  "read_listeners env names = Inr ports \<longleftrightarrow>
     map Inr ports = map (\<lambda>name. andThen (env_var env name) parse_u16) (filter (\<lambda>name. is_ok (env_var env name)) names)"
proof (induction names arbitrary: ports)
  case (Cons name names)
  show ?case
  proof (cases "env_var env name")
    case (Inr v)
    show ?thesis
    proof (cases "parse_u16 v")
      case (Inr port)
      with \<open>env_var env name = Inr v\<close> show ?thesis
        using Cons by (cases ports) (auto simp: andThen_Inr_iff)
    qed (use Inr in \<open>auto\<close>)
  qed (use Cons in simp)
qed auto

text \<open>A configuration that is accepted has a listener, and its fields are the variables of
  the environment, its timeouts whole seconds.\<close>

theorem configuration_from_environment:
  assumes "from_env env = Inr config"
  shows "cf_listeners config \<noteq> [] \<and>
    read_listeners env listener_variables = Inr (cf_listeners config) \<and>
    env_var env ''POD_NAMESPACE'' = Inr (cf_namespace config) \<and>
    env_var env ''DUCKFLIGHT_PROXY_DEPLOYMENT'' = Inr (cf_deployment config) \<and>
    andThen (env_var env ''DUCKFLIGHT_PROXY_CONTROL_PORT'') parse_u16 = Inr (cf_control_port config) \<and>
    cf_idle_timeout config mod 1000 = 0 \<and> cf_cold_start_timeout config mod 1000 = 0"
proof -
  have "d mod 1000 = 0" if "parse_seconds v = Inr d" for v d
    using that by (cases "parse_unsigned (2 ^ 64 - 1) v") (auto simp: parse_seconds_def)
  with from_env_fields [OF assms] from_env_listeners [OF assms] show ?thesis
    by (simp add: andThen_Inr_iff) blast
qed

theorem configuration_from_environment_witness:
  "cf_listeners fixture_config = [5432] \<and> cf_idle_timeout fixture_config mod 1000 = 0"
  using configuration_from_environment [OF fixture_from_env] by (simp add: fixture_config_def)

lemma worker_ready_eq:
  assumes "andThen (env_var env ''DUCKFLIGHT_IDLE_CONTROL_ADDRESS'') parse_socket_addr = Inr address"
    and "env_var env ''DUCKFLIGHT_IDLE_SERVER_NAME'' = Inr hostname"
    and "andThen (read_file env ''/run/idle-secret/ca.crt'') (certificate_from_pem env) = Inr ca"
    and "env_var env ''DUCKFLIGHT_IDLE_TOKEN_FILE'' = Inr tf"
  shows "worker_ready env s = BuildClient (\<lambda>r. case r of Inl e \<Rightarrow> Done (Inl (Error e), s)
    | Inr _ \<Rightarrow> exchange tf (probe_request hostname (socket_port address)) probe_of_reply s)"
  unfolding worker_ready_def probe_exchange
  using assms
  by (auto simp: bind_def [where m = "lift x" for x] lift_def bind_def [where m = build_client] build_client_def
      map_err_def fun_eq_iff split: sum.splits)

lemma fixture_probe_address:
  "andThen (env_var fixture_env ''DUCKFLIGHT_IDLE_CONTROL_ADDRESS'') parse_socket_addr =
      Inr (SocketAddr (V4 [0, 0, 0, 0]) 91)"
  "env_var fixture_env ''DUCKFLIGHT_IDLE_SERVER_NAME'' = Inr ''localhost''"
  by (simp_all add: fixture_env_def fixture_variables_def fixture_address)

lemma fixture_probe:
  "runs (worker_ready fixture_env ()) [EvClient (Inr ()), EvRead ''token'' (Inr ''t''),
     EvHttp (probe_request ''localhost'' 91 ''t'') (Inr (reply 200 (status_value cluster_init)))] (Inr (), ())"
proof -
  have c: "andThen (read_file fixture_env ''/run/idle-secret/ca.crt'') (certificate_from_pem fixture_env) = Inr []"
    and t: "env_var fixture_env ''DUCKFLIGHT_IDLE_TOKEN_FILE'' = Inr ''token''"
    by (simp_all add: fixture_env_def fixture_variables_def)
  have "probe_of_reply (Inr (reply 200 (status_value cluster_init))) = Inr ()"
    by (simp add: probe_of_reply_def decode_status_value check_ready_def)
  then show ?thesis
    unfolding worker_ready_eq [OF fixture_probe_address c t] exchange_def socket_port.simps
    by (auto intro!: runs.intros)
qed

text \<open>C39: The readiness probe succeeds only after the worker's control server, reached on the
  loopback address at the configured port, has answered with protocol version one and ready.\<close>

theorem probe_needs_ready_worker:
  assumes "runs (worker_ready env s) es (Inr (), s')"
  shows "\<exists>address hostname token r status.
    andThen (env_var env ''DUCKFLIGHT_IDLE_CONTROL_ADDRESS'') parse_socket_addr = Inr address \<and>
    env_var env ''DUCKFLIGHT_IDLE_SERVER_NAME'' = Inr hostname \<and>
    EvHttp (probe_request hostname (socket_port address) token) r \<in> set es \<and>
    andThen (decoded r) decode_status = Inr status \<and> is_protocol_version status = 1 \<and> is_ready status"
proof -
  let ?address = "andThen (env_var env ''DUCKFLIGHT_IDLE_CONTROL_ADDRESS'') parse_socket_addr"
  obtain address where a: "?address = Inr address"
    using assms by (cases ?address) (auto simp: worker_ready_def bind_def lift_def)
  obtain hostname where h: "env_var env ''DUCKFLIGHT_IDLE_SERVER_NAME'' = Inr hostname"
    using assms a by (cases "env_var env ''DUCKFLIGHT_IDLE_SERVER_NAME''") (auto simp: worker_ready_def bind_def lift_def)
  obtain ca where c: "andThen (read_file env ''/run/idle-secret/ca.crt'') (certificate_from_pem env) = Inr ca"
    using assms a h by (cases "andThen (read_file env ''/run/idle-secret/ca.crt'') (certificate_from_pem env)")
      (auto simp: worker_ready_def bind_def lift_def)
  obtain tf where t: "env_var env ''DUCKFLIGHT_IDLE_TOKEN_FILE'' = Inr tf"
    using assms a h c by (cases "env_var env ''DUCKFLIGHT_IDLE_TOKEN_FILE''")
      (auto simp: worker_ready_def bind_def lift_def build_client_def map_err_def split: sum.splits)
  let ?probe = "exchange tf (probe_request hostname (socket_port address)) probe_of_reply"
  note worker_ready_eq [OF a h c t, of s]
  with assms have "\<exists>es1. runs (?probe s) es1 (Inr (), s') \<and> set es1 \<subseteq> set es"
    by (fastforce split: sum.splits)
  then obtain es1 where es1: "runs (?probe s) es1 (Inr (), s')" "set es1 \<subseteq> set es" by blast
  from runs_exchange_ok [OF es1(1)] obtain token r where
    r: "es1 = [EvRead tf (Inr token), EvHttp (probe_request hostname (socket_port address) token) r]"
      "probe_of_reply r = Inr ()" by blast
  from r(2) obtain status where "andThen (decoded r) decode_status = Inr status"
    "is_protocol_version status = 1" "is_ready status"
    by (auto simp: probe_of_reply_def check_ready_def andThen_Inr_iff split: if_splits)
  with a h r(1) es1(2) show ?thesis by auto
qed

theorem probe_needs_ready_worker_witness:
  "let rq = probe_request ''localhost'' 91 ''t'';
       es = [EvClient (Inr ()), EvRead ''token'' (Inr ''t''), EvHttp rq (Inr (reply 200 (status_value cluster_init)))]
   in runs (worker_ready fixture_env ()) es (Inr (), ()) \<and>
      (\<exists>r status. EvHttp rq r \<in> set es \<and> andThen (decoded r) decode_status = Inr status \<and> is_ready status)"
proof -
  let ?rq = "probe_request ''localhost'' 91 ''t''"
  let ?es = "[EvClient (Inr ()), EvRead ''token'' (Inr ''t''), EvHttp ?rq (Inr (reply 200 (status_value cluster_init)))]"
  have r: "runs (worker_ready fixture_env ()) ?es (Inr (), ())" by (rule fixture_probe)
  note a = fixture_probe_address(1) and h = fixture_probe_address(2)
  from probe_needs_ready_worker [OF r] obtain address hostname token reply' status where
    *: "andThen (env_var fixture_env ''DUCKFLIGHT_IDLE_CONTROL_ADDRESS'') parse_socket_addr = Inr address"
      "env_var fixture_env ''DUCKFLIGHT_IDLE_SERVER_NAME'' = Inr hostname"
      "EvHttp (probe_request hostname (socket_port address) token) reply' \<in> set ?es"
      "andThen (decoded reply') decode_status = Inr status" "is_ready status" by blast
  then have "EvHttp ?rq reply' \<in> set ?es" by auto
  with *(4,5) r show ?thesis unfolding Let_def by blast
qed

text \<open>C25: A connection whose client sent a byte sends it and then everything else the client sends,
  in order and once, to the worker that woke up; calls on the sockets stop at the first error;
  and when it ends, normally or with an error, its count is given back. Nothing is claimed when
  the task panics under the lock, which can leave the count raised
  (\<open>deadline_overflow_keeps_count\<close>), or when the fuel of \<open>wake\<close> runs out.\<close>

theorem connection_forwards_stream:
  assumes "runs (proxy_connection fuel (Inr (Inr (Some byte))) answer port s) es (r, s')"
  shows "case r of
      Inl (Error _) \<Rightarrow> ct_connections s' = ct_connections s
    | Inl _ \<Rightarrow> True
    | Inr (made, result) \<Rightarrow>
        ct_connections s' = ct_connections s \<and> ct_idle_since s' = None \<and>
        (\<exists>es1 s1 backend. runs (attach fuel s) es1 (Inr backend, s1) \<and> prefix made (forwarding byte backend port)) \<and>
        (case result of
           Inr _ \<Rightarrow> \<forall>rest. received rest made = byte # rest
         | Inl e \<Rightarrow> made \<noteq> [] \<and> answer (last made) = Inl e)"
proof (cases r)
  case (Inl e)
  then show ?thesis using connection_error assms by (cases e) auto
next
  case (Inr x)
  obtain made result where x: "x = (made, result)" by (cases x)
  from connection_outcome [of fuel byte answer port s es made result s'] assms Inr x obtain backend es1 s1 where
    *: "runs (attach fuel s) es1 (Inr backend, s1)" "calls answer (forwarding byte backend port) = (made, result)"
      "ct_connections s' = ct_connections s" "ct_idle_since s' = None" by blast
  show ?thesis
  proof (cases result)
    case Inl
    then show ?thesis using calls_Inl [of answer _ made] calls_prefix [OF *(2)] * Inr x by auto
  next
    case Inr
    then show ?thesis using calls_forwarding [of answer byte backend port made] calls_prefix [OF *(2)] * \<open>r = Inr x\<close> x by auto
  qed
qed

theorem connection_forwards_stream_witness:
  "\<exists>es s' made. runs (proxy_connection 2 (Inr (Inr (Some CHR ''Q''))) (\<lambda>_. Inr ()) 5432
      (px_controller fixture_started)) es (Inr (made, Inr ()), s') \<and>
    ct_connections s' = 0 \<and> received ''UIT'' made = ''QUIT''"
proof -
  from prompt_runs [OF fixture_wake] obtain es where
    "runs (attach 2 (px_controller fixture_started)) es (Inr (worker_backend fixture_config), (idle_controller None)\<lparr>ct_connections := 1\<rparr>)"
    by auto
  moreover have "calls (\<lambda>_. Inr ()) (forwarding CHR ''Q'' (worker_backend fixture_config) 5432) =
      (forwarding CHR ''Q'' (worker_backend fixture_config) 5432, Inr ())"
    by (simp add: calls_Inr)
  ultimately obtain s' made where
    run: "runs (proxy_connection 2 (Inr (Inr (Some CHR ''Q''))) (\<lambda>_. Inr ()) 5432 (px_controller fixture_started)) es
      (Inr (made, Inr ()), s')"
    using connection_runs by metis
  have "ct_connections (px_controller fixture_started) = 0"
    by (simp add: fixture_started_def proxy_init_def fixture_controller_def)
  with connection_forwards_stream [OF run] run show ?thesis by auto
qed

text \<open>The program called as a readiness probe only asks: whatever its outcome, every request it
  sends is a GET without a body to the worker's control port on the loopback address.\<close>

theorem probe_only_asks:
  assumes "1 < length args" "args ! 1 = ''worker-ready''"
    and "runs (program env args listen ()) es x" "EvHttp rq r \<in> set es"
  shows "rq_method rq = GET \<and> rq_body rq = None \<and> (\<exists>port. rq_peer rq = WorkerAt loopback port)"
  using program_probe [OF assms(1,2), of env listen] assms(3,4) unfolding asks_def by blast

theorem probe_only_asks_witness:
  "let rq = probe_request ''localhost'' 91 ''t'';
       es = [EvClient (Inr ()), EvRead ''token'' (Inr ''t''), EvHttp rq (Inr (reply 200 (status_value cluster_init)))]
   in runs (program fixture_env [''proxy'', ''worker-ready''] fixture_listen ()) es (Inr None, ()) \<and> rq_method rq = GET"
proof -
  let ?rq = "probe_request ''localhost'' 91 ''t''"
  let ?es = "[EvClient (Inr ()), EvRead ''token'' (Inr ''t''), EvHttp ?rq (Inr (reply 200 (status_value cluster_init)))]"
  have "runs (worker_ready fixture_env ()) ?es (Inr (), ())" by (rule fixture_probe)
  then have run: "runs (program fixture_env [''proxy'', ''worker-ready''] fixture_listen ()) ?es (Inr None, ())"
    using runs_bind [of "worker_ready fixture_env" "()" ?es "()" "()" "\<lambda>_. ret None" "[]" "(Inr None, ())"]
    by (simp add: program_def ret_def runs.Done)
  from probe_only_asks [OF _ _ run, of ?rq] have "rq_method ?rq = GET" by auto
  with run show ?thesis by (simp add: Let_def)
qed

end
