(* ===== verification/Proxy_Tests.thy ===== *)
theory Proxy_Tests
  imports Proxy_Connection Cluster_Play Controller_Evidence
begin

text \<open>
  The tests of the idle proxy (\<open>tests.rs\<close>) as truth values of the model: each definition is
  one test function, run with \<open>play\<close> against the tests' cluster, and each theorem says that it
  passes, for every control port, owner and time at which it starts. The rules in between say
  what one call leaves for the calls after it.
\<close>

section \<open>The fixture\<close>

definition test_config :: "u16 \<Rightarrow> config" where
  "test_config port = \<lparr>cf_namespace = ''test'', cf_deployment = ''worker'', cf_selector = ''worker=test'',
     cf_hostname = ''localhost'', cf_control_port = port, cf_idle_timeout = 1, cf_cold_start_timeout = 5000,
     cf_token_file = ''token'', cf_ca = [], cf_listeners = []\<rparr>"

definition test_controller :: "u16 \<Rightarrow> string \<Rightarrow> controller" where
  "test_controller port owner =
     \<lparr>ct_config = test_config port,
      ct_kube = \<lparr>kb_base = ''http://127.0.0.1'', kb_token_file = ''token'', kb_deployment_path = ''/deployments/worker'',
        kb_pods_path = ''/pods'', kb_selector = ''worker=test''\<rparr>,
      ct_owner = owner, ct_uid = ''deployment-one'', ct_needs_fence = True, ct_connections = 0, ct_idle_since = None\<rparr>"

text \<open>\<open>unwrap\<close> and \<open>is_err\<close>: the test goes on with what the call left, or fails.\<close>

definition ok :: "((perror + 'a) \<times> controller) \<times> cluster \<Rightarrow> ('a \<Rightarrow> controller \<Rightarrow> cluster \<Rightarrow> bool) \<Rightarrow> bool" where
  "ok r k = (case r of ((Inr x, s), c) \<Rightarrow> k x s c | _ \<Rightarrow> False)"

definition err :: "((perror + 'a) \<times> controller) \<times> cluster \<Rightarrow> (controller \<Rightarrow> cluster \<Rightarrow> bool) \<Rightarrow> bool" where
  "err r k = (case r of ((Inl (Error e), s), c) \<Rightarrow> k s c | _ \<Rightarrow> False)"

definition expire :: "cluster \<Rightarrow> controller \<Rightarrow> controller" where
  "expire c s = s\<lparr>ct_idle_since := Some (''worker-one'', ''boot-one'', cl_clock c - 1000)\<rparr>"

text \<open>The sleep write that was held up reaches the API server.\<close>

definition release_sleep :: "cluster \<Rightarrow> cluster" where
  "release_sleep c = (case cl_writes c of
     [] \<Rightarrow> c
   | patch # writes \<Rightarrow> (case apply_patch patch (c\<lparr>cl_writes := writes\<rparr>) of
       Some (_, c') \<Rightarrow> c' | None \<Rightarrow> c\<lparr>cl_writes := writes\<rparr>))"

text \<open>The task is aborted while it awaits the reply to a sleep write; \<open>None\<close> if it sends none.\<close>

primrec play_abort :: "('s, 'a) proc \<Rightarrow> cluster \<Rightarrow> cluster option" where
  "play_abort (Done x) c = None"
| "play_abort (ReadFile p k) c = play_abort (k (Inr ''token'')) c"
| "play_abort (Http s rq k) c = (case replied Slow_Sleep rq c of (r, c1) \<Rightarrow>
     if is_sleep rq then Some c1 else play_abort (k r) c1)"
| "play_abort (BuildClient k) c = play_abort (k (Inr ())) c"
| "play_abort (NewUuid k) c = play_abort (k (''uuid-'' @ dec_nat (cl_version c))) c"
| "play_abort (Now k) c = play_abort (k (cl_clock c)) c"
| "play_abort (Sleep s d k) c = play_abort (k ()) (c\<lparr>cl_clock := cl_clock c + d\<rparr>)"

abbreviation tests_start :: "nat \<Rightarrow> cluster" where
  "tests_start t \<equiv> cluster_init\<lparr>cl_clock := t\<rparr>"

section \<open>What one call leaves\<close>

lemma ok_simps [simp]: "ok ((Inr x, s), c) k = k x s c" "err ((Inl (Error e), s), c) k' = k' s c"
  by (simp_all add: ok_def err_def)

text \<open>
  The state between the calls of a test: no fence owed, a cluster that answers with versions
  left for \<open>n\<close> writes, and a clock far enough from both ends of its range.
\<close>

definition poised :: "nat \<Rightarrow> controller \<Rightarrow> cluster \<Rightarrow> bool" where
  "poised n s c \<longleftrightarrow> responsive n s c \<and> \<not> ct_needs_fence s \<and> cf_idle_timeout (ct_config s) = 1 \<and>
     cf_cold_start_timeout (ct_config s) = 5000 \<and> 1000 \<le> cl_clock c \<and> cl_clock c + 500 * n + 5000 < instant_limit"

lemma poised_simps [simp]:
  "poised n (s\<lparr>ct_idle_since := since\<rparr>) c = poised n s c"
  "poised n (s\<lparr>ct_connections := m\<rparr>) c = poised n s c"
  "poised n s (c\<lparr>cl_busy := b\<rparr>) = poised n s c"
  "poised n s (c\<lparr>cl_permit := p\<rparr>) = poised n s c"
  "poised n s (c\<lparr>cl_writes := ws\<rparr>) = poised n s c"
  by (simp_all add: poised_def responsive_def)

lemma poised_calm: "poised n s c \<Longrightarrow> s\<lparr>ct_needs_fence := False\<rparr> = s" "poised n s c \<Longrightarrow> fenced_cluster s c = c"
  by (cases s; simp add: poised_def) (simp add: poised_def fenced_cluster_def)

lemma poised_mono: "poised n s c \<Longrightarrow> m \<le> n \<Longrightarrow> poised m s c"
  by (auto simp: poised_def responsive_def)

lemma test_hostname: "hostname_ok (test_config port)"
  by (simp add: hostname_ok_def test_config_def)

lemma test_start:
  assumes "cl_uid c = ''deployment-one''" "\<not> cl_unsupported c" "\<not> cl_extra_pod c" "cl_version c + Suc n < 2 ^ 32"
    and "1000 \<le> cl_clock c" "cl_clock c + 500 * n + 5000 < instant_limit"
  shows "play delay (fence (test_controller port owner)) c =
      ((Inr (), (test_controller port owner)\<lparr>ct_needs_fence := False\<rparr>), patched_cluster owner None c)"
    and "poised n ((test_controller port owner)\<lparr>ct_needs_fence := False\<rparr>) (patched_cluster owner None c)"
proof -
  have "responsive (Suc n) (test_controller port owner) c"
    using assms test_hostname by (simp add: responsive_def test_controller_def pods_ok_def suffix_def)
  from play_fence [OF this] show "play delay (fence (test_controller port owner)) c =
      ((Inr (), (test_controller port owner)\<lparr>ct_needs_fence := False\<rparr>), patched_cluster owner None c)"
    by (simp add: test_controller_def)
  show "poised n ((test_controller port owner)\<lparr>ct_needs_fence := False\<rparr>) (patched_cluster owner None c)"
    using assms test_hostname
    by (simp add: poised_def responsive_def test_controller_def pods_ok_def suffix_def) (simp add: test_config_def)
qed

lemma test_wake:
  assumes "poised (n + 3) s c" "cl_replicas c \<le> 1"
  shows "play delay (wake 10 s) c =
      ((Inr (worker_backend (ct_config s)), s\<lparr>ct_idle_since := None\<rparr>), woken_cluster s c)"
    and "poised n (s\<lparr>ct_idle_since := None\<rparr>) (woken_cluster s c)"
proof -
  have r: "responsive 3 s c" using assms(1) by (auto simp: poised_def responsive_def)
  from play_wake [OF r assms(2), of 10 delay] assms(1) poised_calm [OF assms(1)]
  show "play delay (wake 10 s) c =
      ((Inr (worker_backend (ct_config s)), s\<lparr>ct_idle_since := None\<rparr>), woken_cluster s c)"
    by (simp add: poised_def)
  show "poised n (s\<lparr>ct_idle_since := None\<rparr>) (woken_cluster s c)"
    using assms(1) by (auto simp: poised_def responsive_def woken_cluster_def fenced_cluster_def)
qed

text \<open>A tick of a controller with a running worker, up to the status of the worker.\<close>

lemma test_tick:
  assumes "poised n s (c\<lparr>cl_unsupported := False, cl_extra_pod := False\<rparr>)" "ct_connections s = 0" "cl_replicas c = 1"
  shows "play delay (idle_tick s) c =
    (if cl_extra_pod c then ((Inr (), s\<lparr>ct_idle_since := None\<rparr>), c)
     else play delay (idle_backend (ct_config s) (deployment_value c) (worker_backend (ct_config s)) s) c)"
proof -
  have "play delay (current s) c = ((Inr (deployment_value c), s), c)"
    using assms(1) by (intro play_current) (auto simp: poised_def responsive_def)
  moreover have "play delay (ready_backend s) c =
      ((Inr (if cl_extra_pod c then None else Some (worker_backend (ct_config s))), s), c)"
    using assms(1,3)
    by (simp add: ready_backend_def play_bind play_pods poised_def responsive_def worker_pods_def worker_pod_ready
        play_from_pod Let_def)
  ultimately show ?thesis
    using assms
    by (simp add: idle_tick_def play_bind poised_def only_if_def idle_deployment_def eq_int_def set_idle_since_def)
qed

lemma poised_faults: "poised n s c \<Longrightarrow> \<not> cl_unsupported c \<and> \<not> cl_extra_pod c"
  by (simp add: poised_def responsive_def)

lemma no_faults: "poised n s c \<Longrightarrow> c\<lparr>cl_unsupported := False, cl_extra_pod := False\<rparr> = c"
  using poised_faults [of n s c] by (cases c) simp

lemma test_tick_busy:
  assumes "poised n s c" "ct_connections s = 0" "cl_replicas c = 1" "cl_busy c" "cl_permit c = None"
  shows "play delay (idle_tick s) c = ((Inr (), s\<lparr>ct_idle_since := None\<rparr>), c)"
  using assms poised_faults [OF assms(1)]
  by (subst test_tick [of n]) (auto simp: no_faults idle_backend_def play_bind play_status worker_status_def set_idle_since_def)

lemma test_tick_first:
  assumes "poised (Suc n) s c" "ct_connections s = 0" "cl_replicas c = 1" "\<not> cl_busy c" "cl_permit c = None"
    and "ct_idle_since s = None"
  shows "play delay (idle_tick s) c =
    ((Inr (), s\<lparr>ct_idle_since := Some (''worker-one'', ''boot-one'', cl_clock c)\<rparr>), c)"
proof -
  have "responsive (Suc n) s c" "0 < cf_idle_timeout (ct_config s)"
    and "\<nexists>since. ct_idle_since s = Some (''worker-one'', ''boot-one'', since)"
    using assms(1,6) by (simp_all add: poised_def)
  from play_idle_first [OF this(1) assms(3-5,2) this(3,2), of delay] poised_calm [OF assms(1)] show ?thesis by simp
qed

lemma expired_due:
  assumes "poised n s c" "ct_connections s = 0" "cl_replicas c = 1" "\<not> cl_busy c" "cl_permit c = None"
  shows "idle_due (expire c s) c"
  using assms by (simp add: idle_due_def expire_def poised_def)

lemma expire_again [simp]: "expire c (s\<lparr>ct_idle_since := since\<rparr>) = expire c s"
  "(expire c s)\<lparr>ct_idle_since := since\<rparr> = s\<lparr>ct_idle_since := since\<rparr>"
  "expire c (expire d s) = expire c s" "expire (c\<lparr>cl_busy := b\<rparr>) s = expire c s"
  "expire (c\<lparr>cl_unsupported := b\<rparr>) s = expire c s" "expire (c\<lparr>cl_extra_pod := b\<rparr>) s = expire c s"
  by (simp_all add: expire_def)

lemma expire_simps [simp]: "poised n (expire c s) d = poised n s d" "ct_connections (expire c s) = ct_connections s"
  by (simp_all add: expire_def)

lemma test_tick_due:
  assumes "poised (n + 2) s c" "ct_connections s = 0" "cl_replicas c = 1" "\<not> cl_busy c" "cl_permit c = None"
  shows "play Prompt (idle_tick (expire c s)) c = ((Inr (), s\<lparr>ct_idle_since := None\<rparr>), slept_cluster (expire c s) c)"
    and "poised n (s\<lparr>ct_idle_since := None\<rparr>) (slept_cluster (expire c s) c)"
proof -
  have "poised (n + 2) (expire c s) c" using assms(1) by simp
  note calm = poised_calm [OF this]
  have "responsive 2 (expire c s) c" using assms(1) by (auto simp: poised_def responsive_def expire_def)
  from play_idle_tick [OF this expired_due [OF assms]] poised_calm(1) [OF assms(1)]
  show "play Prompt (idle_tick (expire c s)) c = ((Inr (), s\<lparr>ct_idle_since := None\<rparr>), slept_cluster (expire c s) c)"
    by (simp add: expire_def)
  show "poised n (s\<lparr>ct_idle_since := None\<rparr>) (slept_cluster (expire c s) c)"
    using assms(1) unfolding slept_cluster_def calm
    by (auto simp: poised_def responsive_def expire_def)
qed

section \<open>The tests\<close>

definition cold_wake_then_idle_sleep_and_busy_state_refusal :: "u16 \<Rightarrow> string \<Rightarrow> nat \<Rightarrow> bool" where
  "cold_wake_then_idle_sleep_and_busy_state_refusal port owner t \<longleftrightarrow>
     ok (play Prompt (fence (test_controller port owner)) (tests_start t)) (\<lambda>_ s c.
     ok (play Prompt (wake 10 s) c) (\<lambda>_ s c. cl_replicas c = 1 \<and>
     ok (play Prompt (idle_tick (expire c s)) (c\<lparr>cl_busy := True\<rparr>)) (\<lambda>_ s c.
       ct_idle_since s = None \<and> cl_scale_downs c = 0 \<and>
     ok (play Prompt (idle_tick s) (c\<lparr>cl_busy := False\<rparr>)) (\<lambda>_ s c. cl_scale_downs c = 0 \<and>
     ok (play Prompt (idle_tick (expire c s)) c) (\<lambda>_ s c. cl_scale_downs c = 1 \<and>
     ok (play Prompt (wake 10 s) c) (\<lambda>_ s c. cl_replicas c = 1))))))"

definition missing_capability_or_overlapping_worker_never_scales_down :: "u16 \<Rightarrow> string \<Rightarrow> nat \<Rightarrow> bool" where
  "missing_capability_or_overlapping_worker_never_scales_down port owner t \<longleftrightarrow>
     ok (play Prompt (fence (test_controller port owner)) (tests_start t)) (\<lambda>_ s c.
     ok (play Prompt (wake 10 s) c) (\<lambda>_ s c.
     err (play Prompt (idle_tick (expire c s)) (c\<lparr>cl_unsupported := True\<rparr>)) (\<lambda>s c. cl_scale_downs c = 0 \<and>
     ok (play Prompt (idle_tick (expire c s)) (c\<lparr>cl_unsupported := False, cl_extra_pod := True\<rparr>)) (\<lambda>_ s c.
       cl_scale_downs c = 0))))"

definition timed_out_sleep_is_fenced_before_worker_resume :: "u16 \<Rightarrow> string \<Rightarrow> nat \<Rightarrow> bool" where
  "timed_out_sleep_is_fenced_before_worker_resume port owner t \<longleftrightarrow>
     ok (play Prompt (fence (test_controller port owner)) (tests_start t)) (\<lambda>_ s c.
     ok (play Prompt (wake 10 s) c) (\<lambda>_ s c.
     err (play Slow_Sleep (idle_tick (expire c s)) c) (\<lambda>s c. \<not> ct_needs_fence s \<and> cl_permit c = None \<and>
       cl_writes c \<noteq> [] \<and> cl_replicas (release_sleep c) = 1 \<and> cl_scale_downs (release_sleep c) = 0)))"

definition proxy_restart_fences_old_sleep_before_worker_resume :: "u16 \<Rightarrow> string \<Rightarrow> string \<Rightarrow> nat \<Rightarrow> bool" where
  "proxy_restart_fences_old_sleep_before_worker_resume port old new t \<longleftrightarrow>
     ok (play Prompt (fence (test_controller port old)) (tests_start t)) (\<lambda>_ s c.
     ok (play Prompt (wake 10 s) c) (\<lambda>_ s c.
     case play_abort (idle_tick (expire c s)) c of None \<Rightarrow> False | Some c \<Rightarrow>
     ok (play Slow_Sleep (fence (test_controller port new)) c) (\<lambda>_ s c.
     ok (play Slow_Sleep (wake 10 s) c) (\<lambda>_ s c. cl_permit c = None \<and>
       cl_writes c \<noteq> [] \<and> cl_replicas (release_sleep c) = 1 \<and> cl_scale_downs (release_sleep c) = 0))))"

text \<open>One connection: what the worker echoes, and a tick while the client's stream stays open.\<close>

definition connection_stays_awake ::
    "string \<Rightarrow> u16 \<Rightarrow> controller \<Rightarrow> cluster \<Rightarrow> (controller \<Rightarrow> cluster \<Rightarrow> bool) \<Rightarrow> bool" where
  "connection_stays_awake payload port s c k \<longleftrightarrow>
     ok (play Prompt (attach 10 s) c) (\<lambda>backend s c.
       received (tl payload @ ''still-open'') (forwarding (hd payload) backend port) = payload @ ''still-open'' \<and>
     ok (play Prompt (idle_tick (expire c s)) c) (\<lambda>_ s c. ct_connections s = 1 \<and>
     ok (play Prompt (detach s) c) (\<lambda>_ s c. ct_connections s = 0 \<and> k s c)))"

definition pg_payload :: string where
  "pg_payload = [CHR 0x00, CHR 0x00, CHR 0x00, CHR 0x08, CHR 0x04, CHR 0xD2, CHR 0x16, CHR 0x2F]"

definition tls_payload :: string where
  "tls_payload = [CHR 0x16, CHR 0x03, CHR 0x01] @ ''flight-tls''"

definition both_protocol_ports_pass_bytes_and_keep_open_sessions_awake ::
    "u16 \<Rightarrow> string \<Rightarrow> u16 \<Rightarrow> u16 \<Rightarrow> nat \<Rightarrow> bool" where
  "both_protocol_ports_pass_bytes_and_keep_open_sessions_awake port owner pg tls t \<longleftrightarrow>
     ok (play Prompt (fence (test_controller port owner)) (tests_start t)) (\<lambda>_ s c.
     connection_stays_awake pg_payload pg s c (\<lambda>s c.
     connection_stays_awake tls_payload tls s c (\<lambda>s c. cl_scale_downs c = 0)))"

section \<open>A task that is aborted\<close>

lemma play_abort_pbind: "play_abort (pbind t f) c = (case play_abort t c of Some c' \<Rightarrow> Some c'
    | None \<Rightarrow> (case play Slow_Sleep t c of (x, c1) \<Rightarrow> play_abort (f x) c1))"
  by (induction t arbitrary: c) (auto split: option.splits prod.splits)

text \<open>A part of the task that sends no sleep write is not where it stops.\<close>

lemma abort_wp: "wp anyhow no_sleep t Q () \<Longrightarrow> play_abort t c = None"
proof (induction t arbitrary: c)
  case (Http s rq k)
  then have "\<not> is_sleep rq" by (simp add: no_sleep_def)
  moreover have "play_abort (k r) c1 = None" for r c1 using Http by (auto simp: anyhow_def)
  ultimately show ?case by (simp split: prod.split)
qed (auto simp: anyhow_def)

lemma abort_bind: "awake m \<Longrightarrow> play_abort (bind m f s) c = (case play Slow_Sleep (m s) c of
    ((Inr x, s1), c1) \<Rightarrow> play_abort (f x s1) c1 | ((Inl e, s1), c1) \<Rightarrow> None)"
  using abort_wp [of "m s" "\<lambda>_ _. True" c]
  by (auto simp: bind_def play_abort_pbind awake_def split: prod.splits sum.splits)

lemma abort_stops: "play_abort (m s) c = Some d \<Longrightarrow> play_abort (bind m f s) c = Some d"
  "play_abort (m s) c = Some d \<Longrightarrow> play_abort (matching m g s) c = Some d"
  by (simp_all add: bind_def matching_def play_abort_pbind)

lemma awake_observe: "awake (observe_idle b st)" "awake (set_needs_fence x)"
  unfolding observe_idle_def Let_def set_needs_fence_def
  by (auto intro!: awake_rules awake_setters split: option.split)

lemma awake_ready_backend: "awake ready_backend"
  unfolding ready_backend_def Let_def by (auto intro!: awake_rules awake_requests split: list.split)

lemmas abort_awake = awake_basic awake_requests awake_current awake_ready_backend awake_setters awake_observe

definition sleep_patch_of :: "controller \<Rightarrow> cluster \<Rightarrow> json" where
  "sleep_patch_of s c = patch_body (deployment_value c) (ct_owner s) (''uuid-'' @ dec_nat (cl_version c)) (Some 0)"

lemma test_abort:
  assumes "poised n s c" "ct_connections s = 0" "cl_replicas c = 1" "\<not> cl_busy c" "cl_permit c = None"
  shows "play_abort (idle_tick (expire c s)) c =
    Some (c\<lparr>cl_permit := Some ''permit-one'', cl_writes := sleep_patch_of s c # cl_writes c\<rparr>)"
proof -
  let ?s = "expire c s" and ?config = "ct_config s" and ?b = "worker_backend (ct_config s)"
  let ?c = "c\<lparr>cl_permit := Some ''permit-one''\<rparr>"
  have s: "ct_config ?s = ?config" "ct_kube ?s = ct_kube s" "ct_owner ?s = ct_owner s" by (simp_all add: expire_def)
  have r: "responsive n ?s c" "\<not> ct_needs_fence ?s" using assms(1) by (auto simp: poised_def responsive_def expire_def)
  have "play_abort (idle_tick ?s) c = play_abort (idle_backend ?config (deployment_value c) ?b ?s) c"
    using assms(2,3) r
    by (simp add: idle_tick_def abort_bind abort_awake only_if_def play_current responsive_def idle_deployment_def
        eq_int_def play_ready_backend s)
  also have "\<dots> = play_abort (suspend_idle (deployment_value c) ?b (worker_status c) ?s) c"
    using assms(4,5) r
    by (simp add: idle_backend_def abort_bind abort_awake play_status responsive_def) (simp add: worker_status_def)
  also have "\<dots> = play_abort (after_suspension (deployment_value c) ?b (worker_status c) (worker_status ?c) ?s) ?c"
  proof -
    have "play Slow_Sleep (observe_idle ?b (worker_status c) ?s) c = ((Inr (cl_clock c - 1000), ?s), c)"
      by (simp add: observe_idle_def play_bind expire_def worker_backend_def worker_status_def)
    moreover have "play Slow_Sleep (backend_status ?b True ?config ?s) c = ((Inr (worker_status ?c), ?s), ?c)"
      using play_suspend [of c ?config ?b Slow_Sleep ?s] assms(4) r(1)
      by (simp add: responsive_def worker_backend_of suspended_cluster_def s)
    moreover have "\<not> cl_clock c - (cl_clock c - 1000) < cf_idle_timeout ?config" using assms(1) by (simp add: poised_def)
    ultimately show ?thesis by (simp add: suspend_idle_def abort_bind abort_awake s)
  qed
  also have "\<dots> = play_abort (put_to_sleep (deployment_value c) ?b ''permit-one'' ?s) ?c"
    using assms(4) by (simp add: after_suspension_def worker_status_def)
  also have "\<dots> = Some (?c\<lparr>cl_writes := sleep_patch_of s c # cl_writes c\<rparr>)"
  proof -
    have "play_abort (kube_patch (ct_kube ?s) (deployment_value c) (ct_owner ?s) (''uuid-'' @ dec_nat (cl_version c)) (Some 0)
        (?s\<lparr>ct_needs_fence := True\<rparr>)) ?c = Some (?c\<lparr>cl_writes := sleep_patch_of s c # cl_writes c\<rparr>)"
      by (simp add: kube_patch_exchange exchange_def replied_def eq_int_def sleep_patch_of_def s)
    then show ?thesis
      unfolding put_to_sleep_def scale_def guarded_patch_def
      by (intro abort_stops(2)) (simp add: abort_bind abort_awake set_needs_fence_def abort_stops)
  qed
  finally show ?thesis by simp
qed

section \<open>The tests pass\<close>

text \<open>What the tests' clusters have in common.\<close>

lemma tests_start_ok:
  assumes "1000 \<le> t" "t + 500 * n + 5000 < instant_limit" "Suc (Suc n) < 2 ^ 32"
  shows "play delay (fence (test_controller port owner)) (tests_start t) =
      ((Inr (), (test_controller port owner)\<lparr>ct_needs_fence := False\<rparr>), patched_cluster owner None (tests_start t))"
    and "poised n ((test_controller port owner)\<lparr>ct_needs_fence := False\<rparr>) (patched_cluster owner None (tests_start t))"
  using assms by (intro test_start; simp add: cluster_init_def)+

lemma tests_begin:
  assumes "1000 \<le> t" "t + 10000 < instant_limit"
  obtains s c d b where "play Prompt (fence (test_controller port owner)) (tests_start t) = ((Inr (), s), c)"
    "play Prompt (wake 10 s) c = ((Inr b, s), d)" "poised 5 s d" "ct_connections s = 0" "ct_idle_since s = None"
    "cl_replicas d = 1" "cl_permit d = None" "\<not> cl_busy d" "cl_scale_downs d = 0" "cl_writes d = []"
    "cl_uid d = ''deployment-one''"
proof -
  let ?s = "(test_controller port owner)\<lparr>ct_needs_fence := False\<rparr>" and ?c = "patched_cluster owner None (tests_start t)"
  have s: "ct_connections ?s = 0" "ct_idle_since ?s = None" "?s\<lparr>ct_idle_since := None\<rparr> = ?s"
    by (simp_all add: test_controller_def)
  have c: "cl_replicas ?c \<le> 1" "\<not> cl_busy ?c" "cl_scale_downs ?c = 0" "cl_writes ?c = []" "cl_uid ?c = ''deployment-one''"
    by (simp_all add: cluster_init_def patched_cluster_def Let_def)
  have "t + 500 * 8 + 5000 < instant_limit" using assms(2) by simp
  from tests_start_ok [OF assms(1) this] have start:
    "play Prompt (fence (test_controller port owner)) (tests_start t) = ((Inr (), ?s), ?c)" and p: "poised (5 + 3) ?s ?c"
    by simp_all
  let ?d = "woken_cluster ?s ?c"
  have d: "poised 5 ?s ?d" using test_wake(2) [OF p c(1)] s(3) by simp
  have wake: "play Prompt (wake 10 ?s) ?c = ((Inr (worker_backend (ct_config ?s)), ?s), ?d)"
    using test_wake(1) [OF p c(1), of Prompt] unfolding s(3) .
  have "cl_replicas ?d = 1" "cl_permit ?d = None" "\<not> cl_busy ?d" "cl_scale_downs ?d = 0" "cl_writes ?d = []"
    "cl_uid ?d = ''deployment-one''" using c by simp_all
  with that [OF start wake d s(1,2)] show thesis by blast
qed

lemma cold_wake_test:
  assumes "1000 \<le> t" "t + 10000 < instant_limit"
  shows "cold_wake_then_idle_sleep_and_busy_state_refusal port owner t"
proof -
  from assms obtain s c d b where start: "play Prompt (fence (test_controller port owner)) (tests_start t) = ((Inr (), s), c)"
    and wake: "play Prompt (wake 10 s) c = ((Inr b, s), d)" and d: "poised 5 s d"
    and s: "ct_connections s = 0" "ct_idle_since s = None"
    and up: "cl_replicas d = 1" "cl_permit d = None" "\<not> cl_busy d" "cl_scale_downs d = 0"
    by (rule tests_begin)
  have same: "s\<lparr>ct_idle_since := None\<rparr> = s" "d\<lparr>cl_busy := False\<rparr> = d" using s(2) up(3) by simp_all
  have busy: "play Prompt (idle_tick (expire d s)) (d\<lparr>cl_busy := True\<rparr>) = ((Inr (), s), d\<lparr>cl_busy := True\<rparr>)"
    using test_tick_busy [of 5 "expire d s" "d\<lparr>cl_busy := True\<rparr>" Prompt] d s up same by simp
  have first: "play Prompt (idle_tick s) (d\<lparr>cl_busy := False\<rparr>) =
      ((Inr (), s\<lparr>ct_idle_since := Some (''worker-one'', ''boot-one'', cl_clock d)\<rparr>), d)"
    unfolding same(2) using test_tick_first [of 4 s d Prompt] d s up by simp
  let ?e = "slept_cluster (expire d s) d"
  have due: "play Prompt (idle_tick (expire d s)) d = ((Inr (), s), ?e)" and e: "poised 3 s ?e"
    using test_tick_due [of 3 s d] d s up same by simp_all
  have "play Prompt (wake 10 s) ?e = ((Inr (worker_backend (ct_config s)), s), woken_cluster s ?e)"
    using test_wake(1) [of 0 s ?e Prompt] e same by simp
  with start wake busy first due s(2) up(1,4) show ?thesis
    by (simp add: cold_wake_then_idle_sleep_and_busy_state_refusal_def)
qed

lemma missing_capability_test:
  assumes "1000 \<le> t" "t + 10000 < instant_limit"
  shows "missing_capability_or_overlapping_worker_never_scales_down port owner t"
proof -
  from assms obtain s c d b where start: "play Prompt (fence (test_controller port owner)) (tests_start t) = ((Inr (), s), c)"
    and wake: "play Prompt (wake 10 s) c = ((Inr b, s), d)" and d: "poised 5 s d"
    and s: "ct_connections s = 0" "ct_idle_since s = None"
    and up: "cl_replicas d = 1" "cl_permit d = None" "\<not> cl_busy d" "cl_scale_downs d = 0"
    by (rule tests_begin)
  have whole: "poised 5 (expire d s) (d\<lparr>cl_unsupported := False, cl_extra_pod := False\<rparr>)"
    using d no_faults [OF d] by simp
  have lost: "play Prompt (backend_status (worker_backend config) False config' s') (d\<lparr>cl_unsupported := True\<rparr>) =
      ((Inl (Error (''HTTP status error ('' @ dec_nat 404 @ '')'')), s'), d\<lparr>cl_unsupported := True\<rparr>)" for config config' s'
    by (simp add: status_exchange play_exchange replied_def serve_def to_worker_control control_handle_def
        status_of_reply_def decoded_def reply_def error_for_status_def andThen_def map_err_def)
  have refused: "play Prompt (idle_tick (expire d s)) (d\<lparr>cl_unsupported := True\<rparr>) =
      ((Inl (Error (''HTTP status error ('' @ dec_nat 404 @ '')'')), expire d s), d\<lparr>cl_unsupported := True\<rparr>)"
    using test_tick [of 5 "expire d s" "d\<lparr>cl_unsupported := True\<rparr>" Prompt] whole s up poised_faults [OF d]
    by (simp add: idle_backend_def play_bind lost)
  have overlap: "play Prompt (idle_tick (expire d s)) (d\<lparr>cl_extra_pod := True\<rparr>) =
      ((Inr (), s\<lparr>ct_idle_since := None\<rparr>), d\<lparr>cl_extra_pod := True\<rparr>)"
    using test_tick [of 5 "expire d s" "d\<lparr>cl_extra_pod := True\<rparr>" Prompt] whole s up poised_faults [OF d] by simp
  have same: "d\<lparr>cl_unsupported := False, cl_extra_pod := True\<rparr> = d\<lparr>cl_extra_pod := True\<rparr>"
    using poised_faults [OF d] by (cases d) simp
  show ?thesis
    using start wake refused overlap up
    by (simp add: missing_capability_or_overlapping_worker_never_scales_down_def same [simplified])
qed

text \<open>A held-up write under a version that was left behind changes nothing.\<close>

lemma release_stale:
  assumes "cl_writes c = patch # writes" "resource_version patch \<noteq> JStr (dec_nat (cl_version c))"
  shows "cl_replicas (release_sleep c) = cl_replicas c" "cl_scale_downs (release_sleep c) = cl_scale_downs c"
  using assms by (simp_all add: release_sleep_def apply_patch_def)

lemma timed_out_test:
  assumes "1000 \<le> t" "t + 10000 < instant_limit"
  shows "timed_out_sleep_is_fenced_before_worker_resume port owner t"
proof -
  from assms obtain s c d b where start: "play Prompt (fence (test_controller port owner)) (tests_start t) = ((Inr (), s), c)"
    and wake: "play Prompt (wake 10 s) c = ((Inr b, s), d)" and d: "poised 5 s d" and s: "ct_connections s = 0"
    and up: "cl_replicas d = 1" "cl_permit d = None" "\<not> cl_busy d" "cl_scale_downs d = 0" "cl_writes d = []"
    by (rule tests_begin)
  have "responsive 3 (expire d s) d" using d by (auto simp: poised_def responsive_def expire_def)
  moreover have "idle_due (expire d s) d" using d s up(1,3,2) by (rule expired_due)
  ultimately obtain s' c' patch where "play Slow_Sleep (idle_tick (expire d s)) d = ((Inl (Error ''operation timed out''), s'), c')"
    "cl_writes c' = patch # cl_writes d" "resource_version patch \<noteq> resource_version (deployment_value c')"
    "cl_replicas c' = 1" "cl_permit c' = None" "cl_scale_downs c' = cl_scale_downs d" "\<not> ct_needs_fence s'"
    by (rule play_idle_tick_slow)
  with start wake up release_stale [of c' patch "[]"] show ?thesis
    by (simp add: timed_out_sleep_is_fenced_before_worker_resume_def)
qed

lemma patched_writes [simp]: "cl_writes (patched_cluster owner replicas c) = cl_writes c"
  "cl_scale_downs (patched_cluster owner None c) = cl_scale_downs c"
  by (simp_all add: patched_cluster_def set_replicas_def Let_def split: option.split)

lemma proxy_restart_test:
  assumes "1000 \<le> t" "t + 10000 < instant_limit"
  shows "proxy_restart_fences_old_sleep_before_worker_resume port old new t"
proof -
  from assms obtain s c d b where start: "play Prompt (fence (test_controller port old)) (tests_start t) = ((Inr (), s), c)"
    and wake: "play Prompt (wake 10 s) c = ((Inr b, s), d)" and d: "poised 5 s d" and s: "ct_connections s = 0"
    and up: "cl_replicas d = 1" "cl_permit d = None" "\<not> cl_busy d" "cl_scale_downs d = 0" "cl_writes d = []"
      "cl_uid d = ''deployment-one''"
    by (rule tests_begin)
  let ?d = "d\<lparr>cl_permit := Some ''permit-one'', cl_writes := [sleep_patch_of s d]\<rparr>"
  let ?s = "(test_controller port new)\<lparr>ct_needs_fence := False\<rparr>" and ?e = "patched_cluster new None ?d"
  have drop: "play_abort (idle_tick (expire d s)) d = Some ?d"
    using test_abort [OF d s up(1,3,2)] up(5) by simp
  have "cl_uid ?d = ''deployment-one''" "\<not> cl_unsupported ?d" "\<not> cl_extra_pod ?d" "cl_version ?d + Suc 3 < 2 ^ 32"
    "1000 \<le> cl_clock ?d" "cl_clock ?d + 500 * 3 + 5000 < instant_limit"
    using d up(6) by (auto simp: poised_def responsive_def)
  note again = test_start(1) [OF this, of Slow_Sleep port new] test_start(2) [OF this, of port new]
  have "?s\<lparr>ct_idle_since := None\<rparr> = ?s" by (simp add: test_controller_def)
  then have rewake: "play Slow_Sleep (wake 10 ?s) ?e = ((Inr (worker_backend (ct_config ?s)), ?s), woken_cluster ?s ?e)"
    using test_wake(1) [of 0 ?s ?e Slow_Sleep] again(2) up(1) by simp
  have woken: "woken_cluster ?s ?e = ?e\<lparr>cl_permit := None\<rparr>" using up(1) by (simp add: woken_cluster_def fenced_cluster_def)
  have "resource_version (sleep_patch_of s d) \<noteq> JStr (dec_nat (cl_version d + 1))"
    by (simp add: sleep_patch_of_def)
  then have "cl_replicas (release_sleep (woken_cluster ?s ?e)) = 1" "cl_scale_downs (release_sleep (woken_cluster ?s ?e)) = 0"
    using release_stale [of "woken_cluster ?s ?e" "sleep_patch_of s d" "[]"] up by (simp_all add: woken)
  moreover have "cl_writes (woken_cluster ?s ?e) \<noteq> []" by simp
  ultimately show ?thesis
    using start wake drop again(1) rewake by (simp add: proxy_restart_fences_old_sleep_before_worker_resume_def)
qed

text \<open>A connection finds the worker, or wakes it; a tick while it is open only forgets the idle time.\<close>

lemma received_forwarding: "received rest (forwarding byte backend port) = byte # rest"
  by (simp add: forwarding_def)

lemma connection_test:
  assumes "poised (n + 3) s c" "ct_connections s = 0" "cl_replicas c \<le> 1" "payload \<noteq> []"
    and "k (s\<lparr>ct_connections := 0, ct_idle_since := None\<rparr>) (woken_cluster s c)"
  shows "connection_stays_awake payload port s c k"
proof -
  let ?s = "s\<lparr>ct_connections := 1\<rparr>"
  let ?t = "?s\<lparr>ct_idle_since := None\<rparr>" and ?d = "woken_cluster ?s c"
  have p: "poised (n + 3) ?s c" using assms(1) by simp
  have d: "?d = woken_cluster s c" by (simp add: woken_cluster_def fenced_cluster_def)
  have attach: "play Prompt (attach 10 s) c = ((Inr (worker_backend (ct_config ?s)), ?t), ?d)"
    using test_wake(1) [OF p assms(3), of Prompt] assms(2) by (simp add: attach_def count_up_def play_bind play_matching)
  have "\<not> ct_needs_fence (expire ?d ?t)" "ct_connections (expire ?d ?t) = 1"
    using assms(1) by (simp_all add: expire_def poised_def)
  then have tick: "play Prompt (idle_tick (expire ?d ?t)) ?d = ((Inr (), ?t), ?d)"
    by (simp add: idle_tick_def play_bind only_if_def set_idle_since_def)
  have "play Prompt (detach ?t) ?d = ((Inr (), s\<lparr>ct_connections := 0, ct_idle_since := None\<rparr>), ?d)"
    by (simp add: detach_def count_down_def set_idle_since_def play_bind)
  with attach tick assms(4,5) show ?thesis
    by (simp add: connection_stays_awake_def received_forwarding d [simplified])
qed

lemma both_ports_test:
  assumes "1000 \<le> t" "t + 10000 < instant_limit"
  shows "both_protocol_ports_pass_bytes_and_keep_open_sessions_awake port owner pg tls t"
proof -
  let ?s = "(test_controller port owner)\<lparr>ct_needs_fence := False\<rparr>" and ?c = "patched_cluster owner None (tests_start t)"
  have "t + 500 * 6 + 5000 < instant_limit" using assms(2) by simp
  from tests_start_ok [OF assms(1) this] have start:
    "play Prompt (fence (test_controller port owner)) (tests_start t) = ((Inr (), ?s), ?c)" and c: "poised (3 + 3) ?s ?c"
    by simp_all
  have s: "ct_connections ?s = 0" "?s\<lparr>ct_connections := 0, ct_idle_since := None\<rparr> = ?s" "?s\<lparr>ct_idle_since := None\<rparr> = ?s"
    by (simp_all add: test_controller_def)
  have down: "cl_replicas ?c = 0" "cl_scale_downs ?c = 0" by (simp_all add: cluster_init_def)
  have d: "poised (0 + 3) ?s (woken_cluster ?s ?c)" using test_wake(2) [OF c] down s(3) by simp
  have "connection_stays_awake tls_payload tls ?s (woken_cluster ?s ?c) (\<lambda>s c. cl_scale_downs c = 0)"
    using d s(1) by (rule connection_test) (simp_all add: cluster_init_def tls_payload_def)
  then have "connection_stays_awake pg_payload pg ?s ?c
      (\<lambda>s c. connection_stays_awake tls_payload tls s c (\<lambda>s c. cl_scale_downs c = 0))"
    by (intro connection_test [OF c s(1)]) (simp_all add: cluster_init_def pg_payload_def s(2))
  with start show ?thesis
    by (simp add: both_protocol_ports_pass_bytes_and_keep_open_sessions_awake_def)
qed

text \<open>C37: The proxy's own tests pass on the model, whatever the control port, the ports of the
  connections, the owners the controllers draw and the time at which a test starts: cold wake,
  busy refusal and sleep; no sleep without the capability or beside a second worker; a sleep
  write that times out, or whose proxy is aborted and replaced, is fenced before the worker is
  resumed; and open connections pass their bytes and keep the worker awake.\<close>

theorem proxy_tests_pass:
  assumes "1000 \<le> t" "t + 10000 < instant_limit"
  shows "cold_wake_then_idle_sleep_and_busy_state_refusal port owner t \<and>
    missing_capability_or_overlapping_worker_never_scales_down port owner t \<and>
    timed_out_sleep_is_fenced_before_worker_resume port owner t \<and>
    proxy_restart_fences_old_sleep_before_worker_resume port owner new t \<and>
    both_protocol_ports_pass_bytes_and_keep_open_sessions_awake port owner pg tls t"
  using cold_wake_test [OF assms] missing_capability_test [OF assms] timed_out_test [OF assms]
    proxy_restart_test [OF assms] both_ports_test [OF assms] by blast

theorem proxy_tests_pass_witness:
  "cold_wake_then_idle_sleep_and_busy_state_refusal 4091 ''owner-1'' 1000 \<and>
   proxy_restart_fences_old_sleep_before_worker_resume 4091 ''owner-1'' ''owner-2'' 1000"
  using proxy_tests_pass [of 1000 4091 "''owner-1''" "''owner-2''" 5432 8815] by (simp add: instant_limit_def)

end
