(* ===== verification/Spec2Isabelle.thy ===== *)
theory Spec2Isabelle
  imports Extension_Properties Unit_Tests Entry_Properties Proxy_Properties Proxy_Tests
begin

text \<open>
  A model of the code of DuckFlight and the theorems that make it correct. Three programs share
  the repository: the DuckDB extension, which serves a database through a core library it loads,
  the entry program of the server image, which starts a DuckDB with the extension, and the idle
  proxy, which puts such a worker to sleep in Kubernetes and wakes it.

  \<^bold>\<open>The extension.\<close> \<open>Abi\<close> is the C interface (\<open>crates/duckflight-extension-abi/src/lib.rs\<close>):
  statuses, protocols, the structures and their sizes, the entry points as trees of callbacks.
  \<open>Protocol\<close> and \<open>Diagnostics\<close> are the protocol names, boxed errors and the error buffer.
  \<open>Bundle\<close> and \<open>Dynamic_Core\<close> are \<open>src/dynamic_core.rs\<close>: the sealed memory file, validation of
  an untrusted API table, creation of a core, the calls through it and the order of release.
  \<open>Bundle_Seal\<close> states what Linux documents of memory files as the locale \<open>sealing_kernel\<close>,
  interprets it on a map of files, and shows that the bundled bytes are what is executed.
  \<open>Core_Runtime\<close> is the trait behind which the core sits, with the locale \<open>server_runtime\<close> as
  its contract; \<open>Mock_Core\<close> is the provider of the tests (\<open>test/mock_core/src/lib.rs\<close>), on which
  the contract is interpreted. \<open>Table_Functions\<close>, \<open>Server_Control\<close> and \<open>Extension_Entry\<close> are
  \<open>src/lib.rs\<close> (bind, init and func of the seven table functions, their composition with a
  core, and the entry point) and \<open>build.rs\<close>. \<open>Table_Query\<close> is the trait \<open>VTab\<close> with its
  implementations, and a query as a whole: the loop in which DuckDB calls them, with fuel of
  one call more than the rows a function emits. \<open>Unit_Tests\<close> states the unit tests of the
  crates on the model and proves that they pass. \<open>Extension_Properties\<close> holds what the
  extension promises.

  \<^bold>\<open>The entry program\<close> (\<open>docker/server.c\<close>). \<open>Server_Entry\<close> is the C program function by function:
  its environment checks, the script it writes to the child's input (each call may complete, be
  cut by a signal or find the pipe broken), the loop that supervises the child, the exit code.
  \<open>Entry_Properties\<close> shows that its quoting cannot be escaped, that its listener commands reach
  the extension's functions with the configured strings, that the configuration is locked before
  any listener opens, and what its exit code means.

  \<^bold>\<open>The idle proxy\<close> (\<open>crates/duckflight-idle-proxy/src/main.rs\<close>). \<open>Json\<close> and \<open>Ip_Addr\<close> are
  the parts of \<open>serde_json\<close> values and of the standard library's address parser it uses.
  \<open>Async\<close> gives asynchronous code as a tree of effects, its traces (\<open>runs\<close>, and \<open>suspends\<close> for
  a future dropped at an await) and a weakest precondition over a world that answers and
  changes on its own; it is sound for both. \<open>Proxy_Config\<close>, \<open>Kubernetes\<close> and \<open>Backend\<close> are the
  configuration, the API client and the worker's control client with the readiness probe.
  \<open>Controller\<close> is \<open>impl Controller\<close>, one definition per method and per stage of \<open>wake\<close> and
  \<open>idle_tick\<close>. \<open>Proxy_Server\<close> is \<open>proxy_connection\<close> and \<open>main\<close>: the procedures under the
  controller's lock are the steps of a relation, interleaved with the world, with SIGTERM
  (the idle task dropped at any await) and with crashes and restarts. \<open>Proxy_Connection\<close> is
  one connection as a whole, with its calls on the two sockets, the health listener's
  handler, and the choice of \<open>main\<close> between proxy and readiness probe.

  \<^bold>\<open>Its lemmas.\<close> \<open>Controller_Fields\<close>: what each procedure leaves of its fields.
  \<open>Controller_Fencing\<close>: the locale \<open>idle_world\<close> states optimistic concurrency and the worker's
  gate as laws, and every procedure keeps the controller \<open>guarded\<close> in such a world.
  \<open>Proxy_Safety\<close> lifts this to the process: \<open>sound\<close> is the invariant of its steps. Its locale
  \<open>lasting_world\<close> restricts a world to the events a counted connection leaves possible, finds it
  to be an \<open>idle_world\<close> again, and so gets from the same specifications what lasts while a
  connection is forwarded; \<open>attached_world\<close> is the instance for the worker's scale-downs, and
  \<open>serving_world\<close> (in \<open>Proxy_Service\<close>) the one for a worker that runs with its gate open.
  There the abstract service is stated, with sessions by port and a worker that sleeps only
  without one, and the steps of the process are shown to refine it. \<open>Controller_Evidence\<close> shows from the trace
  what the controller has seen when it acts. \<open>Controller_Progress\<close> shows in the locale
  \<open>timed_world\<close> that the fuel of \<open>wake_loop\<close> suffices: one round per half second of the
  cold-start timeout, because the deadline of the code comes first. \<open>Cluster\<close> is the API server
  and control server of the proxy's tests (\<open>tests.rs\<close>) with patches that may arrive at any later
  time, and optionally with requests to suspend that do; the locales are interpreted on it, all
  but \<open>serving_world\<close> for both. \<open>Cluster_Play\<close> runs the procedures against a cluster that
  answers, with or without a delayed sleep write or suspension, and gives the exact state each
  leaves. \<open>Idle_Task\<close> follows the loop of the idle task round by round until the worker sleeps.
  \<open>Proxy_Tests\<close> states the five tests of \<open>tests.rs\<close> on the model and proves that they pass.
  \<open>Fixture\<close> is one concrete process with its first steps, at which theorems are applied, and the
  run in which a late suspension closes a worker under an attached client. \<open>Proxy_Properties\<close>
  holds what the proxy promises.

  \<^bold>\<open>Conventions.\<close> Strings are lists of bytes as characters, \<open>usize\<close> and \<open>u32\<close> are words, a
  \<open>Result\<close> is a sum. Errors of third-party crates are texts. Durations and instants are
  milliseconds, and the end of an instant's range is written out.

  \<^bold>\<open>Assumptions.\<close> A host name in the configuration contains no slash. In the cluster a request to
  resume takes effect before its answer or not at all, a suspended worker does not restart,
  and one proxy process runs at a time, as the Deployment's recreation ensures. That an
  attached connection is served, and the refinement of the abstract service, need the same of
  requests to suspend; the other promises do not.

  \<^bold>\<open>Not modelled.\<close> The DuckDB crate behind the extension (its answers and the loop of a query
  are parameters and assumptions), mutex poisoning; in the proxy TLS and the runtime of tokio
  (sockets answer calls, \<open>copy_bidirectional\<close> moves the rest of the client's stream); in the entry
  program the messages on the error stream; the images, charts, scripts, benchmarks and Python
  tests of the repository.
\<close>

end
